theory Spec2Isabelle
  imports Main "HOL-Library.Word"
begin

section \<open>Machine integers and errors\<close>

text \<open>
  Go's \<open>uint64\<close> and \<open>int64\<close> are both 64-bit words. An \<open>int64\<close> is read with
  \<open>sint\<close> (two's complement), a \<open>uint64\<close> with \<open>unat\<close>/\<open>uint\<close>. The conversion
  \<open>int64(x)\<close> of a \<open>uint64\<close> keeps the bit pattern.
\<close>

type_synonym uint64 = "64 word"
type_synonym int64 = "64 word"

definition int64_of_uint64 :: "uint64 \<Rightarrow> int64" where
  "int64_of_uint64 x = x"

text \<open>
  A Go \<open>error\<close> value. \<open>None\<close> of \<open>error option\<close> is the nil error. \<open>StatusError\<close> is an
  error carrying a gRPC status with the given code, \<open>Errorf\<close> a plain error with a message,
  \<open>Wrapped\<close> the result of \<open>fmt.Errorf("...: %w", err)\<close>.
\<close>

datatype error = Errorf string | StatusError nat | Wrapped string error

text \<open>A run-time panic of the Go program (index out of range).\<close>

datatype panic = IndexOutOfRange

section \<open>pkg/pprof: the data model\<close>

text \<open>
  \<open>process.Mapping\<close> is declared outside the files at hand; the fields are the ones the
  specification lists for a process mapping.
\<close>

record process_Mapping =
  pm_Start :: uint64
  pm_Limit :: uint64
  pm_Offset :: uint64
  pm_File :: string
  pm_BuildID :: string

text \<open>
  The records of \<open>github.com/google/pprof/profile\<close> that the converter fills. Go holds
  mappings, locations and functions by pointer; none of them is written after it has been
  allocated, so the model holds them by value.
\<close>

record Mapping =
  Mapping_ID :: uint64
  Mapping_Start :: uint64
  Mapping_Limit :: uint64
  Mapping_Offset :: uint64
  Mapping_File :: string
  Mapping_BuildID :: string

record Function =
  Function_ID :: uint64
  Function_Name :: string

record Line =
  Line_Function :: Function

record Location =
  Location_ID :: uint64
  Location_Mapping :: Mapping
  Location_Address :: uint64
  Location_Line :: "Line list"

record Sample =
  Sample_Value :: "int64 list"
  Sample_Location :: "Location list"

record ValueType =
  ValueType_Type :: string
  ValueType_Unit :: string

record Profile =
  Profile_TimeNanos :: int
  Profile_DurationNanos :: int
  Profile_Period :: int
  Profile_SampleType :: "ValueType list"
  Profile_PeriodType :: ValueType
  Profile_Mapping :: "Mapping list"
  Profile_Location :: "Location list"
  Profile_Function :: "Function list"
  Profile_Sample :: "Sample list"

text \<open>\<open>profile.RawSample\<close>: the value and the two stacks, leaf first.\<close>

record RawSample =
  RawSample_Value :: uint64
  RawSample_UserStack :: "uint64 list"
  RawSample_KernelStack :: "uint64 list"

text \<open>
  A \<open>*perf.Map\<close> is used only through \<open>Lookup(addr) (string, error)\<close>, so it is modelled
  as that lookup; \<open>None\<close> of \<open>perf_Map option\<close> is the nil pointer.
\<close>

type_synonym perf_Map = "uint64 \<Rightarrow> error + string"

text \<open>
  The collaborators a converter is constructed with. Each is an interface or a type of
  another package and is taken as a parameter: the kernel symbol resolver
  \<open>ksym.Resolve\<close>, the VDSO symbolizer, the address normalizer, and the perf-map and
  jitdump caches (which return a pointer and an error, either of which may be nil).
\<close>

record Collaborators =
  ksym_Resolve :: "uint64 set \<Rightarrow> error + (uint64 \<rightharpoonup> string)"
  vdsoSymbolizer_Resolve :: "uint64 \<Rightarrow> process_Mapping \<Rightarrow> error + string"
  addressNormalizer_Normalize :: "process_Mapping \<Rightarrow> uint64 \<Rightarrow> error + uint64"
  perfMapCache_PerfMapForPID :: "int \<Rightarrow> perf_Map option \<times> error option"
  jitdumpCache_JitdumpForPID :: "int \<Rightarrow> string \<Rightarrow> perf_Map option \<times> error option"

text \<open>
  The \<open>Converter\<close> struct. \<open>frameDrop_mapping_nil\<close> is the counter
  \<open>metrics.frameDrop\<close> with the label \<open>mapping_nil\<close>.
\<close>

record Converter =
  disableJITSymbolization :: bool
  cachedPerfMap :: "perf_Map option"
  cachedPerfMapErr :: "error option"
  cachedJitdump :: "string \<rightharpoonup> perf_Map option"
  cachedJitdumpErr :: "string \<rightharpoonup> error option"
  functionIndex :: "string \<rightharpoonup> Function"
  addrLocationIndex :: "uint64 \<rightharpoonup> Location"
  perfmapLocationIndex :: "string \<rightharpoonup> Location"
  jitdumpLocationIndex :: "string \<rightharpoonup> Location"
  kernelLocationIndex :: "string \<rightharpoonup> Location"
  vdsoLocationIndex :: "string \<rightharpoonup> Location"
  pid :: int
  mappings :: "process_Mapping list"
  kernelMapping :: Mapping
  result :: Profile
  frameDrop_mapping_nil :: nat

section \<open>pkg/pprof: NewConverter\<close>

text \<open>
  Modelled from the spec: \<open>process.Mappings.ConvertToPprof\<close>, which is not among the
  files at hand. The profile mappings mirror the process mappings in order, with 1-based
  ids.
\<close>

definition convertToPprof :: "nat \<Rightarrow> process_Mapping \<Rightarrow> Mapping" where
  "convertToPprof i m =
     \<lparr>Mapping_ID = of_nat (i + 1), Mapping_Start = pm_Start m, Mapping_Limit = pm_Limit m,
      Mapping_Offset = pm_Offset m, Mapping_File = pm_File m, Mapping_BuildID = pm_BuildID m\<rparr>"

definition ConvertToPprof :: "process_Mapping list \<Rightarrow> Mapping list" where
  "ConvertToPprof ms = map (\<lambda>(i, m). convertToPprof i m) (enumerate 0 ms)"

text \<open>
  \<open>time.Since(t)\<close> is \<open>time.Now().Sub(t)\<close>; the clock reading \<open>now\<close> is the one taken
  while \<open>NewConverter\<close> runs. Times are nanoseconds since the epoch.
\<close>

text \<open>
  \<open>NewConverter\<close>. The collaborators it stores are handed to the functions that call
  them (the record \<open>Collaborators\<close>); the metrics it is given are the value of the
  \<open>mapping_nil\<close> counter so far; the logger is left out.
\<close>

definition time_Since :: "int \<Rightarrow> int \<Rightarrow> int" where
  "time_Since now t = now - t"

definition NewConverter ::
  "nat \<Rightarrow> bool \<Rightarrow> int \<Rightarrow> process_Mapping list \<Rightarrow> int \<Rightarrow> int \<Rightarrow> int \<Rightarrow> Converter" where
  "NewConverter metrics' disableJIT pid' mappings' captureTime now periodNS =
     (let pprofMappings = ConvertToPprof mappings';
          kernelMapping' = \<lparr>Mapping_ID = of_nat (length pprofMappings) + 1,
                             Mapping_Start = 0, Mapping_Limit = 0, Mapping_Offset = 0,
                             Mapping_File = ''[kernel.kallsyms]'', Mapping_BuildID = ''''\<rparr>;
          pprofMappings = pprofMappings @ [kernelMapping']
      in \<lparr>disableJITSymbolization = disableJIT,
          cachedPerfMap = None,
          cachedPerfMapErr = None,
          cachedJitdump = Map.empty,
          cachedJitdumpErr = Map.empty,
          functionIndex = Map.empty,
          addrLocationIndex = Map.empty,
          perfmapLocationIndex = Map.empty,
          jitdumpLocationIndex = Map.empty,
          kernelLocationIndex = Map.empty,
          vdsoLocationIndex = Map.empty,
          pid = pid',
          mappings = mappings',
          kernelMapping = kernelMapping',
          result = \<lparr>Profile_TimeNanos = captureTime,
                     Profile_DurationNanos = time_Since now captureTime,
                     Profile_Period = periodNS,
                     Profile_SampleType = [\<lparr>ValueType_Type = ''samples'', ValueType_Unit = ''count''\<rparr>],
                     Profile_PeriodType = \<lparr>ValueType_Type = ''cpu'', ValueType_Unit = ''nanoseconds''\<rparr>,
                     Profile_Mapping = pprofMappings,
                     Profile_Location = [],
                     Profile_Function = [],
                     Profile_Sample = []\<rparr>,
          frameDrop_mapping_nil = metrics'\<rparr>)"

section \<open>pkg/pprof: Convert\<close>

text \<open>\<open>mappingForAddr\<close>: the index of the first mapping that holds the address, or -1.\<close>

fun mappingForAddr_from :: "nat \<Rightarrow> Mapping list \<Rightarrow> uint64 \<Rightarrow> int" where
  "mappingForAddr_from i [] addr = -1"
| "mappingForAddr_from i (m # ms) addr =
     (if Mapping_Start m \<le> addr \<and> addr < Mapping_Limit m then int i
      else mappingForAddr_from (Suc i) ms addr)"

definition mappingForAddr :: "Mapping list \<Rightarrow> uint64 \<Rightarrow> int" where
  "mappingForAddr ms addr = mappingForAddr_from 0 ms addr"

definition addFunction :: "Converter \<Rightarrow> string \<Rightarrow> Function \<times> Converter" where
  "addFunction c name =
     (case functionIndex c name of
        Some f \<Rightarrow> (f, c)
      | None \<Rightarrow>
          (let f = \<lparr>Function_ID = of_nat (length (Profile_Function (result c)) + 1),
                    Function_Name = name\<rparr>
           in (f, c\<lparr>functionIndex := (functionIndex c)(name \<mapsto> f),
                    result := (result c)\<lparr>Profile_Function := Profile_Function (result c) @ [f]\<rparr>\<rparr>)))"

definition addKernelLocation ::
  "Converter \<Rightarrow> Mapping \<Rightarrow> (uint64 \<rightharpoonup> string) \<Rightarrow> uint64 \<Rightarrow> Location \<times> Converter" where
  "addKernelLocation c m kernelSymbols addr =
     (let kernelSymbol = (case kernelSymbols addr of Some s \<Rightarrow> s | None \<Rightarrow> ''not found'')
      in case kernelLocationIndex c kernelSymbol of
           Some l \<Rightarrow> (l, c)
         | None \<Rightarrow>
             (let (f, c1) = addFunction c kernelSymbol;
                  l = \<lparr>Location_ID = of_nat (length (Profile_Location (result c))) + 1,
                       Location_Mapping = m, Location_Address = 0,
                       Location_Line = [\<lparr>Line_Function = f\<rparr>]\<rparr>
              in (l, c1\<lparr>kernelLocationIndex := (kernelLocationIndex c1)(kernelSymbol \<mapsto> l),
                       result := (result c1)\<lparr>Profile_Location := Profile_Location (result c1) @ [l]\<rparr>\<rparr>)))"

definition addVDSOLocation ::
  "Collaborators \<Rightarrow> Converter \<Rightarrow> process_Mapping \<Rightarrow> Mapping \<Rightarrow> uint64 \<Rightarrow> Location \<times> Converter" where
  "addVDSOLocation env c processMapping m addr =
     (let functionName = (case vdsoSymbolizer_Resolve env addr processMapping of
                            Inl err \<Rightarrow> ''unknown'' | Inr s \<Rightarrow> s)
      in case vdsoLocationIndex c functionName of
           Some l \<Rightarrow> (l, c)
         | None \<Rightarrow>
             (let (f, c1) = addFunction c functionName;
                  l = \<lparr>Location_ID = of_nat (length (Profile_Location (result c))) + 1,
                       Location_Mapping = m, Location_Address = 0,
                       Location_Line = [\<lparr>Line_Function = f\<rparr>]\<rparr>
              in (l, c1\<lparr>vdsoLocationIndex := (vdsoLocationIndex c1)(functionName \<mapsto> l),
                       result := (result c1)\<lparr>Profile_Location := Profile_Location (result c1) @ [l]\<rparr>\<rparr>)))"

definition addAddrLocationNoNormalization ::
  "Converter \<Rightarrow> Mapping \<Rightarrow> uint64 \<Rightarrow> Location \<times> Converter" where
  "addAddrLocationNoNormalization c m addr =
     (case addrLocationIndex c addr of
        Some l \<Rightarrow> (l, c)
      | None \<Rightarrow>
          (let l = \<lparr>Location_ID = of_nat (length (Profile_Location (result c))) + 1,
                    Location_Mapping = m, Location_Address = addr, Location_Line = []\<rparr>
           in (l, c\<lparr>addrLocationIndex := (addrLocationIndex c)(addr \<mapsto> l),
                    result := (result c)\<lparr>Profile_Location := Profile_Location (result c) @ [l]\<rparr>\<rparr>)))"

definition addAddrLocation ::
  "Collaborators \<Rightarrow> Converter \<Rightarrow> process_Mapping \<Rightarrow> Mapping \<Rightarrow> uint64 \<Rightarrow> Location \<times> Converter" where
  "addAddrLocation env c processMapping m addr =
     (let normalizedAddress = (case addressNormalizer_Normalize env processMapping addr of
                                 Inl err \<Rightarrow> addr | Inr a \<Rightarrow> a)
      in addAddrLocationNoNormalization c m normalizedAddress)"

text \<open>
  \<open>perfMap\<close>: the memo is used when either cached field is non-nil; otherwise the cache
  is asked and both fields are stored.
\<close>

definition perfMap ::
  "Collaborators \<Rightarrow> Converter \<Rightarrow> (perf_Map option \<times> error option) \<times> Converter" where
  "perfMap env c =
     (if cachedPerfMap c \<noteq> None \<or> cachedPerfMapErr c \<noteq> None
      then ((cachedPerfMap c, cachedPerfMapErr c), c)
      else (let (pm, err) = perfMapCache_PerfMapForPID env (pid c)
            in ((pm, err), c\<lparr>cachedPerfMap := pm, cachedPerfMapErr := err\<rparr>)))"

definition addPerfMapLocation ::
  "Collaborators \<Rightarrow> Converter \<Rightarrow> Mapping \<Rightarrow> uint64 \<Rightarrow> Location \<times> Converter" where
  "addPerfMapLocation env c m addr =
     (if disableJITSymbolization c then addAddrLocationNoNormalization c m addr
      else
        (let ((perfMap', err), c0) = perfMap env c
         in case perfMap' of
              None \<Rightarrow> addAddrLocationNoNormalization c0 m addr
            | Some pmap \<Rightarrow>
                (case pmap addr of
                   Inl err \<Rightarrow> addAddrLocationNoNormalization c0 m addr
                 | Inr symbol \<Rightarrow>
                     (case perfmapLocationIndex c0 symbol of
                        Some l \<Rightarrow> (l, c0)
                      | None \<Rightarrow>
                          (let (f, c1) = addFunction c0 symbol;
                               l = \<lparr>Location_ID = of_nat (length (Profile_Location (result c0))) + 1,
                                    Location_Mapping = m, Location_Address = 0,
                                    Location_Line = [\<lparr>Line_Function = f\<rparr>]\<rparr>
                           in (l, c1\<lparr>perfmapLocationIndex := (perfmapLocationIndex c1)(symbol \<mapsto> l),
                                    result := (result c1)\<lparr>Profile_Location :=
                                                Profile_Location (result c1) @ [l]\<rparr>\<rparr>))))))"

text \<open>
  \<open>jitdump\<close>: a Go map read of a missing key gives the zero value (nil) and \<open>false\<close>;
  the memo is used when the path is a key of either map.
\<close>

definition jitdump ::
  "Collaborators \<Rightarrow> Converter \<Rightarrow> string \<Rightarrow> (perf_Map option \<times> error option) \<times> Converter" where
  "jitdump env c path =
     (let jitdump' = (case cachedJitdump c path of Some j \<Rightarrow> j | None \<Rightarrow> None);
          jitdumpExists = (cachedJitdump c path \<noteq> None);
          jitdumpErr = (case cachedJitdumpErr c path of Some e \<Rightarrow> e | None \<Rightarrow> None);
          jitdumpErrExists = (cachedJitdumpErr c path \<noteq> None)
      in if jitdumpExists \<or> jitdumpErrExists then ((jitdump', jitdumpErr), c)
         else (let (jd, err) = jitdumpCache_JitdumpForPID env (pid c) path
               in ((jd, err), c\<lparr>cachedJitdump := (cachedJitdump c)(path \<mapsto> jd),
                                cachedJitdumpErr := (cachedJitdumpErr c)(path \<mapsto> err)\<rparr>)))"

definition addJITDumpLocation ::
  "Collaborators \<Rightarrow> Converter \<Rightarrow> Mapping \<Rightarrow> uint64 \<Rightarrow> string \<Rightarrow> Location \<times> Converter" where
  "addJITDumpLocation env c m addr path =
     (if disableJITSymbolization c then addAddrLocationNoNormalization c m addr
      else
        (let ((jitdump', err), c0) = jitdump env c path
         in case jitdump' of
              None \<Rightarrow> addAddrLocationNoNormalization c0 m addr
            | Some jd \<Rightarrow>
                (case jd addr of
                   Inl err \<Rightarrow> addAddrLocationNoNormalization c0 m addr
                 | Inr symbol \<Rightarrow>
                     (case jitdumpLocationIndex c0 symbol of
                        Some l \<Rightarrow> (l, c0)
                      | None \<Rightarrow>
                          (let (f, c1) = addFunction c0 symbol;
                               l = \<lparr>Location_ID = of_nat (length (Profile_Location (result c0))) + 1,
                                    Location_Mapping = m, Location_Address = 0,
                                    Location_Line = [\<lparr>Line_Function = f\<rparr>]\<rparr>
                           in (l, c1\<lparr>jitdumpLocationIndex := (jitdumpLocationIndex c1)(symbol \<mapsto> l),
                                    result := (result c1)\<lparr>Profile_Location :=
                                                Profile_Location (result c1) @ [l]\<rparr>\<rparr>))))))"

text \<open>\<open>strings.HasSuffix\<close>.\<close>

definition HasSuffix :: "string \<Rightarrow> string \<Rightarrow> bool" where
  "HasSuffix s suffix =
     (length suffix \<le> length s \<and> drop (length s - length suffix) s = suffix)"

text \<open>
  The loop over one kernel stack: every address gives a location, appended to the
  sample's locations.
\<close>

fun kernelStackLoop ::
  "Converter \<Rightarrow> (uint64 \<rightharpoonup> string) \<Rightarrow> Location list \<Rightarrow> uint64 list \<Rightarrow> Location list \<times> Converter" where
  "kernelStackLoop c kernelSymbols locs [] = (locs, c)"
| "kernelStackLoop c kernelSymbols locs (addr # addrs) =
     (let (l, c1) = addKernelLocation c (kernelMapping c) kernelSymbols addr
      in kernelStackLoop c1 kernelSymbols (locs @ [l]) addrs)"

text \<open>
  One user frame. With no mapping for the address the counter is incremented and nothing
  is appended (\<open>continue\<close>). The two slice reads \<open>c.mappings[mappingIndex]\<close> and
  \<open>c.result.Mapping[mappingIndex]\<close> panic when the index is out of range.
\<close>

definition userFrame ::
  "Collaborators \<Rightarrow> Converter \<Rightarrow> Location list \<Rightarrow> uint64 \<Rightarrow> panic + (Location list \<times> Converter)" where
  "userFrame env c locs addr =
     (let mappingIndex = mappingForAddr (Profile_Mapping (result c)) addr
      in if mappingIndex = -1
         then Inr (locs, c\<lparr>frameDrop_mapping_nil := frameDrop_mapping_nil c + 1\<rparr>)
         else if mappingIndex < 0 \<or> \<not> nat mappingIndex < length (mappings c)
                 \<or> \<not> nat mappingIndex < length (Profile_Mapping (result c))
         then Inl IndexOutOfRange
         else
           (let processMapping = mappings c ! nat mappingIndex;
                pprofMapping = Profile_Mapping (result c) ! nat mappingIndex;
                (l, c1) =
                  (if Mapping_File pprofMapping = ''[vdso]''
                   then addVDSOLocation env c processMapping pprofMapping addr
                   else if Mapping_File pprofMapping = ''jit''
                   then addPerfMapLocation env c pprofMapping addr
                   else if HasSuffix (Mapping_File pprofMapping) ''.dump''
                   then addJITDumpLocation env c pprofMapping addr (Mapping_File pprofMapping)
                   else addAddrLocation env c processMapping pprofMapping addr)
            in Inr (locs @ [l], c1)))"

fun userStackLoop ::
  "Collaborators \<Rightarrow> Converter \<Rightarrow> Location list \<Rightarrow> uint64 list \<Rightarrow> panic + (Location list \<times> Converter)" where
  "userStackLoop env c locs [] = Inr (locs, c)"
| "userStackLoop env c locs (addr # addrs) =
     (case userFrame env c locs addr of
        Inl p \<Rightarrow> Inl p
      | Inr (locs1, c1) \<Rightarrow> userStackLoop env c1 locs1 addrs)"

text \<open>One raw sample: kernel frames first, then user frames, then the sample is appended.\<close>

definition convertSample ::
  "Collaborators \<Rightarrow> Converter \<Rightarrow> (uint64 \<rightharpoonup> string) \<Rightarrow> RawSample \<Rightarrow> panic + Converter" where
  "convertSample env c kernelSymbols sample =
     (let (locs1, c1) = kernelStackLoop c kernelSymbols [] (RawSample_KernelStack sample)
      in case userStackLoop env c1 locs1 (RawSample_UserStack sample) of
           Inl p \<Rightarrow> Inl p
         | Inr (locs2, c2) \<Rightarrow>
             (let pprofSample = \<lparr>Sample_Value = [int64_of_uint64 (RawSample_Value sample)],
                                 Sample_Location = locs2\<rparr>
              in Inr (c2\<lparr>result := (result c2)\<lparr>Profile_Sample :=
                                      Profile_Sample (result c2) @ [pprofSample]\<rparr>\<rparr>)))"

fun samplesLoop ::
  "Collaborators \<Rightarrow> Converter \<Rightarrow> (uint64 \<rightharpoonup> string) \<Rightarrow> RawSample list \<Rightarrow> panic + Converter" where
  "samplesLoop env c kernelSymbols [] = Inr c"
| "samplesLoop env c kernelSymbols (sample # rest) =
     (case convertSample env c kernelSymbols sample of
        Inl p \<Rightarrow> Inl p
      | Inr c1 \<Rightarrow> samplesLoop env c1 kernelSymbols rest)"

definition kernelAddresses :: "RawSample list \<Rightarrow> uint64 set" where
  "kernelAddresses rawData = (\<Union>sample \<in> set rawData. set (RawSample_KernelStack sample))"

text \<open>The symbol map \<open>Convert\<close> works with: the resolver's, or the empty map on an error.\<close>

definition resolveKernelSymbols :: "Collaborators \<Rightarrow> RawSample list \<Rightarrow> (uint64 \<rightharpoonup> string)" where
  "resolveKernelSymbols env rawData =
     (case ksym_Resolve env (kernelAddresses rawData) of
        Inl err \<Rightarrow> Map.empty
      | Inr kernelSymbols \<Rightarrow> kernelSymbols)"

text \<open>
  \<open>Convert\<close> returns the pair \<open>(c.result, nil)\<close>; the converter after the call is
  returned with it, since the method writes through its receiver.
\<close>

definition Convert ::
  "Collaborators \<Rightarrow> Converter \<Rightarrow> RawSample list \<Rightarrow> panic + ((Profile \<times> error option) \<times> Converter)" where
  "Convert env c rawData =
     (let kernelSymbols = resolveKernelSymbols env rawData
      in case samplesLoop env c kernelSymbols rawData of
           Inl p \<Rightarrow> Inl p
         | Inr c' \<Rightarrow> Inr ((result c', None), c'))"

section \<open>Notions used to state the properties of a conversion\<close>

text \<open>
  The converter keeps five location indexes. A key names the index and the entry; the
  lookup \<open>locationIndex\<close> reads the five maps as one.
\<close>

datatype key =
  KernelKey string | VDSOKey string | PerfMapKey string | JITDumpKey string | AddrKey uint64

fun locationIndex :: "Converter \<Rightarrow> key \<Rightarrow> Location option" where
  "locationIndex c (KernelKey s) = kernelLocationIndex c s"
| "locationIndex c (VDSOKey s) = vdsoLocationIndex c s"
| "locationIndex c (PerfMapKey s) = perfmapLocationIndex c s"
| "locationIndex c (JITDumpKey s) = jitdumpLocationIndex c s"
| "locationIndex c (AddrKey a) = addrLocationIndex c a"

text \<open>The symbol a kernel address is filed under.\<close>

definition kernelSymbolOf :: "(uint64 \<rightharpoonup> string) \<Rightarrow> uint64 \<Rightarrow> string" where
  "kernelSymbolOf kernelSymbols addr =
     (case kernelSymbols addr of Some s \<Rightarrow> s | None \<Rightarrow> ''not found'')"

text \<open>The names of the functions a location's lines refer to.\<close>

definition lineNames :: "Location \<Rightarrow> string list" where
  "lineNames l = map (\<lambda>ln. Function_Name (Line_Function ln)) (Location_Line l)"

text \<open>The number of frames of a batch of raw samples.\<close>

definition frameCount :: "RawSample list \<Rightarrow> nat" where
  "frameCount rawData =
     sum_list (map (\<lambda>s. length (RawSample_KernelStack s) + length (RawSample_UserStack s)) rawData)"

text \<open>The user-stack addresses of a sample that no mapping of the table holds.\<close>

definition unmapped :: "Mapping list \<Rightarrow> uint64 list \<Rightarrow> uint64 list" where
  "unmapped ms addrs = filter (\<lambda>a. mappingForAddr ms a = -1) addrs"

definition sameConfig :: "Converter \<Rightarrow> Converter \<Rightarrow> bool" where
  "sameConfig c c1 \<longleftrightarrow>
     mappings c1 = mappings c \<and> kernelMapping c1 = kernelMapping c \<and> pid c1 = pid c \<and>
     disableJITSymbolization c1 = disableJITSymbolization c \<and>
     Profile_Mapping (result c1) = Profile_Mapping (result c) \<and>
     Profile_TimeNanos (result c1) = Profile_TimeNanos (result c) \<and>
     Profile_DurationNanos (result c1) = Profile_DurationNanos (result c) \<and>
     Profile_Period (result c1) = Profile_Period (result c) \<and>
     Profile_SampleType (result c1) = Profile_SampleType (result c) \<and>
     Profile_PeriodType (result c1) = Profile_PeriodType (result c)"

definition functionAdded :: "Converter \<Rightarrow> string \<Rightarrow> Function \<Rightarrow> Converter \<Rightarrow> bool" where
  "functionAdded c name fn c1 \<longleftrightarrow>
     (case functionIndex c name of
        Some f0 \<Rightarrow> fn = f0 \<and> functionIndex c1 = functionIndex c \<and>
                  Profile_Function (result c1) = Profile_Function (result c)
      | None \<Rightarrow> fn = \<lparr>Function_ID = of_nat (length (Profile_Function (result c)) + 1),
                       Function_Name = name\<rparr> \<and>
                functionIndex c1 = (functionIndex c)(name \<mapsto> fn) \<and>
                Profile_Function (result c1) = Profile_Function (result c) @ [fn])"

fun keyName :: "key \<Rightarrow> string option" where
  "keyName (KernelKey s) = Some s"
| "keyName (VDSOKey s) = Some s"
| "keyName (PerfMapKey s) = Some s"
| "keyName (JITDumpKey s) = Some s"
| "keyName (AddrKey a) = None"

definition resolved :: "Converter \<Rightarrow> Mapping \<Rightarrow> key \<Rightarrow> Location \<Rightarrow> Converter \<Rightarrow> bool" where
  "resolved c m k l c1 \<longleftrightarrow>
     sameConfig c c1 \<and> frameDrop_mapping_nil c1 = frameDrop_mapping_nil c \<and>
     Profile_Sample (result c1) = Profile_Sample (result c) \<and>
     (case locationIndex c k of
        Some l0 \<Rightarrow> l = l0 \<and> locationIndex c1 = locationIndex c \<and>
                  functionIndex c1 = functionIndex c \<and>
                  Profile_Function (result c1) = Profile_Function (result c) \<and>
                  Profile_Location (result c1) = Profile_Location (result c)
      | None \<Rightarrow> locationIndex c1 = (locationIndex c)(k \<mapsto> l) \<and>
                Profile_Location (result c1) = Profile_Location (result c) @ [l] \<and>
                Location_ID l = of_nat (length (Profile_Location (result c))) + 1 \<and>
                Location_Mapping l = m \<and>
                (case keyName k of
                   None \<Rightarrow> Location_Address l = (case k of AddrKey a \<Rightarrow> a | _ \<Rightarrow> 0) \<and> Location_Line l = [] \<and>
                            functionIndex c1 = functionIndex c \<and>
                            Profile_Function (result c1) = Profile_Function (result c)
                 | Some s \<Rightarrow> Location_Address l = 0 \<and>
                             (\<exists>fn. Location_Line l = [\<lparr>Line_Function = fn\<rparr>] \<and> functionAdded c s fn c1)))"

definition memo_ok :: "Collaborators \<Rightarrow> Converter \<Rightarrow> bool" where
  "memo_ok env c \<longleftrightarrow>
     ((cachedPerfMap c = None \<and> cachedPerfMapErr c = None) \<or>
      (cachedPerfMap c, cachedPerfMapErr c) = perfMapCache_PerfMapForPID env (pid c)) \<and>
     (\<forall>p. (cachedJitdump c p = None \<and> cachedJitdumpErr c p = None) \<or>
          (cachedJitdump c p = Some (fst (jitdumpCache_JitdumpForPID env (pid c) p)) \<and>
           cachedJitdumpErr c p = Some (snd (jitdumpCache_JitdumpForPID env (pid c) p))))"

definition vdsoKey :: "Collaborators \<Rightarrow> process_Mapping \<Rightarrow> uint64 \<Rightarrow> key" where
  "vdsoKey env processMapping addr =
     VDSOKey (case vdsoSymbolizer_Resolve env addr processMapping of
                Inl err \<Rightarrow> ''unknown'' | Inr s \<Rightarrow> s)"

definition nativeKey :: "Collaborators \<Rightarrow> process_Mapping \<Rightarrow> uint64 \<Rightarrow> key" where
  "nativeKey env processMapping addr =
     AddrKey (case addressNormalizer_Normalize env processMapping addr of
                Inl err \<Rightarrow> addr | Inr a \<Rightarrow> a)"

definition jitKey :: "bool \<Rightarrow> perf_Map option \<Rightarrow> (string \<Rightarrow> key) \<Rightarrow> uint64 \<Rightarrow> key" where
  "jitKey disabled pmap mk addr =
     (if disabled then AddrKey addr
      else case pmap of
             None \<Rightarrow> AddrKey addr
           | Some lookup \<Rightarrow> (case lookup addr of Inl err \<Rightarrow> AddrKey addr | Inr symbol \<Rightarrow> mk symbol))"

definition perfMapKey :: "Collaborators \<Rightarrow> Converter \<Rightarrow> uint64 \<Rightarrow> key" where
  "perfMapKey env c addr =
     jitKey (disableJITSymbolization c) (fst (perfMapCache_PerfMapForPID env (pid c))) PerfMapKey addr"

definition jitDumpKey :: "Collaborators \<Rightarrow> Converter \<Rightarrow> uint64 \<Rightarrow> string \<Rightarrow> key" where
  "jitDumpKey env c addr p =
     jitKey (disableJITSymbolization c) (fst (jitdumpCache_JitdumpForPID env (pid c) p)) JITDumpKey addr"

definition userKey :: "Collaborators \<Rightarrow> Converter \<Rightarrow> uint64 \<Rightarrow> key option" where
  "userKey env c addr =
     (let mappingIndex = mappingForAddr (Profile_Mapping (result c)) addr
      in if mappingIndex = -1 then None
         else
           (let processMapping = mappings c ! nat mappingIndex;
                pprofMapping = Profile_Mapping (result c) ! nat mappingIndex
            in Some (if Mapping_File pprofMapping = ''[vdso]'' then vdsoKey env processMapping addr
                     else if Mapping_File pprofMapping = ''jit'' then perfMapKey env c addr
                     else if HasSuffix (Mapping_File pprofMapping) ''.dump''
                     then jitDumpKey env c addr (Mapping_File pprofMapping)
                     else nativeKey env processMapping addr)))"

definition sampleKeys :: "Collaborators \<Rightarrow> Converter \<Rightarrow> (uint64 \<rightharpoonup> string) \<Rightarrow> RawSample \<Rightarrow> key list" where
  "sampleKeys env c kernelSymbols sample =
     map (\<lambda>a. KernelKey (kernelSymbolOf kernelSymbols a)) (RawSample_KernelStack sample) @
     List.map_filter (userKey env c) (RawSample_UserStack sample)"

text \<open>A change of the memo fields alone is invisible to \<open>resolved\<close>.\<close>

definition memoOnly :: "Converter \<Rightarrow> Converter \<Rightarrow> bool" where
  "memoOnly c c0 \<longleftrightarrow>
     sameConfig c c0 \<and> frameDrop_mapping_nil c0 = frameDrop_mapping_nil c \<and>
     result c0 = result c \<and> functionIndex c0 = functionIndex c \<and>
     kernelLocationIndex c0 = kernelLocationIndex c \<and> vdsoLocationIndex c0 = vdsoLocationIndex c \<and>
     perfmapLocationIndex c0 = perfmapLocationIndex c \<and> jitdumpLocationIndex c0 = jitdumpLocationIndex c \<and>
     addrLocationIndex c0 = addrLocationIndex c"

text \<open>The test of \<open>mappingForAddr\<close>: the mapping's range \<open>[start, limit)\<close> holds the address.\<close>

definition inRange :: "Mapping \<Rightarrow> uint64 \<Rightarrow> bool" where
  "inRange m addr \<longleftrightarrow> Mapping_Start m \<le> addr \<and> addr < Mapping_Limit m"

text \<open>The keys of the kernel index.\<close>

fun isKernelKey :: "key \<Rightarrow> bool" where
  "isKernelKey (KernelKey s) = True"
| "isKernelKey (VDSOKey s) = False"
| "isKernelKey (PerfMapKey s) = False"
| "isKernelKey (JITDumpKey s) = False"
| "isKernelKey (AddrKey a) = False"

text \<open>
  What a location filed under a key looks like: a kernel, VDSO or JIT location has one
  line, whose function bears the key's name, and no address; a native location has its
  address and no line. A kernel location refers to the kernel mapping, every other one to
  a mapping that holds some address.
\<close>

definition filed :: "Converter \<Rightarrow> key \<Rightarrow> Location \<Rightarrow> bool" where
  "filed c k l \<longleftrightarrow>
     (case keyName k of
        Some s \<Rightarrow> lineNames l = [s] \<and> Location_Address l = 0
      | None \<Rightarrow> Location_Line l = [] \<and> k = AddrKey (Location_Address l)) \<and>
     (if isKernelKey k then Location_Mapping l = kernelMapping c
      else Mapping_Start (Location_Mapping l) < Mapping_Limit (Location_Mapping l))"

text \<open>
  What \<open>NewConverter\<close> sets up and \<open>Convert\<close> never writes: the mapping table is one
  entry longer than the process mappings, and its last entry is the kernel mapping,
  whose range is empty.
\<close>

definition config_ok :: "Converter \<Rightarrow> bool" where
  "config_ok c \<longleftrightarrow>
     length (Profile_Mapping (result c)) = length (mappings c) + 1 \<and>
     last (Profile_Mapping (result c)) = kernelMapping c \<and>
     Mapping_Start (kernelMapping c) = 0 \<and> Mapping_Limit (kernelMapping c) = 0"

text \<open>
  The tables of the profile: location and function ids count up from 1 (as 64-bit
  words), every location's mapping and every function of a line is in its table, the
  function index maps a name to a function of that name in the table, the locations of
  every sample are in the table, and there are no more functions than locations.
\<close>

definition tables_ok :: "Converter \<Rightarrow> bool" where
  "tables_ok c \<longleftrightarrow>
     map Location_ID (Profile_Location (result c)) =
       map of_nat [1..<Suc (length (Profile_Location (result c)))] \<and>
     map Function_ID (Profile_Function (result c)) =
       map of_nat [1..<Suc (length (Profile_Function (result c)))] \<and>
     (\<forall>l \<in> set (Profile_Location (result c)).
        Location_Mapping l \<in> set (Profile_Mapping (result c)) \<and>
        (\<forall>ln \<in> set (Location_Line l). Line_Function ln \<in> set (Profile_Function (result c)))) \<and>
     (\<forall>name fn. functionIndex c name = Some fn \<longrightarrow>
        fn \<in> set (Profile_Function (result c)) \<and> Function_Name fn = name) \<and>
     (\<forall>s \<in> set (Profile_Sample (result c)).
        set (Sample_Location s) \<subseteq> set (Profile_Location (result c))) \<and>
     length (Profile_Function (result c)) \<le> length (Profile_Location (result c))"

text \<open>
  The location indexes: every entry is in the location table and looks as its key says,
  every location of the table has an entry, and, as long as the table is shorter than
  \<open>2^64\<close> (so that ids have not wrapped around), no location has two keys.
\<close>

definition index_ok :: "Converter \<Rightarrow> bool" where
  "index_ok c \<longleftrightarrow>
     (\<forall>k l. locationIndex c k = Some l \<longrightarrow>
        l \<in> set (Profile_Location (result c)) \<and> filed c k l) \<and>
     (\<forall>l \<in> set (Profile_Location (result c)). \<exists>k. locationIndex c k = Some l) \<and>
     (length (Profile_Location (result c)) < 2 ^ 64 \<longrightarrow>
        (\<forall>k k' l. locationIndex c k = Some l \<longrightarrow> locationIndex c k' = Some l \<longrightarrow> k = k'))"

text \<open>The invariant of a converter between two frames.\<close>

definition converter_ok :: "Collaborators \<Rightarrow> Converter \<Rightarrow> bool" where
  "converter_ok env c \<longleftrightarrow> memo_ok env c \<and> config_ok c \<and> tables_ok c \<and> index_ok c"

text \<open>The memo fields of \<open>perfMap\<close> and \<open>jitdump\<close> are unchanged.\<close>

definition sameMemo :: "Converter \<Rightarrow> Converter \<Rightarrow> bool" where
  "sameMemo c c1 \<longleftrightarrow>
     cachedPerfMap c1 = cachedPerfMap c \<and> cachedPerfMapErr c1 = cachedPerfMapErr c \<and>
     cachedJitdump c1 = cachedJitdump c \<and> cachedJitdumpErr c1 = cachedJitdumpErr c"

text \<open>
  A later state of the same conversion: the configuration is the same, the indexes have
  only gained entries, and the location table has only been appended to.
\<close>

definition advances :: "Converter \<Rightarrow> Converter \<Rightarrow> bool" where
  "advances c c1 \<longleftrightarrow>
     sameConfig c c1 \<and> locationIndex c \<subseteq>\<^sub>m locationIndex c1 \<and>
     (\<exists>xs. Profile_Location (result c1) = Profile_Location (result c) @ xs)"

text \<open>The locations a list of keys is filed under, and the keys of the frames of a stack.\<close>

definition locationsOf :: "Converter \<Rightarrow> key list \<Rightarrow> Location list" where
  "locationsOf c ks = map (\<lambda>k. the (locationIndex c k)) ks"

definition kernelKeys :: "(uint64 \<rightharpoonup> string) \<Rightarrow> uint64 list \<Rightarrow> key list" where
  "kernelKeys kernelSymbols addrs = map (\<lambda>a. KernelKey (kernelSymbolOf kernelSymbols a)) addrs"

definition userKeys :: "Collaborators \<Rightarrow> Converter \<Rightarrow> uint64 list \<Rightarrow> key list" where
  "userKeys env c addrs = List.map_filter (userKey env c) addrs"

text \<open>
  The sample \<open>Convert\<close> emits for a raw sample, read off the final indexes, and the number
  of user frames of a batch that no mapping holds.
\<close>

definition convertedSample ::
  "Collaborators \<Rightarrow> Converter \<Rightarrow> (uint64 \<rightharpoonup> string) \<Rightarrow> Converter \<Rightarrow> RawSample \<Rightarrow> Sample" where
  "convertedSample env c kernelSymbols c' s =
     \<lparr>Sample_Value = [int64_of_uint64 (RawSample_Value s)],
      Sample_Location = locationsOf c' (sampleKeys env c kernelSymbols s)\<rparr>"

definition droppedFrames :: "Converter \<Rightarrow> RawSample list \<Rightarrow> nat" where
  "droppedFrames c rawData =
     sum_list (map (\<lambda>s. length (unmapped (Profile_Mapping (result c)) (RawSample_UserStack s))) rawData)"

text \<open>
  The words of the routing claim: the \<open>i\<close>-th mapping of the table is the first whose range
  \<open>[start, limit)\<close> holds the address.
\<close>

definition routedTo :: "Mapping list \<Rightarrow> uint64 \<Rightarrow> nat \<Rightarrow> bool" where
  "routedTo maps addr i \<longleftrightarrow>
     i < length maps \<and> inRange (maps ! i) addr \<and> (\<forall>j < i. \<not> inRange (maps ! j) addr)"

text \<open>The user-stack addresses of a sample that some mapping of the table holds.\<close>

definition mapped :: "Mapping list \<Rightarrow> uint64 list \<Rightarrow> uint64 list" where
  "mapped ms addrs = filter (\<lambda>a. \<exists>m \<in> set ms. inRange m a) addrs"

text \<open>The user-stack addresses of a batch of raw samples.\<close>

definition userAddresses :: "RawSample list \<Rightarrow> uint64 set" where
  "userAddresses rawData = (\<Union>sample \<in> set rawData. set (RawSample_UserStack sample))"

text \<open>
  The index key of a user frame that is handed the \<open>i\<close>-th process mapping and the \<open>i\<close>-th
  mapping of the profile: the switch on the mapping's file in \<open>Convert\<close>.
\<close>

definition frameKey :: "Collaborators \<Rightarrow> Converter \<Rightarrow> nat \<Rightarrow> uint64 \<Rightarrow> key" where
  "frameKey env c i addr =
     (let processMapping = mappings c ! i;
          pprofMapping = Profile_Mapping (result c) ! i
      in if Mapping_File pprofMapping = ''[vdso]'' then vdsoKey env processMapping addr
         else if Mapping_File pprofMapping = ''jit'' then perfMapKey env c addr
         else if HasSuffix (Mapping_File pprofMapping) ''.dump''
         then jitDumpKey env c addr (Mapping_File pprofMapping)
         else nativeKey env processMapping addr)"

text \<open>
  Every location of a user index was made for a user frame of the addresses \<open>A\<close>, and
  refers to the mapping that frame was routed to.
\<close>

definition routed_ok :: "Collaborators \<Rightarrow> Converter \<Rightarrow> uint64 set \<Rightarrow> bool" where
  "routed_ok env c A \<longleftrightarrow>
     (\<forall>k l. locationIndex c k = Some l \<longrightarrow> \<not> isKernelKey k \<longrightarrow>
        (\<exists>a \<in> A. \<exists>i. routedTo (Profile_Mapping (result c)) a i \<and> frameKey env c i a = k \<and>
                      Location_Mapping l = Profile_Mapping (result c) ! i))"

text \<open>A kernel location for an address: it refers to the kernel mapping and its line
  names the symbol of the address.\<close>

definition isKernelLocationFor ::
  "Converter \<Rightarrow> (uint64 \<rightharpoonup> string) \<Rightarrow> uint64 \<Rightarrow> Location \<Rightarrow> bool" where
  "isKernelLocationFor c kernelSymbols addr l \<longleftrightarrow>
     Location_Mapping l = kernelMapping c \<and> lineNames l = [kernelSymbolOf kernelSymbols addr]"

section \<open>pkg/debuginfo: the manager\<close>

text \<open>
  Modelled from the spec: the caches. \<open>burrow.Cache\<close> and \<open>cache.NewNoopCache\<close> are
  not among the files at hand. The should-initiate cache maps a build id to unit and its
  entries expire after a write TTL; the model covers the time within the TTL, so an entry
  put stays. With caching disabled the manager holds a no-op cache, which never has an
  entry.
\<close>

datatype ('k, 'v) burrow_Cache = NoopCache | BurrowCache "'k \<rightharpoonup> 'v"

fun GetIfPresent :: "('k, 'v) burrow_Cache \<Rightarrow> 'k \<Rightarrow> 'v option" where
  "GetIfPresent NoopCache k = None"
| "GetIfPresent (BurrowCache m) k = m k"

fun Put :: "('k, 'v) burrow_Cache \<Rightarrow> 'k \<Rightarrow> 'v \<Rightarrow> ('k, 'v) burrow_Cache" where
  "Put NoopCache k v = NoopCache"
| "Put (BurrowCache m) k v = BurrowCache (m(k \<mapsto> v))"

text \<open>\<open>objectfile.ObjectFile\<close>, with the pointer to its debug file.\<close>

datatype ObjectFile =
  ObjectFile (Path: string) (BuildID: string) (Modtime: int) (Size: int)
             (DebugFile: "ObjectFile option")

text \<open>An opened ELF file: its section names and what \<open>DynamicSymbols\<close> returns.\<close>

type_synonym elf_Symbol = "string \<times> uint64 \<times> uint64"

datatype elf_File =
  ElfFile (Sections: "string list") (DynamicSymbols: "error + elf_Symbol list")

datatype UploadStrategy =
  UPLOAD_STRATEGY_UNSPECIFIED | UPLOAD_STRATEGY_GRPC | UPLOAD_STRATEGY_SIGNED_URL
  | UPLOAD_STRATEGY_unknown nat

record UploadInstructions =
  UploadId :: string
  UploadStrategy :: UploadStrategy
  SignedUrl :: string

text \<open>
  The requests the manager sends: the three unary calls of the debuginfo service and the
  two ways a body is transferred.
\<close>

datatype request =
  Call_ShouldInitiateUpload string
  | Call_InitiateUpload string string int
  | Call_MarkUploadFinished string string
  | Transfer_GRPC string
  | Transfer_SignedURL string int

definition isTransfer :: "request \<Rightarrow> bool" where
  "isTransfer r = (case r of Transfer_GRPC u \<Rightarrow> True | Transfer_SignedURL u n \<Rightarrow> True | _ \<Rightarrow> False)"

text \<open>
  What the world answers: the debuginfo service, the HTTP client, the file system, the
  finder, the extractor, the object-file pool and the upload semaphore. Each is outside
  the files at hand and is a parameter. The manager is modelled for one caller at a time:
  the single-flight groups then run the function they are given, and the goroutine of
  \<open>Upload\<close> is its body.
\<close>

record World =
  ShouldInitiateUpload :: "string \<Rightarrow> error + bool"
  InitiateUpload :: "string \<Rightarrow> string \<Rightarrow> int \<Rightarrow> error + UploadInstructions"
  MarkUploadFinished :: "string \<Rightarrow> string \<Rightarrow> error option"
  GrpcUploadClient_Upload :: "UploadInstructions \<Rightarrow> error option"
  http_NewRequest :: "string \<Rightarrow> error option"
  http_Do :: "string \<Rightarrow> int \<Rightarrow> error + nat"
  Reader :: "ObjectFile \<Rightarrow> error option"
  hash_Reader :: "ObjectFile \<Rightarrow> error + string"
  ELF :: "ObjectFile \<Rightarrow> error + elf_File"
  Finder_Find :: "string \<Rightarrow> ObjectFile \<Rightarrow> error + string"
  objFilePool_Open :: "string \<Rightarrow> error + ObjectFile"
  objFilePool_NewFile :: "string \<Rightarrow> error + ObjectFile"
  os_MkdirAll :: "string \<Rightarrow> error option"
  os_CreateTemp :: "string \<Rightarrow> string \<Rightarrow> error + string"
  Extractor_Extract :: "string \<Rightarrow> ObjectFile \<Rightarrow> error option"
  f_Seek :: "string \<Rightarrow> error option"
  uploadTaskTokens_Acquire :: "error option"
  metadata_KernelRelease :: "error + string"

text \<open>
  The \<open>Manager\<close> struct: its configuration, its two caches, and (as a record of what it
  did) the requests sent so far. Metrics, tracing spans and log lines are left out.
\<close>

record Manager =
  stripDebuginfos :: bool
  tempDir :: string
  shouldInitiateCache :: "(string, unit) burrow_Cache"
  hashCache :: "(string \<times> int, string) burrow_Cache"
  sent :: "request list"

text \<open>\<open>codes.AlreadyExists\<close> of gRPC.\<close>

definition codes_AlreadyExists :: nat where
  "codes_AlreadyExists = 6"

text \<open>\<open>status.FromError\<close> on a non-nil error: the code of a status error.\<close>

fun status_FromError :: "error \<Rightarrow> nat option" where
  "status_FromError (StatusError code) = Some code"
| "status_FromError (Errorf msg) = None"
| "status_FromError (Wrapped msg err) = None"

definition shouldInitiate :: "World \<Rightarrow> Manager \<Rightarrow> string \<Rightarrow> string \<Rightarrow> bool \<times> Manager" where
  "shouldInitiate w di buildID filepath =
     (case GetIfPresent (shouldInitiateCache di) buildID of
        Some u \<Rightarrow> (False, di)
      | None \<Rightarrow>
          (let di1 = di\<lparr>sent := sent di @ [Call_ShouldInitiateUpload buildID]\<rparr>
           in case ShouldInitiateUpload w buildID of
                Inl err \<Rightarrow> (True, di1)
              | Inr shouldInitiateResp \<Rightarrow>
                  if \<not> shouldInitiateResp
                  then (False, di1\<lparr>shouldInitiateCache := Put (shouldInitiateCache di1) buildID ()\<rparr>)
                  else (True, di1)))"

definition hasTextSection :: "elf_File \<Rightarrow> bool" where
  "hasTextSection ef = (''.text'' \<in> set (Sections ef))"

definition extract' :: "World \<Rightarrow> Manager \<Rightarrow> string \<Rightarrow> ObjectFile \<Rightarrow> error + ObjectFile" where
  "extract' w di buildID src =
     (case os_MkdirAll w (tempDir di) of
        Some err \<Rightarrow> Inl (Wrapped ''failed to create temp dir'' err)
      | None \<Rightarrow>
     (case os_CreateTemp w (tempDir di) buildID of
        Inl err \<Rightarrow> Inl (Wrapped ''failed to create temp file'' err)
      | Inr f \<Rightarrow>
     (case Reader w src of
        Some err \<Rightarrow> Inl (Wrapped ''failed to obtain reader for object file'' err)
      | None \<Rightarrow>
     (case Extractor_Extract w f src of
        Some err \<Rightarrow> Inl (Wrapped ''failed to extract debug information'' err)
      | None \<Rightarrow>
     (case f_Seek w f of
        Some err \<Rightarrow> Inl (Wrapped ''failed to seek to the beginning of the file'' err)
      | None \<Rightarrow>
     (case objFilePool_NewFile w f of
        Inl err \<Rightarrow> Inl (Wrapped ''failed to open debuginfo file'' err)
      | Inr debuginfoFile \<Rightarrow> Inr debuginfoFile))))))"

definition Extract :: "World \<Rightarrow> Manager \<Rightarrow> ObjectFile \<Rightarrow> error + ObjectFile" where
  "Extract w di src =
     (case ELF w src of
        Inl err \<Rightarrow> Inl (Wrapped ''failed to get ELF file'' err)
      | Inr ef \<Rightarrow>
          (let binaryHasTextSection = hasTextSection ef
           in if stripDebuginfos di \<and> binaryHasTextSection
              then extract' w di (BuildID src) src
              else Inr src))"

definition ExtractOrFind :: "World \<Rightarrow> Manager \<Rightarrow> string \<Rightarrow> ObjectFile \<Rightarrow> error + ObjectFile" where
  "ExtractOrFind w di root src =
     (let viaExtract = (case Extract w di src of
                          Inl err \<Rightarrow> Inl (Wrapped ''failed to strip debuginfo'' err)
                        | Inr dbgInfoFile \<Rightarrow> Inr dbgInfoFile)
      in case Finder_Find w root src of
           Inl err \<Rightarrow> viaExtract
         | Inr dbgInfoPath \<Rightarrow>
             if dbgInfoPath \<noteq> []
             then (case objFilePool_Open w dbgInfoPath of
                     Inr dbgInfoFile \<Rightarrow> Inr dbgInfoFile
                   | Inl err \<Rightarrow> viaExtract)
             else viaExtract)"

definition uploadViaSignedURL :: "World \<Rightarrow> Manager \<Rightarrow> string \<Rightarrow> int \<Rightarrow> error option \<times> Manager" where
  "uploadViaSignedURL w di url size' =
     (case http_NewRequest w url of
        Some err \<Rightarrow> (Some (Wrapped ''create request'' err), di)
      | None \<Rightarrow>
          (let di1 = di\<lparr>sent := sent di @ [Transfer_SignedURL url size']\<rparr>
           in case http_Do w url size' of
                Inl err \<Rightarrow> (Some (Wrapped ''do upload request'' err), di1)
              | Inr StatusCode \<Rightarrow>
                  if StatusCode div 100 \<noteq> 2
                  then (Some (Errorf ''unexpected status code''), di1)
                  else (None, di1)))"

definition uploadViaGRPC :: "World \<Rightarrow> Manager \<Rightarrow> UploadInstructions \<Rightarrow> error option \<times> Manager" where
  "uploadViaGRPC w di uploadInstructions =
     (GrpcUploadClient_Upload w uploadInstructions,
      di\<lparr>sent := sent di @ [Transfer_GRPC (UploadId uploadInstructions)]\<rparr>)"

definition uploadFile ::
  "World \<Rightarrow> Manager \<Rightarrow> UploadInstructions \<Rightarrow> int \<Rightarrow> error option \<times> Manager" where
  "uploadFile w di uploadInstructions size' =
     (case UploadStrategy uploadInstructions of
        UPLOAD_STRATEGY_GRPC \<Rightarrow> uploadViaGRPC w di uploadInstructions
      | UPLOAD_STRATEGY_SIGNED_URL \<Rightarrow>
          uploadViaSignedURL w di (SignedUrl uploadInstructions) size'
      | UPLOAD_STRATEGY_UNSPECIFIED \<Rightarrow>
          (Some (Errorf ''upload strategy unspecified, must set one of UPLOAD_STRATEGY_GRPC or UPLOAD_STRATEGY_SIGNED_URL''), di)
      | UPLOAD_STRATEGY_unknown n \<Rightarrow> (Some (Errorf ''unknown upload strategy''), di))"

text \<open>The hash of the debug file: from the hash cache, or computed and then cached.\<close>

definition hashOf :: "World \<Rightarrow> Manager \<Rightarrow> ObjectFile \<Rightarrow> error + (string \<times> Manager)" where
  "hashOf w di dbg =
     (let key = (BuildID dbg, Modtime dbg)
      in case GetIfPresent (hashCache di) key of
           Some v \<Rightarrow> Inr (v, di)
         | None \<Rightarrow>
             (case Reader w dbg of
                Some err \<Rightarrow> Inl (Wrapped ''failed to obtain reader for object file'' err)
              | None \<Rightarrow>
                  (case hash_Reader w dbg of
                     Inl err \<Rightarrow> Inl (Wrapped ''hash debuginfos'' err)
                   | Inr h \<Rightarrow> Inr (h, di\<lparr>hashCache := Put (hashCache di) key h\<rparr>))))"

definition upload :: "World \<Rightarrow> Manager \<Rightarrow> ObjectFile \<Rightarrow> error option \<times> Manager" where
  "upload w di dbg =
     (let buildID = BuildID dbg;
          (shouldInitiateUpload, di1) = shouldInitiate w di buildID (Path dbg)
      in if \<not> shouldInitiateUpload then (None, di1)
         else
           (let size' = Size dbg
            in case hashOf w di1 dbg of
                 Inl err \<Rightarrow> (Some err, di1)
               | Inr (h, di2) \<Rightarrow>
                   (let di3 = di2\<lparr>sent := sent di2 @ [Call_InitiateUpload buildID h size']\<rparr>
                    in case InitiateUpload w buildID h size' of
                         Inl err \<Rightarrow>
                           (if status_FromError err = Some codes_AlreadyExists
                            then (None, di3\<lparr>shouldInitiateCache :=
                                              Put (shouldInitiateCache di3) buildID ()\<rparr>)
                            else (Some (Wrapped ''initiate upload'' err), di3))
                       | Inr UploadInstructions' \<Rightarrow>
                           (case Reader w dbg of
                              Some err \<Rightarrow>
                                (Some (Wrapped ''failed to obtain reader for object file'' err), di3)
                            | None \<Rightarrow>
                                (case uploadFile w di3 UploadInstructions' size' of
                                   (Some err, di4) \<Rightarrow> (Some (Wrapped ''upload debuginfo'' err), di4)
                                 | (None, di4) \<Rightarrow>
                                     (let di5 = di4\<lparr>sent := sent di4 @
                                                  [Call_MarkUploadFinished buildID (UploadId UploadInstructions')]\<rparr>
                                      in case MarkUploadFinished w buildID (UploadId UploadInstructions') of
                                           Some err \<Rightarrow> (Some (Wrapped ''mark upload finished'' err), di5)
                                         | None \<Rightarrow> (None, di5)))))))"

definition Upload :: "World \<Rightarrow> Manager \<Rightarrow> ObjectFile \<Rightarrow> error option \<times> Manager" where
  "Upload w di dbg =
     (case uploadTaskTokens_Acquire w of
        Some err \<Rightarrow> (Some (Wrapped ''failed to acquire upload task token'' err), di)
      | None \<Rightarrow> upload w di dbg)"

text \<open>
  \<open>EnsureUploaded\<close> returns the error; the source object file is returned with it, since
  the method stores the debug file it found in \<open>src.DebugFile\<close>.
\<close>

definition EnsureUploaded ::
  "World \<Rightarrow> Manager \<Rightarrow> string \<Rightarrow> ObjectFile \<Rightarrow> (error option \<times> ObjectFile) \<times> Manager" where
  "EnsureUploaded w di root src =
     (let (shouldInitiateUpload, di1) = shouldInitiate w di (BuildID src) (Path src)
      in if \<not> shouldInitiateUpload then ((None, src), di1)
         else
           (case (case DebugFile src of
                    Some dbg \<Rightarrow> Inr (dbg, src)
                  | None \<Rightarrow>
                      (case ExtractOrFind w di1 root src of
                         Inl err \<Rightarrow> Inl err
                       | Inr dbg \<Rightarrow>
                           Inr (dbg, ObjectFile (Path src) (BuildID src) (Modtime src) (Size src) (Some dbg))))
            of Inl err \<Rightarrow> ((Some err, src), di1)
             | Inr (dbg, src1) \<Rightarrow>
                 (let (err, di2) = Upload w di1 dbg in ((err, src1), di2))))"

section \<open>pkg/vdso: NewCache\<close>

text \<open>\<open>multierr.Append\<close>: nil and an error give the error; errors are collected in order.\<close>

type_synonym multierr = "error list"

record vdso_Cache =
  Cache_searcher :: "elf_Symbol list"
  Cache_f :: string

text \<open>
  The variables of the probing loop: the object file, the collected errors, the last path
  tried, and (as a record of what the loop did) the paths handed to the pool.
\<close>

record probe_state =
  ps_obj :: "ObjectFile option"
  ps_merr :: multierr
  ps_path :: string
  ps_opened :: "string list"

fun probeLoop :: "World \<Rightarrow> string \<Rightarrow> probe_state \<Rightarrow> string list \<Rightarrow> probe_state" where
  "probeLoop w kernelVersion st [] = st"
| "probeLoop w kernelVersion st (vdso # rest) =
     (let path' = ''/usr/lib/modules/'' @ kernelVersion @ ''/vdso/'' @ vdso;
          st1 = st\<lparr>ps_path := path', ps_opened := ps_opened st @ [path']\<rparr>
      in case objFilePool_Open w path' of
           Inl err \<Rightarrow>
             probeLoop w kernelVersion
               (st1\<lparr>ps_obj := None,
                    ps_merr := ps_merr st1 @ [Wrapped (''failed to open elf file: '' @ path' @ '', err'') err]\<rparr>)
               rest
         | Inr obj' \<Rightarrow> st1\<lparr>ps_obj := Some obj'\<rparr>)"

definition probe :: "World \<Rightarrow> string \<Rightarrow> probe_state" where
  "probe w kernelVersion =
     probeLoop w kernelVersion \<lparr>ps_obj = None, ps_merr = [], ps_path = [], ps_opened = []\<rparr>
       [''vdso.so'', ''vdso64.so'']"

definition NewCache :: "World \<Rightarrow> multierr + vdso_Cache" where
  "NewCache w =
     (case metadata_KernelRelease w of
        Inl err \<Rightarrow> Inl [err]
      | Inr kernelVersion \<Rightarrow>
          (let st = probe w kernelVersion
           in case ps_obj st of
                None \<Rightarrow> Inl (ps_merr st)
              | Some obj' \<Rightarrow>
                  (case ELF w obj' of
                     Inl err \<Rightarrow> Inl [Wrapped (''failed to get elf file: '' @ ps_path st @ '', err'') err]
                   | Inr ef \<Rightarrow>
                       (case DynamicSymbols ef of
                          Inl err \<Rightarrow> Inl [err]
                        | Inr syms \<Rightarrow> Inr \<lparr>Cache_searcher = syms, Cache_f = ps_path st\<rparr>))))"

section \<open>Example inputs\<close>

definition exampleWorld :: World where
  "exampleWorld =
     \<lparr>ShouldInitiateUpload =
        (\<lambda>b. if b = ''known'' then Inr False else if b = ''new'' then Inr True
              else Inl (Errorf ''unavailable'')),
      InitiateUpload = (\<lambda>b h n. Inl (StatusError 6)),
      MarkUploadFinished = (\<lambda>b u. None),
      GrpcUploadClient_Upload = (\<lambda>u. None),
      http_NewRequest = (\<lambda>u. None),
      http_Do = (\<lambda>u n. Inr 200),
      Reader = (\<lambda>ob. None),
      hash_Reader = (\<lambda>ob. Inr ''h''),
      ELF = (\<lambda>ob. Inr (ElfFile [''.text''] (Inr []))),
      Finder_Find = (\<lambda>r ob. Inl (Errorf ''not found'')),
      objFilePool_Open =
        (\<lambda>p. if p = ''/usr/lib/modules/6.1/vdso/vdso64.so''
              then Inr (ObjectFile p ''vdso'' 0 0 None)
              else Inl (Errorf ''no such file'')),
      objFilePool_NewFile = (\<lambda>p. Inl (Errorf ''no such file'')),
      os_MkdirAll = (\<lambda>d. None),
      os_CreateTemp = (\<lambda>d b. Inr ''tmp''),
      Extractor_Extract = (\<lambda>t ob. None),
      f_Seek = (\<lambda>t. None),
      uploadTaskTokens_Acquire = None,
      metadata_KernelRelease = Inr ''6.1''\<rparr>"

text \<open>A file system where only \<open>/usr/lib/modules/6.1/vdso.so\<close> can be opened.\<close>

definition flatVdsoWorld :: World where
  "flatVdsoWorld =
     exampleWorld\<lparr>objFilePool_Open :=
        (\<lambda>p. if p = ''/usr/lib/modules/6.1/vdso.so''
              then Inr (ObjectFile p ''vdso'' 0 0 None)
              else Inl (Errorf ''no such file''))\<rparr>"

text \<open>The example world where the kernel release cannot be read.\<close>

definition noReleaseWorld :: World where
  "noReleaseWorld = exampleWorld\<lparr>metadata_KernelRelease := Inl (Errorf ''uname failed'')\<rparr>"

text \<open>The example world where an opened file gives no ELF view.\<close>

definition noElfWorld :: World where
  "noElfWorld = exampleWorld\<lparr>ELF := (\<lambda>ob. Inl (Errorf ''bad ELF magic''))\<rparr>"

definition exampleManager :: Manager where
  "exampleManager =
     \<lparr>stripDebuginfos = False, tempDir = ''/tmp'',
      shouldInitiateCache = BurrowCache Map.empty, hashCache = BurrowCache Map.empty,
      sent = []\<rparr>"

text \<open>
  A process with a native mapping and a VDSO mapping, a resolver that knows one kernel
  address, and a batch of two raw samples; the second sample's value has its top bit set,
  and one user address of the first lies in no mapping.
\<close>

definition exampleCollaborators :: Collaborators where
  "exampleCollaborators =
     \<lparr>ksym_Resolve = (\<lambda>addrs. Inr [0xffffffff81000000 \<mapsto> ''do_syscall_64'']),
      vdsoSymbolizer_Resolve = (\<lambda>addr m. Inr ''__vdso_clock_gettime''),
      addressNormalizer_Normalize = (\<lambda>m addr. Inr (addr - pm_Start m + pm_Offset m)),
      perfMapCache_PerfMapForPID = (\<lambda>p. (None, None)),
      jitdumpCache_JitdumpForPID = (\<lambda>p f. (None, None))\<rparr>"

definition exampleMappings :: "process_Mapping list" where
  "exampleMappings =
     [\<lparr>pm_Start = 0x400000, pm_Limit = 0x500000, pm_Offset = 0, pm_File = ''/bin/app'',
       pm_BuildID = ''b1''\<rparr>,
      \<lparr>pm_Start = 0x7f0000000000, pm_Limit = 0x7f0000100000, pm_Offset = 0, pm_File = ''[vdso]'',
       pm_BuildID = ''''\<rparr>]"

definition exampleRawData :: "RawSample list" where
  "exampleRawData =
     [\<lparr>RawSample_Value = 1, RawSample_UserStack = [0x401000, 0xdeadbeef],
       RawSample_KernelStack = [0xffffffff81000000]\<rparr>,
      \<lparr>RawSample_Value = 0x8000000000000005, RawSample_UserStack = [0x7f0000000010, 0x401000],
       RawSample_KernelStack = [0xffffffff81000000, 0xffffffff81000010]\<rparr>]"

definition exampleConverter :: Converter where
  "exampleConverter = NewConverter 7 False 42 exampleMappings 1000 1005 10000000"

text \<open>The profile \<open>Convert\<close> returns for the example batch.\<close>

definition exampleAppMapping :: Mapping where
  "exampleAppMapping =
     \<lparr>Mapping_ID = 1, Mapping_Start = 0x400000, Mapping_Limit = 0x500000, Mapping_Offset = 0,
      Mapping_File = ''/bin/app'', Mapping_BuildID = ''b1''\<rparr>"

definition exampleVdsoMapping :: Mapping where
  "exampleVdsoMapping =
     \<lparr>Mapping_ID = 2, Mapping_Start = 0x7f0000000000, Mapping_Limit = 0x7f0000100000,
      Mapping_Offset = 0, Mapping_File = ''[vdso]'', Mapping_BuildID = ''''\<rparr>"

definition exampleKernelMapping :: Mapping where
  "exampleKernelMapping =
     \<lparr>Mapping_ID = 3, Mapping_Start = 0, Mapping_Limit = 0, Mapping_Offset = 0,
      Mapping_File = ''[kernel.kallsyms]'', Mapping_BuildID = ''''\<rparr>"

definition exampleFunctions :: "Function list" where
  "exampleFunctions =
     [\<lparr>Function_ID = 1, Function_Name = ''do_syscall_64''\<rparr>,
      \<lparr>Function_ID = 2, Function_Name = ''not found''\<rparr>,
      \<lparr>Function_ID = 3, Function_Name = ''__vdso_clock_gettime''\<rparr>]"

definition exampleLocations :: "Location list" where
  "exampleLocations =
     [\<lparr>Location_ID = 1, Location_Mapping = exampleKernelMapping, Location_Address = 0,
       Location_Line = [\<lparr>Line_Function = exampleFunctions ! 0\<rparr>]\<rparr>,
      \<lparr>Location_ID = 2, Location_Mapping = exampleAppMapping, Location_Address = 0x1000,
       Location_Line = []\<rparr>,
      \<lparr>Location_ID = 3, Location_Mapping = exampleKernelMapping, Location_Address = 0,
       Location_Line = [\<lparr>Line_Function = exampleFunctions ! 1\<rparr>]\<rparr>,
      \<lparr>Location_ID = 4, Location_Mapping = exampleVdsoMapping, Location_Address = 0,
       Location_Line = [\<lparr>Line_Function = exampleFunctions ! 2\<rparr>]\<rparr>]"

definition exampleProfile :: Profile where
  "exampleProfile =
     \<lparr>Profile_TimeNanos = 1000, Profile_DurationNanos = 5, Profile_Period = 10000000,
      Profile_SampleType = [\<lparr>ValueType_Type = ''samples'', ValueType_Unit = ''count''\<rparr>],
      Profile_PeriodType = \<lparr>ValueType_Type = ''cpu'', ValueType_Unit = ''nanoseconds''\<rparr>,
      Profile_Mapping = [exampleAppMapping, exampleVdsoMapping, exampleKernelMapping],
      Profile_Location = exampleLocations,
      Profile_Function = exampleFunctions,
      Profile_Sample =
        [\<lparr>Sample_Value = [1],
          Sample_Location = [exampleLocations ! 0, exampleLocations ! 1]\<rparr>,
         \<lparr>Sample_Value = [0x8000000000000005],
          Sample_Location = [exampleLocations ! 0, exampleLocations ! 2, exampleLocations ! 3,
                             exampleLocations ! 1]\<rparr>]\<rparr>"


text \<open>A debug file whose build id the example backend wants uploaded.\<close>

definition exampleDebugFile :: ObjectFile where
  "exampleDebugFile = ObjectFile ''/usr/lib/debug/app.debug'' ''new'' 0 4096 None"

text \<open>
  A process whose two mappings overlap, and a sample with one user address that both
  hold and one that neither holds.
\<close>

definition overlapMappings :: "process_Mapping list" where
  "overlapMappings =
     [\<lparr>pm_Start = 0x1000, pm_Limit = 0x3000, pm_Offset = 0, pm_File = ''/bin/a'',
       pm_BuildID = ''a''\<rparr>,
      \<lparr>pm_Start = 0x2000, pm_Limit = 0x4000, pm_Offset = 0, pm_File = ''/bin/b'',
       pm_BuildID = ''b''\<rparr>]"

definition overlapRawData :: "RawSample list" where
  "overlapRawData =
     [\<lparr>RawSample_Value = 1, RawSample_UserStack = [0x2800, 0x5000], RawSample_KernelStack = []\<rparr>]"

definition overlapTable :: "Mapping list" where
  "overlapTable =
     [\<lparr>Mapping_ID = 1, Mapping_Start = 0x1000, Mapping_Limit = 0x3000, Mapping_Offset = 0,
       Mapping_File = ''/bin/a'', Mapping_BuildID = ''a''\<rparr>,
      \<lparr>Mapping_ID = 2, Mapping_Start = 0x2000, Mapping_Limit = 0x4000, Mapping_Offset = 0,
       Mapping_File = ''/bin/b'', Mapping_BuildID = ''b''\<rparr>,
      \<lparr>Mapping_ID = 3, Mapping_Start = 0, Mapping_Limit = 0, Mapping_Offset = 0,
       Mapping_File = ''[kernel.kallsyms]'', Mapping_BuildID = []\<rparr>]"

text \<open>
  A process with a perf-map region and a jitdump file whose symbol tables both name a
  function \<open>foo\<close>, and a sample with one user frame in each.
\<close>

definition jitCollaborators :: Collaborators where
  "jitCollaborators =
     exampleCollaborators\<lparr>
       perfMapCache_PerfMapForPID := (\<lambda>p. (Some (\<lambda>addr. Inr ''foo''), None)),
       jitdumpCache_JitdumpForPID := (\<lambda>p f. (Some (\<lambda>addr. Inr ''foo''), None))\<rparr>"

definition jitMappings :: "process_Mapping list" where
  "jitMappings =
     [\<lparr>pm_Start = 0x1000, pm_Limit = 0x2000, pm_Offset = 0, pm_File = ''jit'', pm_BuildID = ''''\<rparr>,
      \<lparr>pm_Start = 0x3000, pm_Limit = 0x4000, pm_Offset = 0, pm_File = ''/tmp/jit-42.dump'',
       pm_BuildID = ''''\<rparr>]"

definition jitRawData :: "RawSample list" where
  "jitRawData =
     [\<lparr>RawSample_Value = 1, RawSample_UserStack = [0x1800, 0x3800], RawSample_KernelStack = []\<rparr>]"

definition jitConverter :: Converter where
  "jitConverter = NewConverter 0 False 42 jitMappings 1000 1005 10000000"

section \<open>The steps of a conversion\<close>

lemma sameConfig_refl: "sameConfig c c"
  by (simp add: sameConfig_def)

lemma sameConfig_trans: "sameConfig a b \<Longrightarrow> sameConfig b c \<Longrightarrow> sameConfig a c"
  by (simp add: sameConfig_def)

lemma locationIndex_cong:
  "kernelLocationIndex c1 = kernelLocationIndex c \<Longrightarrow> vdsoLocationIndex c1 = vdsoLocationIndex c \<Longrightarrow>
   perfmapLocationIndex c1 = perfmapLocationIndex c \<Longrightarrow> jitdumpLocationIndex c1 = jitdumpLocationIndex c \<Longrightarrow>
   addrLocationIndex c1 = addrLocationIndex c \<Longrightarrow> locationIndex c1 = locationIndex c"
proof (rule ext)
  fix k assume "kernelLocationIndex c1 = kernelLocationIndex c" "vdsoLocationIndex c1 = vdsoLocationIndex c"
   "perfmapLocationIndex c1 = perfmapLocationIndex c" "jitdumpLocationIndex c1 = jitdumpLocationIndex c"
   "addrLocationIndex c1 = addrLocationIndex c"
  then show "locationIndex c1 k = locationIndex c k" by (cases k) auto
qed

lemma locationIndex_kernel_upd:
  "kernelLocationIndex c1 = (kernelLocationIndex c)(s \<mapsto> l) \<Longrightarrow> vdsoLocationIndex c1 = vdsoLocationIndex c \<Longrightarrow>
   perfmapLocationIndex c1 = perfmapLocationIndex c \<Longrightarrow> jitdumpLocationIndex c1 = jitdumpLocationIndex c \<Longrightarrow>
   addrLocationIndex c1 = addrLocationIndex c \<Longrightarrow> locationIndex c1 = (locationIndex c)(KernelKey s \<mapsto> l)"
proof (rule ext)
  fix k assume "kernelLocationIndex c1 = (kernelLocationIndex c)(s \<mapsto> l)" "vdsoLocationIndex c1 = vdsoLocationIndex c"
   "perfmapLocationIndex c1 = perfmapLocationIndex c" "jitdumpLocationIndex c1 = jitdumpLocationIndex c"
   "addrLocationIndex c1 = addrLocationIndex c"
  then show "locationIndex c1 k = ((locationIndex c)(KernelKey s \<mapsto> l)) k" by (cases k) auto
qed

lemma locationIndex_vdso_upd:
  "vdsoLocationIndex c1 = (vdsoLocationIndex c)(s \<mapsto> l) \<Longrightarrow> kernelLocationIndex c1 = kernelLocationIndex c \<Longrightarrow>
   perfmapLocationIndex c1 = perfmapLocationIndex c \<Longrightarrow> jitdumpLocationIndex c1 = jitdumpLocationIndex c \<Longrightarrow>
   addrLocationIndex c1 = addrLocationIndex c \<Longrightarrow> locationIndex c1 = (locationIndex c)(VDSOKey s \<mapsto> l)"
proof (rule ext)
  fix k assume "vdsoLocationIndex c1 = (vdsoLocationIndex c)(s \<mapsto> l)" "kernelLocationIndex c1 = kernelLocationIndex c"
   "perfmapLocationIndex c1 = perfmapLocationIndex c" "jitdumpLocationIndex c1 = jitdumpLocationIndex c"
   "addrLocationIndex c1 = addrLocationIndex c"
  then show "locationIndex c1 k = ((locationIndex c)(VDSOKey s \<mapsto> l)) k" by (cases k) auto
qed

lemma locationIndex_perfmap_upd:
  "perfmapLocationIndex c1 = (perfmapLocationIndex c)(s \<mapsto> l) \<Longrightarrow> kernelLocationIndex c1 = kernelLocationIndex c \<Longrightarrow>
   vdsoLocationIndex c1 = vdsoLocationIndex c \<Longrightarrow> jitdumpLocationIndex c1 = jitdumpLocationIndex c \<Longrightarrow>
   addrLocationIndex c1 = addrLocationIndex c \<Longrightarrow> locationIndex c1 = (locationIndex c)(PerfMapKey s \<mapsto> l)"
proof (rule ext)
  fix k assume "perfmapLocationIndex c1 = (perfmapLocationIndex c)(s \<mapsto> l)" "kernelLocationIndex c1 = kernelLocationIndex c"
   "vdsoLocationIndex c1 = vdsoLocationIndex c" "jitdumpLocationIndex c1 = jitdumpLocationIndex c"
   "addrLocationIndex c1 = addrLocationIndex c"
  then show "locationIndex c1 k = ((locationIndex c)(PerfMapKey s \<mapsto> l)) k" by (cases k) auto
qed

lemma locationIndex_jitdump_upd:
  "jitdumpLocationIndex c1 = (jitdumpLocationIndex c)(s \<mapsto> l) \<Longrightarrow> kernelLocationIndex c1 = kernelLocationIndex c \<Longrightarrow>
   vdsoLocationIndex c1 = vdsoLocationIndex c \<Longrightarrow> perfmapLocationIndex c1 = perfmapLocationIndex c \<Longrightarrow>
   addrLocationIndex c1 = addrLocationIndex c \<Longrightarrow> locationIndex c1 = (locationIndex c)(JITDumpKey s \<mapsto> l)"
proof (rule ext)
  fix k assume "jitdumpLocationIndex c1 = (jitdumpLocationIndex c)(s \<mapsto> l)" "kernelLocationIndex c1 = kernelLocationIndex c"
   "vdsoLocationIndex c1 = vdsoLocationIndex c" "perfmapLocationIndex c1 = perfmapLocationIndex c"
   "addrLocationIndex c1 = addrLocationIndex c"
  then show "locationIndex c1 k = ((locationIndex c)(JITDumpKey s \<mapsto> l)) k" by (cases k) auto
qed

lemma locationIndex_addr_upd:
  "addrLocationIndex c1 = (addrLocationIndex c)(a \<mapsto> l) \<Longrightarrow> kernelLocationIndex c1 = kernelLocationIndex c \<Longrightarrow>
   vdsoLocationIndex c1 = vdsoLocationIndex c \<Longrightarrow> perfmapLocationIndex c1 = perfmapLocationIndex c \<Longrightarrow>
   jitdumpLocationIndex c1 = jitdumpLocationIndex c \<Longrightarrow> locationIndex c1 = (locationIndex c)(AddrKey a \<mapsto> l)"
proof (rule ext)
  fix k assume "addrLocationIndex c1 = (addrLocationIndex c)(a \<mapsto> l)" "kernelLocationIndex c1 = kernelLocationIndex c"
   "vdsoLocationIndex c1 = vdsoLocationIndex c" "perfmapLocationIndex c1 = perfmapLocationIndex c"
   "jitdumpLocationIndex c1 = jitdumpLocationIndex c"
  then show "locationIndex c1 k = ((locationIndex c)(AddrKey a \<mapsto> l)) k" by (cases k) auto
qed

lemma addFunction_functionAdded:
  "addFunction c name = (fn, c1) \<Longrightarrow> functionAdded c name fn c1"
  by (auto simp: addFunction_def functionAdded_def Let_def split: option.splits)

lemma addFunction_frame:
  "addFunction c name = (fn, c1) \<Longrightarrow>
     sameConfig c c1 \<and> frameDrop_mapping_nil c1 = frameDrop_mapping_nil c \<and>
     Profile_Sample (result c1) = Profile_Sample (result c) \<and>
     Profile_Location (result c1) = Profile_Location (result c) \<and>
     kernelLocationIndex c1 = kernelLocationIndex c \<and> vdsoLocationIndex c1 = vdsoLocationIndex c \<and>
     perfmapLocationIndex c1 = perfmapLocationIndex c \<and> jitdumpLocationIndex c1 = jitdumpLocationIndex c \<and>
     addrLocationIndex c1 = addrLocationIndex c \<and>
     cachedPerfMap c1 = cachedPerfMap c \<and> cachedPerfMapErr c1 = cachedPerfMapErr c \<and>
     cachedJitdump c1 = cachedJitdump c \<and> cachedJitdumpErr c1 = cachedJitdumpErr c"
  by (auto simp: addFunction_def sameConfig_def Let_def split: option.splits)

text \<open>The shape shared by the four functions that file a location under a name.\<close>

lemma named_location_resolved:
  assumes af: "addFunction c s = (fn, cf)"
    and miss: "locationIndex c k = None"
    and kn: "keyName k = Some s"
    and l: "l = \<lparr>Location_ID = of_nat (length (Profile_Location (result c))) + 1,
                 Location_Mapping = m, Location_Address = 0,
                 Location_Line = [\<lparr>Line_Function = fn\<rparr>]\<rparr>"
    and idx: "locationIndex c1 = (locationIndex c)(k \<mapsto> l)"
    and rest: "sameConfig cf c1" "frameDrop_mapping_nil c1 = frameDrop_mapping_nil cf"
      "Profile_Sample (result c1) = Profile_Sample (result cf)"
      "Profile_Function (result c1) = Profile_Function (result cf)"
      "functionIndex c1 = functionIndex cf"
      "Profile_Location (result c1) = Profile_Location (result cf) @ [l]"
  shows "resolved c m k l c1"
proof -
  note fr = addFunction_frame[OF af] and fa = addFunction_functionAdded[OF af]
  have fa1: "functionAdded c s fn c1"
    using fa rest by (simp add: functionAdded_def split: option.splits)
  have sc: "sameConfig c c1" using fr rest(1) sameConfig_trans by blast
  show ?thesis
    unfolding resolved_def using miss kn fr fa1 idx rest sc
    by (simp add: l)
qed

lemma addKernelLocation_resolved:
  assumes "addKernelLocation c m kernelSymbols addr = (l, c1)"
  shows "resolved c m (KernelKey (kernelSymbolOf kernelSymbols addr)) l c1"
proof (cases "kernelLocationIndex c (kernelSymbolOf kernelSymbols addr)")
  case (Some l0)
  with assms show ?thesis
    by (auto simp: addKernelLocation_def resolved_def kernelSymbolOf_def sameConfig_def Let_def)
next
  case None
  obtain fn cf where af: "addFunction c (kernelSymbolOf kernelSymbols addr) = (fn, cf)"
    by (cases "addFunction c (kernelSymbolOf kernelSymbols addr)")
  note fr = addFunction_frame[OF af]
  from assms None af have l: "l = \<lparr>Location_ID = of_nat (length (Profile_Location (result c))) + 1,
                       Location_Mapping = m, Location_Address = 0,
                       Location_Line = [\<lparr>Line_Function = fn\<rparr>]\<rparr>"
    and c1: "c1 = cf\<lparr>kernelLocationIndex := (kernelLocationIndex cf)(kernelSymbolOf kernelSymbols addr \<mapsto> l),
                       result := (result cf)\<lparr>Profile_Location := Profile_Location (result cf) @ [l]\<rparr>\<rparr>"
    by (auto simp: addKernelLocation_def kernelSymbolOf_def Let_def)
  have li: "locationIndex c1 = (locationIndex c)(KernelKey (kernelSymbolOf kernelSymbols addr) \<mapsto> l)"
    by (rule locationIndex_kernel_upd) (use fr in \<open>simp_all add: c1\<close>)
  show ?thesis
    by (rule named_location_resolved[OF af _ _ l li]) (use None in \<open>simp_all add: c1 sameConfig_def\<close>)
qed

lemma addVDSOLocation_resolved:
  assumes "addVDSOLocation env c pm m addr = (l, c1)"
  shows "resolved c m (vdsoKey env pm addr) l c1"
proof -
  define s where "s = (case vdsoSymbolizer_Resolve env addr pm of Inl err \<Rightarrow> ''unknown'' | Inr s \<Rightarrow> s)"
  have k: "vdsoKey env pm addr = VDSOKey s" by (simp add: vdsoKey_def s_def)
  show ?thesis
  proof (cases "vdsoLocationIndex c s")
    case (Some l0)
    with assms show ?thesis
      by (auto simp: addVDSOLocation_def resolved_def k s_def sameConfig_def Let_def)
  next
    case None
    obtain fn cf where af: "addFunction c s = (fn, cf)"
      by (cases "addFunction c s")
    note fr = addFunction_frame[OF af]
    from assms None af have l: "l = \<lparr>Location_ID = of_nat (length (Profile_Location (result c))) + 1,
                       Location_Mapping = m, Location_Address = 0,
                       Location_Line = [\<lparr>Line_Function = fn\<rparr>]\<rparr>"
      and c1: "c1 = cf\<lparr>vdsoLocationIndex := (vdsoLocationIndex cf)(s \<mapsto> l),
                       result := (result cf)\<lparr>Profile_Location := Profile_Location (result cf) @ [l]\<rparr>\<rparr>"
      by (auto simp: addVDSOLocation_def s_def Let_def)
    have li: "locationIndex c1 = (locationIndex c)(VDSOKey s \<mapsto> l)"
      by (rule locationIndex_vdso_upd) (use fr in \<open>simp_all add: c1\<close>)
    show ?thesis unfolding k
      by (rule named_location_resolved[OF af _ _ l li]) (use None in \<open>simp_all add: c1 sameConfig_def\<close>)
  qed
qed

lemma addAddrLocationNoNormalization_resolved:
  assumes "addAddrLocationNoNormalization c m addr = (l, c1)"
  shows "resolved c m (AddrKey addr) l c1"
proof (cases "addrLocationIndex c addr")
  case (Some l0)
  with assms show ?thesis
    by (auto simp: addAddrLocationNoNormalization_def resolved_def sameConfig_def)
next
  case None
  from assms None have l: "l = \<lparr>Location_ID = of_nat (length (Profile_Location (result c))) + 1,
                    Location_Mapping = m, Location_Address = addr, Location_Line = []\<rparr>"
    and c1: "c1 = c\<lparr>addrLocationIndex := (addrLocationIndex c)(addr \<mapsto> l),
                    result := (result c)\<lparr>Profile_Location := Profile_Location (result c) @ [l]\<rparr>\<rparr>"
    by (auto simp: addAddrLocationNoNormalization_def Let_def)
  have li: "locationIndex c1 = (locationIndex c)(AddrKey addr \<mapsto> l)"
    by (rule locationIndex_addr_upd) (simp_all add: c1)
  show ?thesis
    unfolding resolved_def using None li
    by (simp add: c1 l sameConfig_def)
qed

lemma addAddrLocation_resolved:
  assumes "addAddrLocation env c pm m addr = (l, c1)"
  shows "resolved c m (nativeKey env pm addr) l c1"
  using assms unfolding addAddrLocation_def nativeKey_def Let_def
  by (rule addAddrLocationNoNormalization_resolved)

lemma memoOnly_locationIndex: "memoOnly c c0 \<Longrightarrow> locationIndex c0 = locationIndex c"
  by (rule locationIndex_cong) (simp_all add: memoOnly_def)

lemma memoOnly_resolved:
  assumes mo: "memoOnly c c0" and r: "resolved c0 m k l c1"
  shows "resolved c m k l c1"
proof -
  have li: "locationIndex c0 = locationIndex c" by (rule memoOnly_locationIndex[OF mo])
  have fa: "\<And>s fn. functionAdded c0 s fn c1 = functionAdded c s fn c1"
    using mo by (auto simp: functionAdded_def memoOnly_def split: option.splits)
  have "resolved c0 m k l c1 = resolved c m k l c1"
    unfolding resolved_def li fa using mo
    by (simp add: memoOnly_def sameConfig_def cong: option.case_cong)
  with r show ?thesis by simp
qed

lemma perfMap_memo:
  assumes "memo_ok env c" and "perfMap env c = (r, c0)"
  shows "r = perfMapCache_PerfMapForPID env (pid c) \<and> memo_ok env c0 \<and> memoOnly c c0"
  using assms
  by (auto simp: perfMap_def memo_ok_def memoOnly_def sameConfig_def split: if_splits prod.splits)

lemma jitdump_memo:
  assumes "memo_ok env c" and "jitdump env c p = (r, c0)"
  shows "r = jitdumpCache_JitdumpForPID env (pid c) p \<and> memo_ok env c0 \<and> memoOnly c c0"
proof -
  from assms(1) have p: "(cachedJitdump c p = None \<and> cachedJitdumpErr c p = None) \<or>
          (cachedJitdump c p = Some (fst (jitdumpCache_JitdumpForPID env (pid c) p)) \<and>
           cachedJitdumpErr c p = Some (snd (jitdumpCache_JitdumpForPID env (pid c) p)))"
    by (simp add: memo_ok_def)
  then show ?thesis
  proof
    assume miss: "cachedJitdump c p = None \<and> cachedJitdumpErr c p = None"
    obtain jd err where J: "jitdumpCache_JitdumpForPID env (pid c) p = (jd, err)"
      by (cases "jitdumpCache_JitdumpForPID env (pid c) p")
    from miss assms(2) J have c0: "c0 = c\<lparr>cachedJitdump := (cachedJitdump c)(p \<mapsto> jd),
                                cachedJitdumpErr := (cachedJitdumpErr c)(p \<mapsto> err)\<rparr>"
      and r: "r = (jd, err)"
      by (auto simp: jitdump_def Let_def)
    have "memo_ok env c0" using assms(1) J by (auto simp: memo_ok_def c0)
    moreover have "memoOnly c c0" by (simp add: memoOnly_def c0 sameConfig_def)
    ultimately show ?thesis using r J by simp
  next
    assume hit: "cachedJitdump c p = Some (fst (jitdumpCache_JitdumpForPID env (pid c) p)) \<and>
           cachedJitdumpErr c p = Some (snd (jitdumpCache_JitdumpForPID env (pid c) p))"
    with assms(2) have "c0 = c" and "r = jitdumpCache_JitdumpForPID env (pid c) p"
      by (auto simp: jitdump_def Let_def)
    then show ?thesis using assms(1) by (simp add: memoOnly_def sameConfig_def)
  qed
qed

lemma resolved_sameConfig: "resolved c m k l c1 \<Longrightarrow> sameConfig c c1"
  by (simp add: resolved_def)

lemma resolved_frame:
  "resolved c m k l c1 \<Longrightarrow>
     frameDrop_mapping_nil c1 = frameDrop_mapping_nil c \<and>
     Profile_Sample (result c1) = Profile_Sample (result c)"
  by (simp add: resolved_def)

lemma resolved_index: "resolved c m k l c1 \<Longrightarrow> locationIndex c1 k = Some l"
  by (cases "locationIndex c k") (auto simp: resolved_def)

lemma resolved_map_le: "resolved c m k l c1 \<Longrightarrow> locationIndex c \<subseteq>\<^sub>m locationIndex c1"
  by (cases "locationIndex c k") (auto simp: resolved_def map_le_def)

lemma resolved_locations:
  "resolved c m k l c1 \<Longrightarrow>
     Profile_Location (result c1) =
       Profile_Location (result c) @ (if locationIndex c k = None then [l] else [])"
  by (cases "locationIndex c k") (auto simp: resolved_def)

lemma functionAdded_functions:
  "functionAdded c s fn c1 \<Longrightarrow>
     Profile_Function (result c1) =
       Profile_Function (result c) @ (if functionIndex c s = None then [fn] else [])"
  by (cases "functionIndex c s") (auto simp: functionAdded_def)

lemma resolved_functions:
  "resolved c m k l c1 \<Longrightarrow>
     \<exists>fs. Profile_Function (result c1) = Profile_Function (result c) @ fs \<and>
          length fs \<le> length (Profile_Location (result c1)) - length (Profile_Location (result c))"
proof (cases "locationIndex c k")
  case (Some l0)
  assume "resolved c m k l c1"
  with Some show ?thesis by (simp add: resolved_def)
next
  case None
  assume r: "resolved c m k l c1"
  show ?thesis
  proof (cases "keyName k")
    case N: None
    with r None show ?thesis by (simp add: resolved_def)
  next
    case (Some s)
    with r None obtain fn where "functionAdded c s fn c1"
      and "Profile_Location (result c1) = Profile_Location (result c) @ [l]"
      by (auto simp: resolved_def)
    then show ?thesis using functionAdded_functions[of c s fn c1] by simp
  qed
qed

lemma dense_snoc:
  fixes g :: "'a \<Rightarrow> uint64"
  assumes "map g xs = map of_nat [1..<Suc (length xs)]" and "g x = of_nat (length xs) + 1"
  shows "map g (xs @ [x]) = map of_nat [1..<Suc (length (xs @ [x]))]"
  using assms by simp

lemma tables_ok_functionAdded:
  assumes t: "tables_ok c" and fa: "functionAdded c s fn c1"
  shows "map Function_ID (Profile_Function (result c1)) =
           map of_nat [1..<Suc (length (Profile_Function (result c1)))]"
    and "set (Profile_Function (result c)) \<subseteq> set (Profile_Function (result c1))"
    and "fn \<in> set (Profile_Function (result c1))"
    and "Function_Name fn = s"
    and "\<forall>name f'. functionIndex c1 name = Some f' \<longrightarrow>
           f' \<in> set (Profile_Function (result c1)) \<and> Function_Name f' = name"
    and "length (Profile_Function (result c1)) \<le> Suc (length (Profile_Function (result c)))"
proof -
  from t have ids: "map Function_ID (Profile_Function (result c)) =
       map of_nat [1..<Suc (length (Profile_Function (result c)))]"
    and fi: "\<And>name f'. functionIndex c name = Some f' \<Longrightarrow>
        f' \<in> set (Profile_Function (result c)) \<and> Function_Name f' = name"
    by (simp_all add: tables_ok_def)
  show "map Function_ID (Profile_Function (result c1)) =
           map of_nat [1..<Suc (length (Profile_Function (result c1)))]"
    using fa ids by (cases "functionIndex c s") (auto simp: functionAdded_def)
  show "set (Profile_Function (result c)) \<subseteq> set (Profile_Function (result c1))"
    using fa by (cases "functionIndex c s") (auto simp: functionAdded_def)
  show "fn \<in> set (Profile_Function (result c1))"
    using fa fi by (cases "functionIndex c s") (auto simp: functionAdded_def)
  show "Function_Name fn = s"
    using fa fi by (cases "functionIndex c s") (auto simp: functionAdded_def)
  show "\<forall>name f'. functionIndex c1 name = Some f' \<longrightarrow>
           f' \<in> set (Profile_Function (result c1)) \<and> Function_Name f' = name"
    using fa fi by (cases "functionIndex c s") (auto simp: functionAdded_def split: if_splits)
  show "length (Profile_Function (result c1)) \<le> Suc (length (Profile_Function (result c)))"
    using fa by (cases "functionIndex c s") (auto simp: functionAdded_def)
qed

lemma resolved_tables_ok:
  assumes t: "tables_ok c" and r: "resolved c m k l c1"
    and m: "m \<in> set (Profile_Mapping (result c))"
  shows "tables_ok c1"
proof (cases "locationIndex c k")
  case (Some l0)
  with r have "Profile_Location (result c1) = Profile_Location (result c)"
    "Profile_Function (result c1) = Profile_Function (result c)"
    "functionIndex c1 = functionIndex c" "Profile_Sample (result c1) = Profile_Sample (result c)"
    "Profile_Mapping (result c1) = Profile_Mapping (result c)"
    by (simp_all add: resolved_def sameConfig_def)
  with t show ?thesis by (simp add: tables_ok_def)
next
  case None
  with r have locs: "Profile_Location (result c1) = Profile_Location (result c) @ [l]"
    and lid: "Location_ID l = of_nat (length (Profile_Location (result c))) + 1"
    and lm: "Location_Mapping l = m"
    and smp: "Profile_Sample (result c1) = Profile_Sample (result c)"
    and maps: "Profile_Mapping (result c1) = Profile_Mapping (result c)"
    by (simp_all add: resolved_def sameConfig_def)
  from t have ids: "map Location_ID (Profile_Location (result c)) =
       map of_nat [1..<Suc (length (Profile_Location (result c)))]"
    and mem: "\<And>l'. l' \<in> set (Profile_Location (result c)) \<Longrightarrow>
        Location_Mapping l' \<in> set (Profile_Mapping (result c)) \<and>
        (\<forall>ln \<in> set (Location_Line l'). Line_Function ln \<in> set (Profile_Function (result c)))"
    and sm: "\<And>s. s \<in> set (Profile_Sample (result c)) \<Longrightarrow>
        set (Sample_Location s) \<subseteq> set (Profile_Location (result c))"
    and len: "length (Profile_Function (result c)) \<le> length (Profile_Location (result c))"
    and fids: "map Function_ID (Profile_Function (result c)) =
       map of_nat [1..<Suc (length (Profile_Function (result c)))]"
    and fi: "\<forall>name fn. functionIndex c name = Some fn \<longrightarrow>
        fn \<in> set (Profile_Function (result c)) \<and> Function_Name fn = name"
    by (simp_all add: tables_ok_def)
  have ids1: "map Location_ID (Profile_Location (result c1)) =
       map of_nat [1..<Suc (length (Profile_Location (result c1)))]"
    unfolding locs using ids lid by (rule dense_snoc)
  have sm1: "\<forall>s \<in> set (Profile_Sample (result c1)).
        set (Sample_Location s) \<subseteq> set (Profile_Location (result c1))"
    using sm smp locs by auto
  show ?thesis
  proof (cases "keyName k")
    case N: None
    with r None have ll: "Location_Line l = []"
      and fs: "Profile_Function (result c1) = Profile_Function (result c)"
      and fx: "functionIndex c1 = functionIndex c"
      by (simp_all add: resolved_def)
    have mem1: "\<forall>l' \<in> set (Profile_Location (result c1)).
        Location_Mapping l' \<in> set (Profile_Mapping (result c1)) \<and>
        (\<forall>ln \<in> set (Location_Line l'). Line_Function ln \<in> set (Profile_Function (result c1)))"
      using mem lm m ll by (auto simp: locs maps fs)
    show ?thesis
      unfolding tables_ok_def using ids1 sm1 mem1 fids fi len
      by (simp add: fs fx locs)
  next
    case (Some s)
    with r None obtain fn where ll: "Location_Line l = [\<lparr>Line_Function = fn\<rparr>]"
      and fa: "functionAdded c s fn c1"
      by (auto simp: resolved_def)
    note F = tables_ok_functionAdded[OF t fa]
    have mem1: "\<forall>l' \<in> set (Profile_Location (result c1)).
        Location_Mapping l' \<in> set (Profile_Mapping (result c1)) \<and>
        (\<forall>ln \<in> set (Location_Line l'). Line_Function ln \<in> set (Profile_Function (result c1)))"
    proof
      fix l' assume "l' \<in> set (Profile_Location (result c1))"
      then consider "l' \<in> set (Profile_Location (result c))" | "l' = l" by (auto simp: locs)
      then show "Location_Mapping l' \<in> set (Profile_Mapping (result c1)) \<and>
        (\<forall>ln \<in> set (Location_Line l'). Line_Function ln \<in> set (Profile_Function (result c1)))"
      proof cases
        case 1
        then show ?thesis using mem[OF 1] F(2) by (auto simp: maps)
      next
        case 2
        then show ?thesis using lm m ll F(3) by (simp add: maps)
      qed
    qed
    have len1: "length (Profile_Function (result c1)) \<le> length (Profile_Location (result c1))"
      using F(6) len by (simp add: locs)
    show ?thesis
      unfolding tables_ok_def using ids1 sm1 mem1 F(1) F(5) len1 by simp
  qed
qed

lemma of_nat_uint64_inj:
  assumes "(of_nat a :: uint64) = of_nat b" and "a < 2 ^ 64" and "b < 2 ^ 64"
  shows "a = b"
proof -
  have "unat (of_nat a :: uint64) = unat (of_nat b :: uint64)" using assms(1) by simp
  then show ?thesis using assms(2,3) by (simp add: unat_of_nat)
qed

lemma fresh_Location_ID:
  assumes t: "tables_ok c" and l: "l \<in> set (Profile_Location (result c))"
    and n: "Suc (length (Profile_Location (result c))) < 2 ^ 64"
  shows "Location_ID l \<noteq> of_nat (length (Profile_Location (result c))) + 1"
proof
  assume eq: "Location_ID l = of_nat (length (Profile_Location (result c))) + 1"
  from t have ids: "map Location_ID (Profile_Location (result c)) =
       map of_nat [1..<Suc (length (Profile_Location (result c)))]"
    by (simp add: tables_ok_def)
  from l have "Location_ID l \<in> set (map Location_ID (Profile_Location (result c)))" by simp
  then have "Location_ID l \<in> set (map of_nat [1..<Suc (length (Profile_Location (result c)))])"
    using ids by simp
  then obtain j where j: "1 \<le> j" "j \<le> length (Profile_Location (result c))"
    and lj: "Location_ID l = of_nat j" by auto
  have "(of_nat j :: uint64) = of_nat (Suc (length (Profile_Location (result c))))"
    using eq lj by simp
  then have "j = Suc (length (Profile_Location (result c)))"
    using n j by (intro of_nat_uint64_inj) simp_all
  with j show False by simp
qed

lemma filed_sameConfig: "sameConfig c c1 \<Longrightarrow> filed c1 k l = filed c k l"
  by (simp add: filed_def sameConfig_def)

lemma keyName_None: "keyName k = None \<Longrightarrow> \<exists>a. k = AddrKey a"
  by (cases k) simp_all

lemma resolved_index_ok:
  assumes i: "index_ok c" and t: "tables_ok c" and r: "resolved c m k l c1"
    and km: "if isKernelKey k then m = kernelMapping c else Mapping_Start m < Mapping_Limit m"
  shows "index_ok c1"
proof (cases "locationIndex c k")
  case (Some l0)
  with r have "Profile_Location (result c1) = Profile_Location (result c)"
    "locationIndex c1 = locationIndex c" "sameConfig c c1"
    by (simp_all add: resolved_def)
  with i show ?thesis by (simp add: index_ok_def filed_sameConfig)
next
  case None
  let ?locs = "Profile_Location (result c)"
  from r None have locs: "Profile_Location (result c1) = ?locs @ [l]"
    and idx: "locationIndex c1 = (locationIndex c)(k \<mapsto> l)"
    and lid: "Location_ID l = of_nat (length ?locs) + 1"
    and lm: "Location_Mapping l = m"
    and sc: "sameConfig c c1"
    by (simp_all add: resolved_def)
  from i have c1': "\<And>k' l'. locationIndex c k' = Some l' \<Longrightarrow> l' \<in> set ?locs \<and> filed c k' l'"
    and c2': "\<And>l'. l' \<in> set ?locs \<Longrightarrow> \<exists>k'. locationIndex c k' = Some l'"
    and c3': "length ?locs < 2 ^ 64 \<Longrightarrow>
        (\<forall>k' k'' l'. locationIndex c k' = Some l' \<longrightarrow> locationIndex c k'' = Some l' \<longrightarrow> k' = k'')"
    by (auto simp: index_ok_def)
  have fl: "filed c k l"
  proof (cases "keyName k")
    case N: None
    then obtain a where ka: "k = AddrKey a" using keyName_None by blast
    from r None N have "Location_Address l = (case k of AddrKey a \<Rightarrow> a | _ \<Rightarrow> 0)" "Location_Line l = []"
      by (simp_all add: resolved_def)
    then show ?thesis using km lm by (simp add: filed_def ka)
  next
    case (Some s)
    with r None obtain fn where ll: "Location_Line l = [\<lparr>Line_Function = fn\<rparr>]"
      and la: "Location_Address l = 0"
      and fa: "functionAdded c s fn c1"
      by (auto simp: resolved_def)
    have "Function_Name fn = s" by (rule tables_ok_functionAdded(4)[OF t fa])
    then show ?thesis using km lm ll la Some by (simp add: filed_def lineNames_def)
  qed
  have A: "\<forall>k' l'. locationIndex c1 k' = Some l' \<longrightarrow>
        l' \<in> set (Profile_Location (result c1)) \<and> filed c1 k' l'"
  proof (intro allI impI)
    fix k' l' assume h: "locationIndex c1 k' = Some l'"
    show "l' \<in> set (Profile_Location (result c1)) \<and> filed c1 k' l'"
    proof (cases "k' = k")
      case True
      with h have "l' = l" by (simp add: idx)
      then show ?thesis using fl True by (simp add: locs filed_sameConfig[OF sc])
    next
      case False
      with h have "locationIndex c k' = Some l'" by (simp add: idx)
      from c1'[OF this] show ?thesis by (simp add: locs filed_sameConfig[OF sc])
    qed
  qed
  have B: "\<forall>l' \<in> set (Profile_Location (result c1)). \<exists>k'. locationIndex c1 k' = Some l'"
  proof
    fix l' assume "l' \<in> set (Profile_Location (result c1))"
    then consider "l' \<in> set ?locs" | "l' = l" by (auto simp: locs)
    then show "\<exists>k'. locationIndex c1 k' = Some l'"
    proof cases
      case 1
      from c2'[OF 1] obtain k' where k': "locationIndex c k' = Some l'" by blast
      with None have "k' \<noteq> k" by auto
      with k' have "locationIndex c1 k' = Some l'" by (simp add: idx)
      then show ?thesis by blast
    next
      case 2
      then have "locationIndex c1 k = Some l'" by (simp add: idx)
      then show ?thesis by blast
    qed
  qed
  have C: "length (Profile_Location (result c1)) < 2 ^ 64 \<longrightarrow>
        (\<forall>k' k'' l'. locationIndex c1 k' = Some l' \<longrightarrow> locationIndex c1 k'' = Some l' \<longrightarrow> k' = k'')"
  proof (intro impI allI)
    fix k' k'' l'
    assume n: "length (Profile_Location (result c1)) < 2 ^ 64"
      and h1: "locationIndex c1 k' = Some l'" and h2: "locationIndex c1 k'' = Some l'"
    from n have n1: "Suc (length ?locs) < 2 ^ 64" and n0: "length ?locs < 2 ^ 64"
      by (simp_all add: locs)
    have notold: "locationIndex c kk \<noteq> Some l" for kk
    proof
      assume "locationIndex c kk = Some l"
      then have "l \<in> set ?locs" using c1' by blast
      from fresh_Location_ID[OF t this n1] lid show False by simp
    qed
    show "k' = k''"
    proof (cases "k' = k")
      case True
      with h1 have ll: "l' = l" by (simp add: idx)
      show ?thesis
      proof (cases "k'' = k")
        case True
        with \<open>k' = k\<close> show ?thesis by simp
      next
        case False
        with h2 ll have "locationIndex c k'' = Some l" by (simp add: idx)
        with notold show ?thesis by blast
      qed
    next
      case False
      with h1 have o1: "locationIndex c k' = Some l'" by (simp add: idx)
      show ?thesis
      proof (cases "k'' = k")
        case True
        with h2 have "l' = l" by (simp add: idx)
        with o1 notold show ?thesis by blast
      next
        case F2: False
        with h2 have "locationIndex c k'' = Some l'" by (simp add: idx)
        with o1 c3'[OF n0] show ?thesis by blast
      qed
    qed
  qed
  show ?thesis unfolding index_ok_def using A B C by blast
qed

lemma memo_ok_sameMemo: "sameMemo c c1 \<Longrightarrow> pid c1 = pid c \<Longrightarrow> memo_ok env c \<Longrightarrow> memo_ok env c1"
  by (simp add: memo_ok_def sameMemo_def)

lemma addFunction_sameMemo: "addFunction c s = (fn, c1) \<Longrightarrow> sameMemo c c1"
  by (auto simp: addFunction_def sameMemo_def Let_def split: option.splits)

lemma addKernelLocation_sameMemo:
  "addKernelLocation c m ks addr = (l, c1) \<Longrightarrow> sameMemo c c1"
  by (auto simp: addKernelLocation_def sameMemo_def Let_def
      split: option.splits prod.splits dest!: addFunction_sameMemo)

lemma addVDSOLocation_sameMemo:
  "addVDSOLocation env c pm m addr = (l, c1) \<Longrightarrow> sameMemo c c1"
  by (auto simp: addVDSOLocation_def sameMemo_def Let_def
      split: option.splits prod.splits dest!: addFunction_sameMemo)

lemma addAddrLocationNoNormalization_sameMemo:
  "addAddrLocationNoNormalization c m addr = (l, c1) \<Longrightarrow> sameMemo c c1"
  by (auto simp: addAddrLocationNoNormalization_def sameMemo_def Let_def split: option.splits)

lemma addAddrLocation_sameMemo:
  "addAddrLocation env c pm m addr = (l, c1) \<Longrightarrow> sameMemo c c1"
  unfolding addAddrLocation_def Let_def by (rule addAddrLocationNoNormalization_sameMemo)

lemma resolved_hit:
  "locationIndex c k = Some l \<Longrightarrow> resolved c m k l c"
  by (simp add: resolved_def sameConfig_def)

text \<open>
  The shape shared by \<open>addPerfMapLocation\<close> and \<open>addJITDumpLocation\<close> once the perf map
  or the jitdump has been fetched.
\<close>

lemma jit_location_resolved:
  assumes mo: "memoOnly c c0" and ok0: "memo_ok env c0"
    and cases: "case pmap of
        None \<Rightarrow> addAddrLocationNoNormalization c0 m addr = (l, c1)
      | Some lookup \<Rightarrow>
          (case lookup addr of
             Inl err \<Rightarrow> addAddrLocationNoNormalization c0 m addr = (l, c1)
           | Inr symbol \<Rightarrow>
               (case locationIndex c0 (mk symbol) of
                  Some l0 \<Rightarrow> l = l0 \<and> c1 = c0
                | None \<Rightarrow> resolved c0 m (mk symbol) l c1 \<and> sameMemo c0 c1))"
  shows "resolved c m (jitKey False pmap mk addr) l c1 \<and> memo_ok env c1"
proof -
  have pid0: "pid c0 = pid c" using mo by (simp add: memoOnly_def sameConfig_def)
  have addr_case: "resolved c m (AddrKey addr) l c1 \<and> memo_ok env c1"
    if a: "addAddrLocationNoNormalization c0 m addr = (l, c1)"
  proof -
    have r0: "resolved c0 m (AddrKey addr) l c1"
      by (rule addAddrLocationNoNormalization_resolved[OF a])
    have "pid c1 = pid c0" using r0 by (simp add: resolved_def sameConfig_def)
    then have "memo_ok env c1"
      using memo_ok_sameMemo[OF addAddrLocationNoNormalization_sameMemo[OF a] _ ok0] by simp
    then show ?thesis using memoOnly_resolved[OF mo r0] by simp
  qed
  show ?thesis
  proof (cases pmap)
    case None
    with cases addr_case show ?thesis by (simp add: jitKey_def)
  next
    case (Some lookup)
    show ?thesis
    proof (cases "lookup addr")
      case (Inl err)
      with Some cases addr_case show ?thesis by (simp add: jitKey_def)
    next
      case (Inr symbol)
      have k: "jitKey False pmap mk addr = mk symbol" by (simp add: jitKey_def Some Inr)
      show ?thesis
      proof (cases "locationIndex c0 (mk symbol)")
        case N: None
        with Some Inr cases have r0: "resolved c0 m (mk symbol) l c1" and sm: "sameMemo c0 c1"
          by simp_all
        have "pid c1 = pid c0" using r0 by (simp add: resolved_def sameConfig_def)
        then have "memo_ok env c1" using memo_ok_sameMemo[OF sm _ ok0] by simp
        then show ?thesis using memoOnly_resolved[OF mo r0] k by simp
      next
        case S: (Some l0)
        with Some Inr cases have "l = l0" "c1 = c0" by simp_all
        then show ?thesis
          using memoOnly_resolved[OF mo resolved_hit[OF S, of m]] ok0 k by simp
      qed
    qed
  qed
qed

lemma addPerfMapLocation_resolved:
  assumes ok: "memo_ok env c" and a: "addPerfMapLocation env c m addr = (l, c1)"
  shows "resolved c m (perfMapKey env c addr) l c1 \<and> memo_ok env c1"
proof (cases "disableJITSymbolization c")
  case True
  with a have a': "addAddrLocationNoNormalization c m addr = (l, c1)"
    by (simp add: addPerfMapLocation_def)
  have r0: "resolved c m (AddrKey addr) l c1"
    by (rule addAddrLocationNoNormalization_resolved[OF a'])
  have "pid c1 = pid c" using r0 by (simp add: resolved_def sameConfig_def)
  then have "memo_ok env c1"
    using memo_ok_sameMemo[OF addAddrLocationNoNormalization_sameMemo[OF a'] _ ok] by simp
  then show ?thesis using r0 True by (simp add: perfMapKey_def jitKey_def)
next
  case False
  obtain pm err c0 where p: "perfMap env c = ((pm, err), c0)"
    by (cases "perfMap env c") auto
  from perfMap_memo[OF ok p] have pe: "(pm, err) = perfMapCache_PerfMapForPID env (pid c)"
    and ok0: "memo_ok env c0" and mo: "memoOnly c c0" by simp_all
  have pm: "fst (perfMapCache_PerfMapForPID env (pid c)) = pm" using pe by (metis fst_conv)
  have "resolved c m (jitKey False pm PerfMapKey addr) l c1 \<and> memo_ok env c1"
  proof (rule jit_location_resolved[OF mo ok0])
    show "case pm of
        None \<Rightarrow> addAddrLocationNoNormalization c0 m addr = (l, c1)
      | Some lookup \<Rightarrow>
          (case lookup addr of
             Inl err \<Rightarrow> addAddrLocationNoNormalization c0 m addr = (l, c1)
           | Inr symbol \<Rightarrow>
               (case locationIndex c0 (PerfMapKey symbol) of
                  Some l0 \<Rightarrow> l = l0 \<and> c1 = c0
                | None \<Rightarrow> resolved c0 m (PerfMapKey symbol) l c1 \<and> sameMemo c0 c1))"
    proof (cases pm)
      case None
      with a False p show ?thesis by (simp add: addPerfMapLocation_def)
    next
      case (Some lookup)
      show ?thesis
      proof (cases "lookup addr")
        case (Inl e)
        with a False p Some show ?thesis by (simp add: addPerfMapLocation_def)
      next
        case (Inr symbol)
        show ?thesis
        proof (cases "perfmapLocationIndex c0 symbol")
          case S: (Some l0)
          with a False p Some Inr show ?thesis by (auto simp: addPerfMapLocation_def)
        next
          case N: None
          obtain fn cf where af: "addFunction c0 symbol = (fn, cf)"
            by (cases "addFunction c0 symbol")
          note fr = addFunction_frame[OF af]
          from a False p Some Inr N af
          have l: "l = \<lparr>Location_ID = of_nat (length (Profile_Location (result c0))) + 1,
                       Location_Mapping = m, Location_Address = 0,
                       Location_Line = [\<lparr>Line_Function = fn\<rparr>]\<rparr>"
            and c1: "c1 = cf\<lparr>perfmapLocationIndex := (perfmapLocationIndex cf)(symbol \<mapsto> l),
                       result := (result cf)\<lparr>Profile_Location := Profile_Location (result cf) @ [l]\<rparr>\<rparr>"
            by (auto simp: addPerfMapLocation_def Let_def)
          have li: "locationIndex c1 = (locationIndex c0)(PerfMapKey symbol \<mapsto> l)"
            by (rule locationIndex_perfmap_upd) (use fr in \<open>simp_all add: c1\<close>)
          have r0: "resolved c0 m (PerfMapKey symbol) l c1"
            by (rule named_location_resolved[OF af _ _ l li]) (use N in \<open>simp_all add: c1 sameConfig_def\<close>)
          have "sameMemo c0 c1"
            using addFunction_sameMemo[OF af] by (simp add: sameMemo_def c1)
          with r0 N Some Inr show ?thesis by simp
        qed
      qed
    qed
  qed
  then show ?thesis using False pm by (simp add: perfMapKey_def jitKey_def)
qed

lemma addJITDumpLocation_resolved:
  assumes ok: "memo_ok env c" and a: "addJITDumpLocation env c m addr p = (l, c1)"
  shows "resolved c m (jitDumpKey env c addr p) l c1 \<and> memo_ok env c1"
proof (cases "disableJITSymbolization c")
  case True
  with a have a': "addAddrLocationNoNormalization c m addr = (l, c1)"
    by (simp add: addJITDumpLocation_def)
  have r0: "resolved c m (AddrKey addr) l c1"
    by (rule addAddrLocationNoNormalization_resolved[OF a'])
  have "pid c1 = pid c" using r0 by (simp add: resolved_def sameConfig_def)
  then have "memo_ok env c1"
    using memo_ok_sameMemo[OF addAddrLocationNoNormalization_sameMemo[OF a'] _ ok] by simp
  then show ?thesis using r0 True by (simp add: jitDumpKey_def jitKey_def)
next
  case False
  obtain jd err c0 where p: "jitdump env c p = ((jd, err), c0)"
    by (cases "jitdump env c p") auto
  from jitdump_memo[OF ok p] have pe: "(jd, err) = jitdumpCache_JitdumpForPID env (pid c) p"
    and ok0: "memo_ok env c0" and mo: "memoOnly c c0" by simp_all
  have pm: "fst (jitdumpCache_JitdumpForPID env (pid c) p) = jd" using pe by (metis fst_conv)
  have "resolved c m (jitKey False jd JITDumpKey addr) l c1 \<and> memo_ok env c1"
  proof (rule jit_location_resolved[OF mo ok0])
    show "case jd of
        None \<Rightarrow> addAddrLocationNoNormalization c0 m addr = (l, c1)
      | Some lookup \<Rightarrow>
          (case lookup addr of
             Inl err \<Rightarrow> addAddrLocationNoNormalization c0 m addr = (l, c1)
           | Inr symbol \<Rightarrow>
               (case locationIndex c0 (JITDumpKey symbol) of
                  Some l0 \<Rightarrow> l = l0 \<and> c1 = c0
                | None \<Rightarrow> resolved c0 m (JITDumpKey symbol) l c1 \<and> sameMemo c0 c1))"
    proof (cases jd)
      case None
      with a False p show ?thesis by (simp add: addJITDumpLocation_def)
    next
      case (Some lookup)
      show ?thesis
      proof (cases "lookup addr")
        case (Inl e)
        with a False p Some show ?thesis by (simp add: addJITDumpLocation_def)
      next
        case (Inr symbol)
        show ?thesis
        proof (cases "jitdumpLocationIndex c0 symbol")
          case S: (Some l0)
          with a False p Some Inr show ?thesis by (auto simp: addJITDumpLocation_def)
        next
          case N: None
          obtain fn cf where af: "addFunction c0 symbol = (fn, cf)"
            by (cases "addFunction c0 symbol")
          note fr = addFunction_frame[OF af]
          from a False p Some Inr N af
          have l: "l = \<lparr>Location_ID = of_nat (length (Profile_Location (result c0))) + 1,
                       Location_Mapping = m, Location_Address = 0,
                       Location_Line = [\<lparr>Line_Function = fn\<rparr>]\<rparr>"
            and c1: "c1 = cf\<lparr>jitdumpLocationIndex := (jitdumpLocationIndex cf)(symbol \<mapsto> l),
                       result := (result cf)\<lparr>Profile_Location := Profile_Location (result cf) @ [l]\<rparr>\<rparr>"
            by (auto simp: addJITDumpLocation_def Let_def)
          have li: "locationIndex c1 = (locationIndex c0)(JITDumpKey symbol \<mapsto> l)"
            by (rule locationIndex_jitdump_upd) (use fr in \<open>simp_all add: c1\<close>)
          have r0: "resolved c0 m (JITDumpKey symbol) l c1"
            by (rule named_location_resolved[OF af _ _ l li]) (use N in \<open>simp_all add: c1 sameConfig_def\<close>)
          have "sameMemo c0 c1"
            using addFunction_sameMemo[OF af] by (simp add: sameMemo_def c1)
          with r0 N Some Inr show ?thesis by simp
        qed
      qed
    qed
  qed
  then show ?thesis using False pm by (simp add: jitDumpKey_def jitKey_def)
qed

lemma advances_refl: "advances c c"
  by (simp add: advances_def sameConfig_refl)

lemma advances_trans: "advances a b \<Longrightarrow> advances b c \<Longrightarrow> advances a c"
  unfolding advances_def using sameConfig_trans map_le_trans by fastforce

lemma resolved_advances: "resolved c m k l c1 \<Longrightarrow> advances c c1"
  unfolding advances_def
  using resolved_sameConfig resolved_map_le resolved_locations by blast

lemma advances_lookup:
  "advances c c1 \<Longrightarrow> locationIndex c k = Some l \<Longrightarrow> locationIndex c1 k = Some l"
  by (auto simp: advances_def map_le_def dom_def)

lemma resolved_length:
  "resolved c m k l c1 \<Longrightarrow>
     length (Profile_Location (result c1)) \<le> Suc (length (Profile_Location (result c)))"
  by (simp add: resolved_locations)

lemma mappingForAddr_from_range:
  "mappingForAddr_from i ms addr = -1 \<or>
   (\<exists>r. mappingForAddr_from i ms addr = int r \<and> i \<le> r \<and> r < i + length ms)"
proof (induction ms arbitrary: i)
  case Nil
  then show ?case by simp
next
  case (Cons m ms)
  show ?case
  proof (cases "Mapping_Start m \<le> addr \<and> addr < Mapping_Limit m")
    case True
    then show ?thesis by auto
  next
    case False
    with Cons[of "Suc i"] show ?thesis by auto
  qed
qed

lemma mappingForAddr_from_none:
  "mappingForAddr_from i ms addr = -1 \<longleftrightarrow> (\<forall>m \<in> set ms. \<not> inRange m addr)"
  by (induction ms arbitrary: i) (auto simp: inRange_def)

lemma mappingForAddr_from_first:
  "mappingForAddr_from i ms addr = int (i + n) \<longleftrightarrow>
     n < length ms \<and> inRange (ms ! n) addr \<and> (\<forall>j < n. \<not> inRange (ms ! j) addr)"
proof (induction ms arbitrary: i n)
  case Nil
  then show ?case by simp
next
  case (Cons m ms)
  show ?case
  proof (cases "inRange m addr")
    case True
    then have "mappingForAddr_from i (m # ms) addr = int i" by (simp add: inRange_def)
    moreover have "(n < length (m # ms) \<and> inRange ((m # ms) ! n) addr \<and>
          (\<forall>j < n. \<not> inRange ((m # ms) ! j) addr)) \<longleftrightarrow> n = 0"
      using True by (cases n) auto
    ultimately show ?thesis by simp
  next
    case False
    then have step: "mappingForAddr_from i (m # ms) addr = mappingForAddr_from (Suc i) ms addr"
      by (auto simp: inRange_def)
    show ?thesis
    proof (cases n)
      case 0
      have "mappingForAddr_from (Suc i) ms addr \<noteq> int i"
        using mappingForAddr_from_range[of "Suc i" ms addr] by auto
      then have "mappingForAddr_from i (m # ms) addr \<noteq> int (i + n)"
        using step 0 by (simp del: mappingForAddr_from.simps)
      moreover have "\<not> inRange ((m # ms) ! n) addr" using False 0 by simp
      ultimately show ?thesis by blast
    next
      case (Suc n')
      have "mappingForAddr_from (Suc i) ms addr = int (Suc i + n') \<longleftrightarrow>
              n' < length ms \<and> inRange (ms ! n') addr \<and> (\<forall>j < n'. \<not> inRange (ms ! j) addr)"
        by (rule Cons.IH)
      moreover have "(\<forall>j < Suc n'. \<not> inRange ((m # ms) ! j) addr) \<longleftrightarrow>
                     (\<forall>j < n'. \<not> inRange (ms ! j) addr)"
        using False by (auto simp: less_Suc_eq_0_disj)
      ultimately show ?thesis using step Suc by (simp del: mappingForAddr_from.simps)
    qed
  qed
qed

lemma mappingForAddr_none:
  "mappingForAddr ms addr = -1 \<longleftrightarrow> (\<forall>m \<in> set ms. \<not> inRange m addr)"
  by (simp add: mappingForAddr_def mappingForAddr_from_none)

lemma mappingForAddr_first:
  "mappingForAddr ms addr = int i \<longleftrightarrow>
     i < length ms \<and> inRange (ms ! i) addr \<and> (\<forall>j < i. \<not> inRange (ms ! j) addr)"
  using mappingForAddr_from_first[where i=0 and n=i and ms=ms and addr=addr]
  by (simp add: mappingForAddr_def)

lemma mappingForAddr_range:
  "mappingForAddr ms addr = -1 \<or> (\<exists>i. mappingForAddr ms addr = int i)"
  using mappingForAddr_from_range[of 0 ms addr] by (auto simp: mappingForAddr_def)

lemma config_ok_sameConfig: "sameConfig c c1 \<Longrightarrow> config_ok c \<Longrightarrow> config_ok c1"
  by (simp add: config_ok_def sameConfig_def)

lemma config_ok_kernelMapping:
  assumes "config_ok c"
  shows "kernelMapping c \<in> set (Profile_Mapping (result c))"
proof -
  from assms have "Profile_Mapping (result c) \<noteq> []" and "last (Profile_Mapping (result c)) = kernelMapping c"
    by (auto simp: config_ok_def)
  then show ?thesis using last_in_set by metis
qed

lemma kernelMapping_not_inRange: "config_ok c \<Longrightarrow> \<not> inRange (kernelMapping c) addr"
  by (simp add: config_ok_def inRange_def)

lemma config_ok_index:
  assumes ok: "config_ok c" and i: "mappingForAddr (Profile_Mapping (result c)) addr = int i"
  shows "i < length (mappings c)" and "i < length (Profile_Mapping (result c))"
    and "inRange (Profile_Mapping (result c) ! i) addr"
proof -
  let ?pm = "Profile_Mapping (result c)"
  from i have il: "i < length ?pm" and ir: "inRange (?pm ! i) addr"
    by (simp_all add: mappingForAddr_first)
  from ok have len: "length ?pm = length (mappings c) + 1" and lst: "last ?pm = kernelMapping c"
    by (simp_all add: config_ok_def)
  have "i \<noteq> length ?pm - 1"
  proof
    assume "i = length ?pm - 1"
    moreover have "?pm \<noteq> []" using len by auto
    ultimately have "?pm ! i = last ?pm" by (simp add: last_conv_nth)
    with ir lst kernelMapping_not_inRange[OF ok] show False by simp
  qed
  with il len show "i < length (mappings c)" by simp
  show "i < length ?pm" by (rule il)
  show "inRange (?pm ! i) addr" by (rule ir)
qed

lemma userKey_sameConfig: "sameConfig c c1 \<Longrightarrow> userKey env c1 addr = userKey env c addr"
  by (simp add: userKey_def sameConfig_def perfMapKey_def jitDumpKey_def Let_def)

lemma not_kernel_keys:
  "\<not> isKernelKey (vdsoKey env pm addr)" "\<not> isKernelKey (nativeKey env pm addr)"
  "\<not> isKernelKey (perfMapKey env c addr)" "\<not> isKernelKey (jitDumpKey env c addr p)"
  by (simp_all add: vdsoKey_def nativeKey_def perfMapKey_def jitDumpKey_def jitKey_def
      split: option.splits sum.splits)

lemma memo_ok_resolved_plain:
  assumes "memo_ok env c" and "sameMemo c c1" and "resolved c m k l c1"
  shows "memo_ok env c1"
proof -
  have "pid c1 = pid c" using assms(3) by (simp add: resolved_def sameConfig_def)
  with assms show ?thesis using memo_ok_sameMemo by blast
qed

text \<open>The switch on the mapping's file in \<open>Convert\<close>.\<close>

lemma dispatch_resolved:
  assumes ok: "memo_ok env c"
    and d: "(if Mapping_File m = ''[vdso]'' then addVDSOLocation env c pm m addr
             else if Mapping_File m = ''jit'' then addPerfMapLocation env c m addr
             else if HasSuffix (Mapping_File m) ''.dump''
             then addJITDumpLocation env c m addr (Mapping_File m)
             else addAddrLocation env c pm m addr) = (l, c1)"
  shows "resolved c m
           (if Mapping_File m = ''[vdso]'' then vdsoKey env pm addr
            else if Mapping_File m = ''jit'' then perfMapKey env c addr
            else if HasSuffix (Mapping_File m) ''.dump''
            then jitDumpKey env c addr (Mapping_File m)
            else nativeKey env pm addr) l c1 \<and> memo_ok env c1"
proof (cases "Mapping_File m = ''[vdso]''")
  case True
  with d have a: "addVDSOLocation env c pm m addr = (l, c1)" by simp
  show ?thesis
    using addVDSOLocation_resolved[OF a]
      memo_ok_resolved_plain[OF ok addVDSOLocation_sameMemo[OF a] addVDSOLocation_resolved[OF a]] True
    by simp
next
  case nv: False
  show ?thesis
  proof (cases "Mapping_File m = ''jit''")
    case True
    with d nv have a: "addPerfMapLocation env c m addr = (l, c1)" by simp
    show ?thesis using addPerfMapLocation_resolved[OF ok a] nv True by simp
  next
    case nj: False
    show ?thesis
    proof (cases "HasSuffix (Mapping_File m) ''.dump''")
      case True
      with d nv nj have a: "addJITDumpLocation env c m addr (Mapping_File m) = (l, c1)" by simp
      show ?thesis using addJITDumpLocation_resolved[OF ok a] nv nj True by simp
    next
      case False
      with d nv nj have a: "addAddrLocation env c pm m addr = (l, c1)" by simp
      show ?thesis
        using addAddrLocation_resolved[OF a]
          memo_ok_resolved_plain[OF ok addAddrLocation_sameMemo[OF a] addAddrLocation_resolved[OF a]]
          nv nj False
        by simp
    qed
  qed
qed

lemma dispatch_not_kernel:
  "\<not> isKernelKey
        (if Mapping_File m = ''[vdso]'' then vdsoKey env pm addr
            else if Mapping_File m = ''jit'' then perfMapKey env c addr
            else if HasSuffix (Mapping_File m) ''.dump''
            then jitDumpKey env c addr (Mapping_File m)
            else nativeKey env pm addr)"
  by (simp add: not_kernel_keys)

lemma converter_ok_resolved:
  assumes ok: "converter_ok env c" and r: "resolved c m k l c1" and mo: "memo_ok env c1"
    and m: "m \<in> set (Profile_Mapping (result c))"
    and km: "if isKernelKey k then m = kernelMapping c else Mapping_Start m < Mapping_Limit m"
  shows "converter_ok env c1"
  unfolding converter_ok_def
  using mo config_ok_sameConfig[OF resolved_sameConfig[OF r]] resolved_tables_ok[OF _ r m]
    resolved_index_ok[OF _ _ r km] ok
  by (simp add: converter_ok_def)

lemma converter_ok_frameDrop:
  assumes "converter_ok env c"
  shows "converter_ok env (c\<lparr>frameDrop_mapping_nil := n\<rparr>)"
proof -
  have li: "locationIndex (c\<lparr>frameDrop_mapping_nil := n\<rparr>) = locationIndex c"
    by (rule locationIndex_cong) simp_all
  have fl: "\<And>k l. filed (c\<lparr>frameDrop_mapping_nil := n\<rparr>) k l = filed c k l"
    by (simp add: filed_def)
  show ?thesis
    using assms
    by (simp add: converter_ok_def memo_ok_def config_ok_def tables_ok_def index_ok_def li fl)
qed

lemma userFrame_ok:
  assumes ok: "converter_ok env c"
  shows "\<exists>locs1 c1. userFrame env c locs addr = Inr (locs1, c1) \<and> converter_ok env c1 \<and>
      advances c c1 \<and> Profile_Sample (result c1) = Profile_Sample (result c) \<and>
      length (Profile_Location (result c1)) \<le> Suc (length (Profile_Location (result c))) \<and>
      (case userKey env c addr of
         None \<Rightarrow> locs1 = locs \<and> frameDrop_mapping_nil c1 = Suc (frameDrop_mapping_nil c)
       | Some k \<Rightarrow> frameDrop_mapping_nil c1 = frameDrop_mapping_nil c \<and>
                  (\<exists>l. locs1 = locs @ [l] \<and> locationIndex c1 k = Some l))"
proof (cases "mappingForAddr (Profile_Mapping (result c)) addr = -1")
  case True
  let ?c1 = "c\<lparr>frameDrop_mapping_nil := frameDrop_mapping_nil c + 1\<rparr>"
  have u: "userFrame env c locs addr = Inr (locs, ?c1)" using True by (simp add: userFrame_def)
  have k: "userKey env c addr = None" using True by (simp add: userKey_def)
  have li: "locationIndex (c\<lparr>frameDrop_mapping_nil := n\<rparr>) = locationIndex c" for n
    by (rule locationIndex_cong) simp_all
  have "advances c ?c1" by (simp add: advances_def sameConfig_def li)
  then show ?thesis using u k converter_ok_frameDrop[OF ok] by simp
next
  case False
  then obtain i where i: "mappingForAddr (Profile_Mapping (result c)) addr = int i"
    using mappingForAddr_range by blast
  from ok have cfg: "config_ok c" and mo: "memo_ok env c" by (simp_all add: converter_ok_def)
  note I = config_ok_index[OF cfg i]
  let ?pm = "mappings c ! i" and ?m = "Profile_Mapping (result c) ! i"
  let ?k = "if Mapping_File ?m = ''[vdso]'' then vdsoKey env ?pm addr
            else if Mapping_File ?m = ''jit'' then perfMapKey env c addr
            else if HasSuffix (Mapping_File ?m) ''.dump''
            then jitDumpKey env c addr (Mapping_File ?m)
            else nativeKey env ?pm addr"
  obtain l c1 where d: "(if Mapping_File ?m = ''[vdso]'' then addVDSOLocation env c ?pm ?m addr
             else if Mapping_File ?m = ''jit'' then addPerfMapLocation env c ?m addr
             else if HasSuffix (Mapping_File ?m) ''.dump''
             then addJITDumpLocation env c ?m addr (Mapping_File ?m)
             else addAddrLocation env c ?pm ?m addr) = (l, c1)"
    by (meson surj_pair)
  from dispatch_resolved[OF mo d] have r: "resolved c ?m ?k l c1" and mo1: "memo_ok env c1"
    by simp_all
  have u: "userFrame env c locs addr = Inr (locs @ [l], c1)"
    using i I d False by (simp add: userFrame_def Let_def)
  have k: "userKey env c addr = Some ?k" using i False by (simp add: userKey_def Let_def)
  have mem: "?m \<in> set (Profile_Mapping (result c))" using I(2) by simp
  have nonempty: "Mapping_Start ?m < Mapping_Limit ?m" using I(3) by (auto simp: inRange_def)
  have km: "if isKernelKey ?k then ?m = kernelMapping c else Mapping_Start ?m < Mapping_Limit ?m"
    using dispatch_not_kernel[of ?m env ?pm addr c] nonempty by presburger
  have ok1: "converter_ok env c1" by (rule converter_ok_resolved[OF ok r mo1 mem km])
  show ?thesis
    using u k ok1 resolved_advances[OF r] resolved_frame[OF r] resolved_length[OF r]
      resolved_index[OF r]
    by simp
qed

lemma advances_sameConfig: "advances c c1 \<Longrightarrow> sameConfig c c1"
  by (simp add: advances_def)

lemma advances_locationsOf:
  assumes "advances c c1" and "\<forall>k \<in> set ks. locationIndex c k \<noteq> None"
  shows "locationsOf c1 ks = locationsOf c ks"
  unfolding locationsOf_def
proof (rule map_cong[OF refl])
  fix k assume "k \<in> set ks"
  with assms(2) obtain l where l: "locationIndex c k = Some l" by auto
  from advances_lookup[OF assms(1) l] l
  show "the (locationIndex c1 k) = the (locationIndex c k)" by simp
qed

lemma advances_dom:
  "advances c c1 \<Longrightarrow> locationIndex c k \<noteq> None \<Longrightarrow> locationIndex c1 k \<noteq> None"
  using advances_lookup by fastforce

lemma advances_length:
  "advances c c1 \<Longrightarrow> length (Profile_Location (result c)) \<le> length (Profile_Location (result c1))"
  by (auto simp: advances_def)

lemma kernelStackLoop_ok:
  assumes ok: "converter_ok env c"
  shows "\<exists>locs' c'. kernelStackLoop c ks locs addrs = (locs', c') \<and> converter_ok env c' \<and>
      advances c c' \<and> Profile_Sample (result c') = Profile_Sample (result c) \<and>
      frameDrop_mapping_nil c' = frameDrop_mapping_nil c \<and>
      length (Profile_Location (result c')) \<le> length (Profile_Location (result c)) + length addrs \<and>
      locs' = locs @ locationsOf c' (kernelKeys ks addrs) \<and>
      (\<forall>k \<in> set (kernelKeys ks addrs). locationIndex c' k \<noteq> None)"
  using ok
proof (induction addrs arbitrary: c locs)
  case Nil
  then show ?case by (simp add: advances_refl locationsOf_def kernelKeys_def)
next
  case (Cons a addrs)
  let ?k = "KernelKey (kernelSymbolOf ks a)"
  obtain l c1 where a: "addKernelLocation c (kernelMapping c) ks a = (l, c1)"
    by (meson surj_pair)
  note r = addKernelLocation_resolved[OF a]
  from Cons.prems have cfg: "config_ok c" and mo: "memo_ok env c" by (simp_all add: converter_ok_def)
  have mo1: "memo_ok env c1"
    by (rule memo_ok_resolved_plain[OF mo addKernelLocation_sameMemo[OF a] r])
  have ok1: "converter_ok env c1"
    by (rule converter_ok_resolved[OF Cons.prems r mo1 config_ok_kernelMapping[OF cfg]]) simp
  from Cons.IH[OF ok1, of "locs @ [l]"] obtain locs' c' where
    loop: "kernelStackLoop c1 ks (locs @ [l]) addrs = (locs', c')"
    and ok': "converter_ok env c'" and adv: "advances c1 c'"
    and smp: "Profile_Sample (result c') = Profile_Sample (result c1)"
    and fd: "frameDrop_mapping_nil c' = frameDrop_mapping_nil c1"
    and len: "length (Profile_Location (result c')) \<le> length (Profile_Location (result c1)) + length addrs"
    and locs': "locs' = (locs @ [l]) @ locationsOf c' (kernelKeys ks addrs)"
    and dom: "\<forall>k \<in> set (kernelKeys ks addrs). locationIndex c' k \<noteq> None"
    by blast
  have l': "locationIndex c' ?k = Some l" by (rule advances_lookup[OF adv resolved_index[OF r]])
  have "kernelStackLoop c ks locs (a # addrs) = (locs', c')" using a loop by simp
  moreover have "advances c c'" using resolved_advances[OF r] adv by (rule advances_trans)
  moreover have "locs' = locs @ locationsOf c' (kernelKeys ks (a # addrs))"
    using locs' l' by (simp add: locationsOf_def kernelKeys_def)
  moreover have "\<forall>k \<in> set (kernelKeys ks (a # addrs)). locationIndex c' k \<noteq> None"
    using dom l' by (simp add: kernelKeys_def)
  moreover have "length (Profile_Location (result c')) \<le>
      length (Profile_Location (result c)) + length (a # addrs)"
    using len resolved_length[OF r] by simp
  ultimately show ?case using ok' smp fd resolved_frame[OF r] by simp
qed

lemma userKey_None: "userKey env c addr = None \<longleftrightarrow> mappingForAddr (Profile_Mapping (result c)) addr = -1"
  by (simp add: userKey_def Let_def)

lemma userKeys_Cons:
  "userKeys env c (a # addrs) =
     (case userKey env c a of None \<Rightarrow> userKeys env c addrs | Some k \<Rightarrow> k # userKeys env c addrs)"
  by (simp add: userKeys_def split: option.splits)

lemma userKeys_sameConfig:
  assumes "sameConfig c c1"
  shows "userKeys env c1 addrs = userKeys env c addrs"
proof -
  have "userKey env c1 = userKey env c" using userKey_sameConfig[OF assms] by (rule ext)
  then show ?thesis by (simp add: userKeys_def)
qed

lemma unmapped_Cons:
  "unmapped ms (a # addrs) = (if mappingForAddr ms a = -1 then a # unmapped ms addrs else unmapped ms addrs)"
  by (simp add: unmapped_def)

lemma userStackLoop_ok:
  assumes ok: "converter_ok env c"
  shows "\<exists>locs' c'. userStackLoop env c locs addrs = Inr (locs', c') \<and> converter_ok env c' \<and>
      advances c c' \<and> Profile_Sample (result c') = Profile_Sample (result c) \<and>
      frameDrop_mapping_nil c' =
        frameDrop_mapping_nil c + length (unmapped (Profile_Mapping (result c)) addrs) \<and>
      length (Profile_Location (result c')) \<le> length (Profile_Location (result c)) + length addrs \<and>
      locs' = locs @ locationsOf c' (userKeys env c addrs) \<and>
      (\<forall>k \<in> set (userKeys env c addrs). locationIndex c' k \<noteq> None)"
  using ok
proof (induction addrs arbitrary: c locs)
  case Nil
  then show ?case by (simp add: advances_refl locationsOf_def userKeys_def unmapped_def)
next
  case (Cons a addrs)
  from userFrame_ok[OF Cons.prems, of locs a] obtain locs1 c1 where
    u: "userFrame env c locs a = Inr (locs1, c1)" and ok1: "converter_ok env c1"
    and adv1: "advances c c1" and smp1: "Profile_Sample (result c1) = Profile_Sample (result c)"
    and len1: "length (Profile_Location (result c1)) \<le> Suc (length (Profile_Location (result c)))"
    and key: "case userKey env c a of
         None \<Rightarrow> locs1 = locs \<and> frameDrop_mapping_nil c1 = Suc (frameDrop_mapping_nil c)
       | Some k \<Rightarrow> frameDrop_mapping_nil c1 = frameDrop_mapping_nil c \<and>
                  (\<exists>l. locs1 = locs @ [l] \<and> locationIndex c1 k = Some l)"
    by blast
  note sc = advances_sameConfig[OF adv1]
  have pm: "Profile_Mapping (result c1) = Profile_Mapping (result c)"
    using sc by (simp add: sameConfig_def)
  from Cons.IH[OF ok1, of locs1] obtain locs' c' where
    loop: "userStackLoop env c1 locs1 addrs = Inr (locs', c')"
    and ok': "converter_ok env c'" and adv: "advances c1 c'"
    and smp: "Profile_Sample (result c') = Profile_Sample (result c1)"
    and fd: "frameDrop_mapping_nil c' =
        frameDrop_mapping_nil c1 + length (unmapped (Profile_Mapping (result c)) addrs)"
    and len: "length (Profile_Location (result c')) \<le> length (Profile_Location (result c1)) + length addrs"
    and locs': "locs' = locs1 @ locationsOf c' (userKeys env c addrs)"
    and dom: "\<forall>k \<in> set (userKeys env c addrs). locationIndex c' k \<noteq> None"
    unfolding pm userKeys_sameConfig[OF sc] by blast
  have run: "userStackLoop env c locs (a # addrs) = Inr (locs', c')" using u loop by simp
  have adv': "advances c c'" using adv1 adv by (rule advances_trans)
  have len': "length (Profile_Location (result c')) \<le>
      length (Profile_Location (result c)) + length (a # addrs)"
    using len len1 by simp
  show ?case
  proof (cases "userKey env c a")
    case None
    then have un: "mappingForAddr (Profile_Mapping (result c)) a = -1" by (simp add: userKey_None)
    from key None have "locs1 = locs" "frameDrop_mapping_nil c1 = Suc (frameDrop_mapping_nil c)"
      by simp_all
    then show ?thesis
      using run ok' adv' smp smp1 fd len' locs' dom None un
      by (simp add: userKeys_Cons unmapped_Cons)
  next
    case (Some k)
    then have un: "mappingForAddr (Profile_Mapping (result c)) a \<noteq> -1"
      using userKey_None[of env c a] by simp
    from key Some obtain l where fd1: "frameDrop_mapping_nil c1 = frameDrop_mapping_nil c"
      and l1: "locs1 = locs @ [l]" and lk: "locationIndex c1 k = Some l"
      by auto
    have l': "locationIndex c' k = Some l" by (rule advances_lookup[OF adv lk])
    show ?thesis
      using run ok' adv' smp smp1 fd fd1 len' locs' dom Some un l1 l'
      by (simp add: userKeys_Cons unmapped_Cons locationsOf_def)
  qed
qed

lemma sampleKeys_eq:
  "sampleKeys env c ks s =
     kernelKeys ks (RawSample_KernelStack s) @ userKeys env c (RawSample_UserStack s)"
  by (simp add: sampleKeys_def kernelKeys_def userKeys_def)

lemma sampleKeys_sameConfig:
  "sameConfig c c1 \<Longrightarrow> sampleKeys env c1 ks s = sampleKeys env c ks s"
  by (simp add: sampleKeys_eq userKeys_sameConfig)

lemma locationsOf_subset:
  assumes "index_ok c" and "\<forall>k \<in> set ks. locationIndex c k \<noteq> None"
  shows "set (locationsOf c ks) \<subseteq> set (Profile_Location (result c))"
proof
  fix l assume "l \<in> set (locationsOf c ks)"
  then obtain k where k: "k \<in> set ks" and l: "l = the (locationIndex c k)"
    by (auto simp: locationsOf_def)
  with assms(2) have "locationIndex c k = Some l" by auto
  with assms(1) show "l \<in> set (Profile_Location (result c))" by (auto simp: index_ok_def)
qed

lemma converter_ok_addSample:
  assumes ok: "converter_ok env c"
    and sub: "set (Sample_Location s) \<subseteq> set (Profile_Location (result c))"
  shows "converter_ok env (c\<lparr>result := (result c)\<lparr>Profile_Sample := Profile_Sample (result c) @ [s]\<rparr>\<rparr>)"
proof -
  let ?c = "c\<lparr>result := (result c)\<lparr>Profile_Sample := Profile_Sample (result c) @ [s]\<rparr>\<rparr>"
  have li: "locationIndex ?c = locationIndex c" by (rule locationIndex_cong) simp_all
  have fl: "\<And>k l. filed ?c k l = filed c k l" by (simp add: filed_def)
  from ok have "memo_ok env ?c" by (simp add: converter_ok_def memo_ok_def)
  moreover from ok have "config_ok ?c" by (simp add: converter_ok_def config_ok_def)
  moreover from ok sub have "tables_ok ?c" by (simp add: converter_ok_def tables_ok_def)
  moreover from ok have "index_ok ?c" by (simp add: converter_ok_def index_ok_def li fl)
  ultimately show ?thesis by (simp add: converter_ok_def)
qed

lemma convertSample_ok:
  assumes ok: "converter_ok env c"
  shows "\<exists>c'. convertSample env c ks sample = Inr c' \<and> converter_ok env c' \<and> advances c c' \<and>
      frameDrop_mapping_nil c' =
        frameDrop_mapping_nil c +
        length (unmapped (Profile_Mapping (result c)) (RawSample_UserStack sample)) \<and>
      length (Profile_Location (result c')) \<le>
        length (Profile_Location (result c)) +
        (length (RawSample_KernelStack sample) + length (RawSample_UserStack sample)) \<and>
      Profile_Sample (result c') = Profile_Sample (result c) @ [convertedSample env c ks c' sample] \<and>
      (\<forall>k \<in> set (sampleKeys env c ks sample). locationIndex c' k \<noteq> None)"
proof -
  from kernelStackLoop_ok[OF ok, of ks "[]" "RawSample_KernelStack sample"]
  obtain locs1 c1 where
    kl: "kernelStackLoop c ks [] (RawSample_KernelStack sample) = (locs1, c1)"
    and ok1: "converter_ok env c1" and adv1: "advances c c1"
    and smp1: "Profile_Sample (result c1) = Profile_Sample (result c)"
    and fd1: "frameDrop_mapping_nil c1 = frameDrop_mapping_nil c"
    and len1: "length (Profile_Location (result c1)) \<le>
        length (Profile_Location (result c)) + length (RawSample_KernelStack sample)"
    and locs1: "locs1 = [] @ locationsOf c1 (kernelKeys ks (RawSample_KernelStack sample))"
    and dom1: "\<forall>k \<in> set (kernelKeys ks (RawSample_KernelStack sample)). locationIndex c1 k \<noteq> None"
    by blast
  note sc1 = advances_sameConfig[OF adv1]
  have pm1: "Profile_Mapping (result c1) = Profile_Mapping (result c)"
    using sc1 by (simp add: sameConfig_def)
  from userStackLoop_ok[OF ok1, of locs1 "RawSample_UserStack sample"]
  obtain locs2 c2 where
    ul: "userStackLoop env c1 locs1 (RawSample_UserStack sample) = Inr (locs2, c2)"
    and ok2: "converter_ok env c2" and adv2: "advances c1 c2"
    and smp2: "Profile_Sample (result c2) = Profile_Sample (result c1)"
    and fd2: "frameDrop_mapping_nil c2 =
        frameDrop_mapping_nil c1 +
        length (unmapped (Profile_Mapping (result c)) (RawSample_UserStack sample))"
    and len2: "length (Profile_Location (result c2)) \<le>
        length (Profile_Location (result c1)) + length (RawSample_UserStack sample)"
    and locs2: "locs2 = locs1 @ locationsOf c2 (userKeys env c (RawSample_UserStack sample))"
    and dom2: "\<forall>k \<in> set (userKeys env c (RawSample_UserStack sample)). locationIndex c2 k \<noteq> None"
    unfolding pm1 userKeys_sameConfig[OF sc1] by blast
  let ?s = "\<lparr>Sample_Value = [int64_of_uint64 (RawSample_Value sample)], Sample_Location = locs2\<rparr>"
  let ?c' = "c2\<lparr>result := (result c2)\<lparr>Profile_Sample := Profile_Sample (result c2) @ [?s]\<rparr>\<rparr>"
  have run: "convertSample env c ks sample = Inr ?c'"
    using kl ul by (simp add: convertSample_def)
  have lig: "locationIndex (c2\<lparr>result := (result c2)\<lparr>Profile_Sample := x\<rparr>\<rparr>) = locationIndex c2" for x
    by (rule locationIndex_cong) simp_all
  have li: "locationIndex ?c' = locationIndex c2" by (rule lig)
  have dom: "\<forall>k \<in> set (sampleKeys env c ks sample). locationIndex c2 k \<noteq> None"
    using dom1 dom2 advances_dom[OF adv2] by (auto simp: sampleKeys_eq)
  have l2: "locs2 = locationsOf c2 (sampleKeys env c ks sample)"
    using locs1 locs2 advances_locationsOf[OF adv2 dom1]
    by (simp add: sampleKeys_eq locationsOf_def)
  from ok2 have io2: "index_ok c2" by (simp add: converter_ok_def)
  have sub: "set (Sample_Location ?s) \<subseteq> set (Profile_Location (result c2))"
    using locationsOf_subset[OF io2 dom] l2 by simp
  have ok': "converter_ok env ?c'" by (rule converter_ok_addSample[OF ok2 sub])
  have a2: "advances c2 ?c'" by (simp add: advances_def sameConfig_def li)
  have adv: "advances c ?c'" using adv1 adv2 a2 advances_trans by blast
  have cs: "convertedSample env c ks ?c' sample = ?s"
    using l2 by (simp add: convertedSample_def locationsOf_def lig)
  have smp: "Profile_Sample (result ?c') = Profile_Sample (result c) @ [convertedSample env c ks ?c' sample]"
    unfolding cs using smp1 smp2 by simp
  have "frameDrop_mapping_nil ?c' =
        frameDrop_mapping_nil c +
        length (unmapped (Profile_Mapping (result c)) (RawSample_UserStack sample))"
    using fd1 fd2 by simp
  moreover have "length (Profile_Location (result ?c')) \<le>
        length (Profile_Location (result c)) +
        (length (RawSample_KernelStack sample) + length (RawSample_UserStack sample))"
    using len1 len2 by simp
  moreover have "\<forall>k \<in> set (sampleKeys env c ks sample). locationIndex ?c' k \<noteq> None"
    using dom by (simp add: li)
  ultimately show ?thesis using run ok' adv smp by blast
qed

lemma advances_convertedSample:
  assumes "advances c1 c'" and "\<forall>k \<in> set (sampleKeys env c ks s). locationIndex c1 k \<noteq> None"
  shows "convertedSample env c ks c' s = convertedSample env c ks c1 s"
  using advances_locationsOf[OF assms] by (simp add: convertedSample_def)

lemma samplesLoop_ok:
  assumes ok: "converter_ok env c"
  shows "\<exists>c'. samplesLoop env c ks rawData = Inr c' \<and> converter_ok env c' \<and> advances c c' \<and>
      frameDrop_mapping_nil c' = frameDrop_mapping_nil c + droppedFrames c rawData \<and>
      length (Profile_Location (result c')) \<le>
        length (Profile_Location (result c)) + frameCount rawData \<and>
      Profile_Sample (result c') =
        Profile_Sample (result c) @ map (convertedSample env c ks c') rawData \<and>
      (\<forall>s \<in> set rawData. \<forall>k \<in> set (sampleKeys env c ks s). locationIndex c' k \<noteq> None)"
  using ok
proof (induction rawData arbitrary: c)
  case Nil
  then show ?case by (simp add: advances_refl droppedFrames_def frameCount_def)
next
  case (Cons s rawData)
  from convertSample_ok[OF Cons.prems, of ks s] obtain c1 where
    cs: "convertSample env c ks s = Inr c1" and ok1: "converter_ok env c1"
    and adv1: "advances c c1"
    and fd1: "frameDrop_mapping_nil c1 =
        frameDrop_mapping_nil c +
        length (unmapped (Profile_Mapping (result c)) (RawSample_UserStack s))"
    and len1: "length (Profile_Location (result c1)) \<le>
        length (Profile_Location (result c)) +
        (length (RawSample_KernelStack s) + length (RawSample_UserStack s))"
    and smp1: "Profile_Sample (result c1) = Profile_Sample (result c) @ [convertedSample env c ks c1 s]"
    and dom1: "\<forall>k \<in> set (sampleKeys env c ks s). locationIndex c1 k \<noteq> None"
    by blast
  note sc1 = advances_sameConfig[OF adv1]
  have pm1: "Profile_Mapping (result c1) = Profile_Mapping (result c)"
    using sc1 by (simp add: sameConfig_def)
  have df: "droppedFrames c1 rawData = droppedFrames c rawData"
    by (simp add: droppedFrames_def pm1)
  have sk: "\<And>s'. sampleKeys env c1 ks s' = sampleKeys env c ks s'"
    by (rule sampleKeys_sameConfig[OF sc1])
  have cv: "\<And>c' s'. convertedSample env c1 ks c' s' = convertedSample env c ks c' s'"
    by (simp add: convertedSample_def sk)
  from Cons.IH[OF ok1] obtain c' where
    loop: "samplesLoop env c1 ks rawData = Inr c'" and ok': "converter_ok env c'"
    and adv: "advances c1 c'"
    and fd: "frameDrop_mapping_nil c' = frameDrop_mapping_nil c1 + droppedFrames c rawData"
    and len: "length (Profile_Location (result c')) \<le>
        length (Profile_Location (result c1)) + frameCount rawData"
    and smp: "Profile_Sample (result c') =
        Profile_Sample (result c1) @ map (convertedSample env c ks c') rawData"
    and dom: "\<forall>s \<in> set rawData. \<forall>k \<in> set (sampleKeys env c ks s). locationIndex c' k \<noteq> None"
    unfolding df sk cv by blast
  have run: "samplesLoop env c ks (s # rawData) = Inr c'" using cs loop by simp
  have adv': "advances c c'" using adv1 adv by (rule advances_trans)
  have first: "convertedSample env c ks c' s = convertedSample env c ks c1 s"
    by (rule advances_convertedSample[OF adv dom1])
  have smp': "Profile_Sample (result c') =
        Profile_Sample (result c) @ map (convertedSample env c ks c') (s # rawData)"
    using smp smp1 first by simp
  have fd': "frameDrop_mapping_nil c' = frameDrop_mapping_nil c + droppedFrames c (s # rawData)"
    using fd fd1 by (simp add: droppedFrames_def)
  have len': "length (Profile_Location (result c')) \<le>
        length (Profile_Location (result c)) + frameCount (s # rawData)"
    using len len1 by (simp add: frameCount_def)
  have dom': "\<forall>s' \<in> set (s # rawData). \<forall>k \<in> set (sampleKeys env c ks s'). locationIndex c' k \<noteq> None"
    using dom dom1 advances_dom[OF adv] by auto
  show ?case using run ok' adv' fd' len' smp' dom' by blast
qed

lemma Convert_ok:
  assumes ok: "converter_ok env c"
  shows "\<exists>c'. Convert env c rawData = Inr ((result c', None), c') \<and> converter_ok env c' \<and>
      advances c c' \<and>
      frameDrop_mapping_nil c' = frameDrop_mapping_nil c + droppedFrames c rawData \<and>
      length (Profile_Location (result c')) \<le>
        length (Profile_Location (result c)) + frameCount rawData \<and>
      Profile_Sample (result c') =
        Profile_Sample (result c) @
        map (convertedSample env c (resolveKernelSymbols env rawData) c') rawData \<and>
      (\<forall>s \<in> set rawData. \<forall>k \<in> set (sampleKeys env c (resolveKernelSymbols env rawData) s).
         locationIndex c' k \<noteq> None)"
proof -
  from samplesLoop_ok[OF ok, of "resolveKernelSymbols env rawData" rawData] obtain c' where
    loop: "samplesLoop env c (resolveKernelSymbols env rawData) rawData = Inr c'"
    and rest: "converter_ok env c' \<and> advances c c' \<and>
      frameDrop_mapping_nil c' = frameDrop_mapping_nil c + droppedFrames c rawData \<and>
      length (Profile_Location (result c')) \<le>
        length (Profile_Location (result c)) + frameCount rawData \<and>
      Profile_Sample (result c') =
        Profile_Sample (result c) @
        map (convertedSample env c (resolveKernelSymbols env rawData) c') rawData \<and>
      (\<forall>s \<in> set rawData. \<forall>k \<in> set (sampleKeys env c (resolveKernelSymbols env rawData) s).
         locationIndex c' k \<noteq> None)"
    by blast
  have "Convert env c rawData = Inr ((result c', None), c')"
    using loop by (simp add: Convert_def Let_def)
  with rest show ?thesis by blast
qed

lemma length_ConvertToPprof: "length (ConvertToPprof ms) = length ms"
  by (simp add: ConvertToPprof_def)

lemma NewConverter_fields:
  "mappings (NewConverter n d p ms t now per) = ms"
  "kernelMapping (NewConverter n d p ms t now per) =
     \<lparr>Mapping_ID = of_nat (length ms) + 1, Mapping_Start = 0, Mapping_Limit = 0,
      Mapping_Offset = 0, Mapping_File = ''[kernel.kallsyms]'', Mapping_BuildID = []\<rparr>"
  "Profile_Mapping (result (NewConverter n d p ms t now per)) =
     ConvertToPprof ms @ [kernelMapping (NewConverter n d p ms t now per)]"
  "Profile_Location (result (NewConverter n d p ms t now per)) = []"
  "Profile_Function (result (NewConverter n d p ms t now per)) = []"
  "Profile_Sample (result (NewConverter n d p ms t now per)) = []"
  "frameDrop_mapping_nil (NewConverter n d p ms t now per) = n"
  "Profile_DurationNanos (result (NewConverter n d p ms t now per)) = time_Since now t"
  "Profile_TimeNanos (result (NewConverter n d p ms t now per)) = t"
  "locationIndex (NewConverter n d p ms t now per) k = None"
  "functionIndex (NewConverter n d p ms t now per) = Map.empty"
  "pid (NewConverter n d p ms t now per) = p"
  "disableJITSymbolization (NewConverter n d p ms t now per) = d"
  by (cases k; simp add: NewConverter_def Let_def length_ConvertToPprof)+

lemma NewConverter_ok: "converter_ok env (NewConverter n d p ms t now per)"
proof -
  let ?c = "NewConverter n d p ms t now per"
  have "memo_ok env ?c" by (simp add: memo_ok_def NewConverter_def Let_def)
  moreover have "config_ok ?c"
    by (simp add: config_ok_def NewConverter_fields length_ConvertToPprof)
  moreover have "tables_ok ?c" by (simp add: tables_ok_def NewConverter_fields)
  moreover have "index_ok ?c" by (simp add: index_ok_def NewConverter_fields)
  ultimately show ?thesis by (simp add: converter_ok_def)
qed

section \<open>pkg/debuginfo: the should-initiate check\<close>

text \<open>
  Claim C7. \<open>shouldInitiate\<close> returns false, and sends nothing, when the build id is in
  the should-initiate cache. On a miss it sends one \<open>ShouldInitiateUpload\<close>; if the
  answer is not to initiate it puts the build id into the cache (so that, with caching
  enabled, the build id is present afterwards) and returns false; if the answer is to
  initiate it returns true; and if the call fails it returns true. In the last two cases
  the cache is left as it was.
\<close>

theorem shouldInitiate_spec:
  "(GetIfPresent (shouldInitiateCache di) buildID \<noteq> None \<longrightarrow>
      shouldInitiate w di buildID filepath = (False, di)) \<and>
   (GetIfPresent (shouldInitiateCache di) buildID = None \<longrightarrow>
      sent (snd (shouldInitiate w di buildID filepath)) = sent di @ [Call_ShouldInitiateUpload buildID] \<and>
      (ShouldInitiateUpload w buildID = Inr False \<longrightarrow>
         fst (shouldInitiate w di buildID filepath) = False \<and>
         shouldInitiateCache (snd (shouldInitiate w di buildID filepath)) =
           Put (shouldInitiateCache di) buildID () \<and>
         (shouldInitiateCache di \<noteq> NoopCache \<longrightarrow>
            GetIfPresent (shouldInitiateCache (snd (shouldInitiate w di buildID filepath))) buildID = Some ())) \<and>
      (ShouldInitiateUpload w buildID = Inr True \<longrightarrow>
         fst (shouldInitiate w di buildID filepath) = True \<and>
         shouldInitiateCache (snd (shouldInitiate w di buildID filepath)) = shouldInitiateCache di) \<and>
      (\<forall>err. ShouldInitiateUpload w buildID = Inl err \<longrightarrow>
         fst (shouldInitiate w di buildID filepath) = True \<and>
         shouldInitiateCache (snd (shouldInitiate w di buildID filepath)) = shouldInitiateCache di))"
proof -
  have put: "shouldInitiateCache di \<noteq> NoopCache \<Longrightarrow>
      GetIfPresent (Put (shouldInitiateCache di) buildID ()) buildID = Some ()"
    by (cases "shouldInitiateCache di") simp_all
  show ?thesis
    using put by (auto simp: shouldInitiate_def Let_def split: option.splits sum.splits)
qed

theorem shouldInitiate_spec_witness:
  "shouldInitiate exampleWorld exampleManager ''known'' ''/bin/a'' =
     (False, exampleManager\<lparr>sent := [Call_ShouldInitiateUpload ''known''],
                             shouldInitiateCache := BurrowCache [''known'' \<mapsto> ()]\<rparr>) \<and>
   fst (shouldInitiate exampleWorld exampleManager ''new'' ''/bin/a'') = True \<and>
   fst (shouldInitiate exampleWorld exampleManager ''other'' ''/bin/a'') = True \<and>
   shouldInitiate exampleWorld
     (exampleManager\<lparr>shouldInitiateCache := BurrowCache [''known'' \<mapsto> ()]\<rparr>) ''known'' ''/bin/a'' =
     (False, exampleManager\<lparr>shouldInitiateCache := BurrowCache [''known'' \<mapsto> ()]\<rparr>)"
proof -
  have a: "ShouldInitiateUpload exampleWorld ''known'' = Inr False"
    and b: "ShouldInitiateUpload exampleWorld ''new'' = Inr True"
    and c: "ShouldInitiateUpload exampleWorld ''other'' = Inl (Errorf ''unavailable'')"
    by (simp_all add: exampleWorld_def)
  have m: "GetIfPresent (shouldInitiateCache exampleManager) k = None" for k
    by (simp add: exampleManager_def)
  have h: "GetIfPresent (shouldInitiateCache
             (exampleManager\<lparr>shouldInitiateCache := BurrowCache [''known'' \<mapsto> ()]\<rparr>)) ''known'' \<noteq> None"
    by simp
  note s1 = shouldInitiate_spec[of exampleManager "''known''" exampleWorld "''/bin/a''"]
  note s2 = shouldInitiate_spec[of exampleManager "''new''" exampleWorld "''/bin/a''"]
  note s3 = shouldInitiate_spec[of exampleManager "''other''" exampleWorld "''/bin/a''"]
  note s4 = shouldInitiate_spec[of "exampleManager\<lparr>shouldInitiateCache := BurrowCache [''known'' \<mapsto> ()]\<rparr>"
               "''known''" exampleWorld "''/bin/a''"]
  have r1: "shouldInitiate exampleWorld exampleManager ''known'' ''/bin/a'' =
     (False, exampleManager\<lparr>sent := [Call_ShouldInitiateUpload ''known''],
                             shouldInitiateCache := BurrowCache [''known'' \<mapsto> ()]\<rparr>)"
    by (simp add: shouldInitiate_def Let_def a m) (simp add: exampleManager_def)
  show ?thesis using s1 s2 s3 s4 a b c m h r1 by simp
qed

section \<open>pkg/vdso: the probed paths\<close>

lemma probe_first_opens:
  "objFilePool_Open w (''/usr/lib/modules/'' @ release @ ''/vdso/vdso.so'') = Inr o1 \<Longrightarrow>
   probe w release =
     \<lparr>ps_obj = Some o1, ps_merr = [],
      ps_path = ''/usr/lib/modules/'' @ release @ ''/vdso/vdso.so'',
      ps_opened = [''/usr/lib/modules/'' @ release @ ''/vdso/vdso.so'']\<rparr>"
  by (simp add: probe_def Let_def)

lemma probe_second_opens:
  "objFilePool_Open w (''/usr/lib/modules/'' @ release @ ''/vdso/vdso.so'') = Inl e1 \<Longrightarrow>
   objFilePool_Open w (''/usr/lib/modules/'' @ release @ ''/vdso/vdso64.so'') = Inr o2 \<Longrightarrow>
   probe w release =
     \<lparr>ps_obj = Some o2,
      ps_merr = [Wrapped (''failed to open elf file: '' @ ''/usr/lib/modules/'' @ release @ ''/vdso/vdso.so'' @ '', err'') e1],
      ps_path = ''/usr/lib/modules/'' @ release @ ''/vdso/vdso64.so'',
      ps_opened = [''/usr/lib/modules/'' @ release @ ''/vdso/vdso.so'',
                   ''/usr/lib/modules/'' @ release @ ''/vdso/vdso64.so'']\<rparr>"
  by (simp add: probe_def Let_def)

lemma probe_none_opens:
  "objFilePool_Open w (''/usr/lib/modules/'' @ release @ ''/vdso/vdso.so'') = Inl e1 \<Longrightarrow>
   objFilePool_Open w (''/usr/lib/modules/'' @ release @ ''/vdso/vdso64.so'') = Inl e2 \<Longrightarrow>
   probe w release =
     \<lparr>ps_obj = None,
      ps_merr = [Wrapped (''failed to open elf file: '' @ ''/usr/lib/modules/'' @ release @ ''/vdso/vdso.so'' @ '', err'') e1,
                 Wrapped (''failed to open elf file: '' @ ''/usr/lib/modules/'' @ release @ ''/vdso/vdso64.so'' @ '', err'') e2],
      ps_path = ''/usr/lib/modules/'' @ release @ ''/vdso/vdso64.so'',
      ps_opened = [''/usr/lib/modules/'' @ release @ ''/vdso/vdso.so'',
                   ''/usr/lib/modules/'' @ release @ ''/vdso/vdso64.so'']\<rparr>"
  by (simp add: probe_def Let_def)

lemma NewCache_isl:
  "metadata_KernelRelease w = Inr release \<Longrightarrow>
   isl (NewCache w) \<longleftrightarrow>
          ps_obj (probe w release) = None \<or>
          (\<exists>ob. ps_obj (probe w release) = Some ob \<and>
                (isl (ELF w ob) \<or> (\<exists>ef. ELF w ob = Inr ef \<and> isl (DynamicSymbols ef))))"
  by (auto simp: NewCache_def Let_def split: sum.splits option.splits)

lemma NewCache_f:
  "metadata_KernelRelease w = Inr release \<Longrightarrow> NewCache w = Inr cache \<Longrightarrow>
   Cache_f cache = ps_path (probe w release)"
  by (auto simp: NewCache_def Let_def split: sum.splits option.splits)

lemma NewCache_no_release:
  "metadata_KernelRelease w = Inl e \<Longrightarrow> NewCache w = Inl [e]"
  by (simp add: NewCache_def)

text \<open>
  Claim C9, as the code has it. When the kernel release cannot be read, \<open>NewCache\<close>
  fails with that error. With the kernel release \<open>release\<close>, it hands the pool
  \<open>/usr/lib/modules/release/vdso/vdso.so\<close> first and, only if that does not open,
  \<open>/usr/lib/modules/release/vdso/vdso64.so\<close>; it uses the first of the two that opens;
  the probing leaves no object file exactly when neither opens. Construction then fails
  exactly when no candidate opens or the opened file has no ELF view or no dynamic symbols;
  a cache that is returned records the path of the file used.
\<close>

theorem NewCache_probes:
  "(\<forall>e. metadata_KernelRelease w = Inl e \<longrightarrow> NewCache w = Inl [e]) \<and>
   (\<forall>release. metadata_KernelRelease w = Inr release \<longrightarrow>
     (let p1 = ''/usr/lib/modules/'' @ release @ ''/vdso/vdso.so'';
          p2 = ''/usr/lib/modules/'' @ release @ ''/vdso/vdso64.so'';
          st = probe w release
      in ps_opened st = (if isl (objFilePool_Open w p1) then [p1, p2] else [p1]) \<and>
         (ps_obj st = None \<longleftrightarrow> isl (objFilePool_Open w p1) \<and> isl (objFilePool_Open w p2)) \<and>
         (\<forall>o1. objFilePool_Open w p1 = Inr o1 \<longrightarrow> ps_obj st = Some o1 \<and> ps_path st = p1) \<and>
         (\<forall>o2. isl (objFilePool_Open w p1) \<and> objFilePool_Open w p2 = Inr o2 \<longrightarrow>
               ps_obj st = Some o2 \<and> ps_path st = p2) \<and>
         (isl (NewCache w) \<longleftrightarrow>
            ps_obj st = None \<or>
            (\<exists>ob. ps_obj st = Some ob \<and>
                  (isl (ELF w ob) \<or> (\<exists>ef. ELF w ob = Inr ef \<and> isl (DynamicSymbols ef))))) \<and>
         (\<forall>cache. NewCache w = Inr cache \<longrightarrow> Cache_f cache = ps_path st)))"
proof (intro conjI allI impI)
  fix e assume "metadata_KernelRelease w = Inl e"
  then show "NewCache w = Inl [e]" by (rule NewCache_no_release)
next
  fix release
  assume r: "metadata_KernelRelease w = Inr release"
  define p1 where "p1 = ''/usr/lib/modules/'' @ release @ ''/vdso/vdso.so''"
  define p2 where "p2 = ''/usr/lib/modules/'' @ release @ ''/vdso/vdso64.so''"
  have opened: "ps_opened (probe w release) = (if isl (objFilePool_Open w p1) then [p1, p2] else [p1])"
    and none: "ps_obj (probe w release) = None \<longleftrightarrow> isl (objFilePool_Open w p1) \<and> isl (objFilePool_Open w p2)"
    and first: "\<And>o1. objFilePool_Open w p1 = Inr o1 \<Longrightarrow>
                  ps_obj (probe w release) = Some o1 \<and> ps_path (probe w release) = p1"
    and second: "\<And>o2. isl (objFilePool_Open w p1) \<Longrightarrow> objFilePool_Open w p2 = Inr o2 \<Longrightarrow>
                  ps_obj (probe w release) = Some o2 \<and> ps_path (probe w release) = p2"
  proof -
    show "ps_opened (probe w release) = (if isl (objFilePool_Open w p1) then [p1, p2] else [p1])"
    proof (cases "objFilePool_Open w p1")
      case (Inr o1)
      then show ?thesis using probe_first_opens[of w release o1] by (simp add: p1_def)
    next
      case (Inl e1)
      show ?thesis
      proof (cases "objFilePool_Open w p2")
        case (Inr o2)
        then show ?thesis using Inl probe_second_opens[of w release e1 o2] by (simp add: p1_def p2_def)
      next
        case Inl2: (Inl e2)
        then show ?thesis using Inl probe_none_opens[of w release e1 e2] by (simp add: p1_def p2_def)
      qed
    qed
    show "ps_obj (probe w release) = None \<longleftrightarrow> isl (objFilePool_Open w p1) \<and> isl (objFilePool_Open w p2)"
    proof (cases "objFilePool_Open w p1")
      case (Inr o1)
      then show ?thesis using probe_first_opens[of w release o1] by (simp add: p1_def)
    next
      case (Inl e1)
      show ?thesis
      proof (cases "objFilePool_Open w p2")
        case (Inr o2)
        then show ?thesis using Inl probe_second_opens[of w release e1 o2] by (simp add: p1_def p2_def)
      next
        case Inl2: (Inl e2)
        then show ?thesis using Inl probe_none_opens[of w release e1 e2] by (simp add: p1_def p2_def)
      qed
    qed
    show "ps_obj (probe w release) = Some o1 \<and> ps_path (probe w release) = p1"
      if "objFilePool_Open w p1 = Inr o1" for o1
      using that probe_first_opens[of w release o1] by (simp add: p1_def)
    show "ps_obj (probe w release) = Some o2 \<and> ps_path (probe w release) = p2"
      if "isl (objFilePool_Open w p1)" "objFilePool_Open w p2 = Inr o2" for o2
    proof -
      from that(1) obtain e1 where "objFilePool_Open w p1 = Inl e1"
        by (cases "objFilePool_Open w p1") auto
      then show ?thesis using that(2) probe_second_opens[of w release e1 o2] by (simp add: p1_def p2_def)
    qed
  qed
  show "let p1 = ''/usr/lib/modules/'' @ release @ ''/vdso/vdso.so'';
          p2 = ''/usr/lib/modules/'' @ release @ ''/vdso/vdso64.so'';
          st = probe w release
      in ps_opened st = (if isl (objFilePool_Open w p1) then [p1, p2] else [p1]) \<and>
         (ps_obj st = None \<longleftrightarrow> isl (objFilePool_Open w p1) \<and> isl (objFilePool_Open w p2)) \<and>
         (\<forall>o1. objFilePool_Open w p1 = Inr o1 \<longrightarrow> ps_obj st = Some o1 \<and> ps_path st = p1) \<and>
         (\<forall>o2. isl (objFilePool_Open w p1) \<and> objFilePool_Open w p2 = Inr o2 \<longrightarrow>
               ps_obj st = Some o2 \<and> ps_path st = p2) \<and>
         (isl (NewCache w) \<longleftrightarrow>
            ps_obj st = None \<or>
            (\<exists>ob. ps_obj st = Some ob \<and>
                  (isl (ELF w ob) \<or> (\<exists>ef. ELF w ob = Inr ef \<and> isl (DynamicSymbols ef))))) \<and>
         (\<forall>cache. NewCache w = Inr cache \<longrightarrow> Cache_f cache = ps_path st)"
    unfolding Let_def p1_def[symmetric] p2_def[symmetric]
    using opened none first second NewCache_isl[OF r] NewCache_f[OF r] by blast
qed

lemma exampleWorld_opens:
  "objFilePool_Open exampleWorld ''/usr/lib/modules/6.1/vdso/vdso.so'' = Inl (Errorf ''no such file'')"
  "objFilePool_Open exampleWorld ''/usr/lib/modules/6.1/vdso/vdso64.so'' =
               Inr (ObjectFile ''/usr/lib/modules/6.1/vdso/vdso64.so'' ''vdso'' 0 0 None)"
  "metadata_KernelRelease exampleWorld = Inr ''6.1''"
  "ELF exampleWorld ob = Inr (ElfFile [''.text''] (Inr []))"
  by (simp_all add: exampleWorld_def)

lemma noReleaseWorld_release:
  "metadata_KernelRelease noReleaseWorld = Inl (Errorf ''uname failed'')"
  by (simp add: noReleaseWorld_def)

theorem NewCache_probes_witness:
  "metadata_KernelRelease exampleWorld = Inr ''6.1'' \<and>
   ps_opened (probe exampleWorld ''6.1'') =
     [''/usr/lib/modules/6.1/vdso/vdso.so'', ''/usr/lib/modules/6.1/vdso/vdso64.so''] \<and>
   ps_obj (probe exampleWorld ''6.1'') =
     Some (ObjectFile ''/usr/lib/modules/6.1/vdso/vdso64.so'' ''vdso'' 0 0 None) \<and>
   \<not> isl (NewCache exampleWorld) \<and>
   metadata_KernelRelease noReleaseWorld = Inl (Errorf ''uname failed'') \<and>
   NewCache noReleaseWorld = Inl [Errorf ''uname failed'']"
proof -
  have a: "ps_opened (probe exampleWorld ''6.1'') =
     [''/usr/lib/modules/6.1/vdso/vdso.so'', ''/usr/lib/modules/6.1/vdso/vdso64.so''] \<and>
   ps_obj (probe exampleWorld ''6.1'') =
     Some (ObjectFile ''/usr/lib/modules/6.1/vdso/vdso64.so'' ''vdso'' 0 0 None) \<and>
   \<not> isl (NewCache exampleWorld)"
    using NewCache_probes[of exampleWorld, THEN conjunct2, rule_format, OF exampleWorld_opens(3)]
      exampleWorld_opens
    by (simp add: Let_def)
  have b: "NewCache noReleaseWorld = Inl [Errorf ''uname failed'']"
    using NewCache_probes[of noReleaseWorld, THEN conjunct1, rule_format, OF noReleaseWorld_release] .
  show ?thesis using a b exampleWorld_opens(3) noReleaseWorld_release by (intro conjI) simp_all
qed

lemma flatVdsoWorld_opens:
  "objFilePool_Open flatVdsoWorld ''/usr/lib/modules/6.1/vdso/vdso.so'' = Inl (Errorf ''no such file'')"
  "objFilePool_Open flatVdsoWorld ''/usr/lib/modules/6.1/vdso/vdso64.so'' = Inl (Errorf ''no such file'')"
  "objFilePool_Open flatVdsoWorld ''/usr/lib/modules/6.1/vdso.so'' =
     Inr (ObjectFile ''/usr/lib/modules/6.1/vdso.so'' ''vdso'' 0 0 None)"
  "metadata_KernelRelease flatVdsoWorld = Inr ''6.1''"
  by (simp_all add: flatVdsoWorld_def exampleWorld_def)

lemma noElfWorld_opens:
  "objFilePool_Open noElfWorld ''/usr/lib/modules/6.1/vdso/vdso.so'' = Inl (Errorf ''no such file'')"
  "objFilePool_Open noElfWorld ''/usr/lib/modules/6.1/vdso/vdso64.so'' =
               Inr (ObjectFile ''/usr/lib/modules/6.1/vdso/vdso64.so'' ''vdso'' 0 0 None)"
  "metadata_KernelRelease noElfWorld = Inr ''6.1''"
  "ELF noElfWorld ob = Inl (Errorf ''bad ELF magic'')"
  by (simp_all add: noElfWorld_def exampleWorld_def)

text \<open>
  The claim as stated does not hold. Its paths, without the \<open>vdso\<close> directory, are not
  the ones probed: where only \<open>/usr/lib/modules/6.1/vdso.so\<close> can be opened, that path
  is never handed to the pool and construction fails. And construction does not fail only
  if neither candidate opens: where \<open>vdso64.so\<close> opens but gives no ELF view, it fails
  as well.
\<close>

theorem NewCache_as_stated_counterexample:
  "objFilePool_Open flatVdsoWorld ''/usr/lib/modules/6.1/vdso.so'' =
     Inr (ObjectFile ''/usr/lib/modules/6.1/vdso.so'' ''vdso'' 0 0 None) \<and>
   metadata_KernelRelease flatVdsoWorld = Inr ''6.1'' \<and>
   ps_opened (probe flatVdsoWorld ''6.1'') =
     [''/usr/lib/modules/6.1/vdso/vdso.so'', ''/usr/lib/modules/6.1/vdso/vdso64.so''] \<and>
   ''/usr/lib/modules/6.1/vdso.so'' \<notin> set (ps_opened (probe flatVdsoWorld ''6.1'')) \<and>
   isl (NewCache flatVdsoWorld) \<and>
   metadata_KernelRelease noElfWorld = Inr ''6.1'' \<and>
   ps_obj (probe noElfWorld ''6.1'') =
     Some (ObjectFile ''/usr/lib/modules/6.1/vdso/vdso64.so'' ''vdso'' 0 0 None) \<and>
   NewCache noElfWorld =
     Inl [Wrapped ''failed to get elf file: /usr/lib/modules/6.1/vdso/vdso64.so, err''
            (Errorf ''bad ELF magic'')]"
proof -
  have p: "probe flatVdsoWorld ''6.1'' =
     \<lparr>ps_obj = None,
      ps_merr = [Wrapped (''failed to open elf file: '' @ ''/usr/lib/modules/'' @ ''6.1'' @ ''/vdso/vdso.so'' @ '', err'') (Errorf ''no such file''),
                 Wrapped (''failed to open elf file: '' @ ''/usr/lib/modules/'' @ ''6.1'' @ ''/vdso/vdso64.so'' @ '', err'') (Errorf ''no such file'')],
      ps_path = ''/usr/lib/modules/'' @ ''6.1'' @ ''/vdso/vdso64.so'',
      ps_opened = [''/usr/lib/modules/'' @ ''6.1'' @ ''/vdso/vdso.so'',
                   ''/usr/lib/modules/'' @ ''6.1'' @ ''/vdso/vdso64.so'']\<rparr>"
    by (rule probe_none_opens) (simp_all add: flatVdsoWorld_opens)
  have n: "isl (NewCache flatVdsoWorld)"
    using NewCache_isl[OF flatVdsoWorld_opens(4)] p by simp
  have q: "probe noElfWorld ''6.1'' =
     \<lparr>ps_obj = Some (ObjectFile ''/usr/lib/modules/6.1/vdso/vdso64.so'' ''vdso'' 0 0 None),
      ps_merr = [Wrapped (''failed to open elf file: '' @ ''/usr/lib/modules/'' @ ''6.1'' @ ''/vdso/vdso.so'' @ '', err'') (Errorf ''no such file'')],
      ps_path = ''/usr/lib/modules/'' @ ''6.1'' @ ''/vdso/vdso64.so'',
      ps_opened = [''/usr/lib/modules/'' @ ''6.1'' @ ''/vdso/vdso.so'',
                   ''/usr/lib/modules/'' @ ''6.1'' @ ''/vdso/vdso64.so'']\<rparr>"
    by (rule probe_second_opens) (simp_all add: noElfWorld_opens)
  have e: "NewCache noElfWorld =
     Inl [Wrapped ''failed to get elf file: /usr/lib/modules/6.1/vdso/vdso64.so, err''
            (Errorf ''bad ELF magic'')]"
    by (simp add: NewCache_def noElfWorld_opens q)
  have o: "ps_obj (probe noElfWorld ''6.1'') =
     Some (ObjectFile ''/usr/lib/modules/6.1/vdso/vdso64.so'' ''vdso'' 0 0 None)"
    by (simp add: q)
  show ?thesis using p n e o flatVdsoWorld_opens noElfWorld_opens(3) by simp
qed

section \<open>Properties of a conversion\<close>

lemma sint_uint64:
  fixes w :: "64 word"
  shows "sint w = (if uint w < 2 ^ 63 then uint w else uint w - 2 ^ 64)"
proof -
  have b: "bit (uint w) 63 \<longleftrightarrow> \<not> uint w < 2 ^ 63"
  proof -
    have lt: "uint w < 2 ^ 64" using uint_lt2p[of w] by simp
    have ge: "0 \<le> uint w" by simp
    have "bit (uint w) 63 \<longleftrightarrow> odd (uint w div 2 ^ 63)" by (simp add: bit_iff_odd)
    also have "\<dots> \<longleftrightarrow> \<not> uint w < 2 ^ 63"
    proof (cases "uint w < 2 ^ 63")
      case True
      then have "uint w div 2 ^ 63 = 0" using ge by simp
      then show ?thesis using True by simp
    next
      case False
      then have "uint w div 2 ^ 63 = 1" using lt by simp
      then show ?thesis using False by simp
    qed
    finally show ?thesis .
  qed
  have "sint w = take_bit 64 (uint w) - 2 ^ 64 * of_bool (bit (uint w) 63)"
    by (simp add: sint_uint signed_take_bit_eq_take_bit_minus)
  also have "take_bit 64 (uint w) = uint w"
    using take_bit_int_eq_self[of "uint w" 64] uint_lt2p[of w] by simp
  finally show ?thesis using b by simp
qed

lemma Convert_NewConverter:
  "\<exists>c'. Convert env (NewConverter n d p ms t now per) rawData = Inr ((result c', None), c') \<and>
      converter_ok env c' \<and> advances (NewConverter n d p ms t now per) c' \<and>
      frameDrop_mapping_nil c' = n + droppedFrames (NewConverter n d p ms t now per) rawData \<and>
      length (Profile_Location (result c')) \<le> frameCount rawData \<and>
      Profile_Sample (result c') =
        map (convertedSample env (NewConverter n d p ms t now per)
               (resolveKernelSymbols env rawData) c') rawData \<and>
      (\<forall>s \<in> set rawData.
         \<forall>k \<in> set (sampleKeys env (NewConverter n d p ms t now per)
                       (resolveKernelSymbols env rawData) s).
           locationIndex c' k \<noteq> None)"
  using Convert_ok[OF NewConverter_ok[of env n d p ms t now per], of rawData]
  by (simp add: NewConverter_fields)

lemma dense_unat:
  fixes g :: "'a \<Rightarrow> uint64"
  assumes "map g xs = map of_nat [1..<Suc (length xs)]" and "length xs < 2 ^ 64"
  shows "map (\<lambda>x. unat (g x)) xs = [1..<Suc (length xs)]"
proof -
  have "map (\<lambda>x. unat (g x)) xs = map unat (map g xs)" by simp
  also have "\<dots> = map (\<lambda>j. unat (of_nat j :: uint64)) [1..<Suc (length xs)]"
    by (simp add: assms(1) del: upt_Suc)
  also have "\<dots> = map (\<lambda>j. j) [1..<Suc (length xs)]"
  proof (rule map_cong[OF refl])
    fix j assume "j \<in> set [1..<Suc (length xs)]"
    then have "j < 2 ^ 64" using assms(2) by auto
    then show "unat (of_nat j :: uint64) = j" by (simp add: unat_of_nat)
  qed
  finally show ?thesis by simp
qed

lemma ConvertToPprof_nth:
  "i < length ms \<Longrightarrow> ConvertToPprof ms ! i = convertToPprof i (ms ! i)"
  by (simp add: ConvertToPprof_def nth_enumerate_eq)

lemma ConvertToPprof_ids:
  "map Mapping_ID (ConvertToPprof ms) = map of_nat [1..<Suc (length ms)]"
proof (rule nth_equalityI)
  show "length (map Mapping_ID (ConvertToPprof ms)) = length (map of_nat [1..<Suc (length ms)])"
    by (simp add: length_ConvertToPprof del: upt_Suc)
next
  fix i assume "i < length (map Mapping_ID (ConvertToPprof ms))"
  then have i: "i < length ms" by (simp add: length_ConvertToPprof)
  then have "[1..<Suc (length ms)] ! i = Suc i" by (simp del: upt_Suc)
  then show "map Mapping_ID (ConvertToPprof ms) ! i = map of_nat [1..<Suc (length ms)] ! i"
    using i by (simp add: length_ConvertToPprof ConvertToPprof_nth convertToPprof_def del: upt_Suc)
qed

lemma NewConverter_mapping_ids:
  "map Mapping_ID (Profile_Mapping (result (NewConverter n d p ms t now per))) =
     map of_nat [1..<Suc (length (Profile_Mapping (result (NewConverter n d p ms t now per))))]"
proof -
  have "map Mapping_ID (ConvertToPprof ms @ [kernelMapping (NewConverter n d p ms t now per)]) =
        map of_nat [1..<Suc (length (ConvertToPprof ms @ [kernelMapping (NewConverter n d p ms t now per)]))]"
    by (rule dense_snoc) (simp_all add: ConvertToPprof_ids length_ConvertToPprof NewConverter_fields)
  then show ?thesis by (simp only: NewConverter_fields)
qed

lemma userKeys_unmapped_length:
  "length (userKeys env c addrs) + length (unmapped (Profile_Mapping (result c)) addrs) = length addrs"
proof (induction addrs)
  case Nil
  then show ?case by (simp add: userKeys_def unmapped_def)
next
  case (Cons a addrs)
  then show ?case
    using userKey_None[of env c a]
    by (cases "userKey env c a") (simp_all add: userKeys_Cons unmapped_Cons)
qed

lemma advances_profile:
  assumes "advances c c'"
  shows "Profile_Mapping (result c') = Profile_Mapping (result c)"
    and "Profile_DurationNanos (result c') = Profile_DurationNanos (result c)"
    and "Profile_TimeNanos (result c') = Profile_TimeNanos (result c)"
    and "kernelMapping c' = kernelMapping c"
  using assms by (simp_all add: advances_def sameConfig_def)

lemmas convert_defs =
  Convert_def resolveKernelSymbols_def convertSample_def userFrame_def mappingForAddr_def
  addKernelLocation_def addVDSOLocation_def addPerfMapLocation_def addJITDumpLocation_def
  addAddrLocation_def addAddrLocationNoNormalization_def addFunction_def perfMap_def jitdump_def
  NewConverter_def ConvertToPprof_def convertToPprof_def enumerate_eq_zip HasSuffix_def
  time_Since_def int64_of_uint64_def Let_def

lemma example_run:
  "\<exists>c'. Convert exampleCollaborators exampleConverter exampleRawData =
           Inr ((exampleProfile, None), c') \<and> frameDrop_mapping_nil c' = 8"
  by (simp add: convert_defs exampleCollaborators_def exampleConverter_def exampleRawData_def
      exampleMappings_def exampleProfile_def exampleLocations_def exampleFunctions_def
      exampleAppMapping_def exampleVdsoMapping_def exampleKernelMapping_def)

text \<open>
  Claim C10. \<open>Convert\<close> returns, and every emitted sample's value vector has exactly one
  element, the raw sample's unsigned 64-bit value with its bits read as a signed 64-bit
  integer: the value itself below \<open>2^63\<close>, the value minus \<open>2^64\<close> from \<open>2^63\<close> on. So
  a raw value of at least \<open>2^63\<close> is recorded as a negative number.
\<close>

theorem Convert_sample_values:
  "\<exists>prof c'. Convert env (NewConverter n d p ms t now per) rawData = Inr ((prof, None), c') \<and>
     map Sample_Value (Profile_Sample prof) =
       map (\<lambda>s. [int64_of_uint64 (RawSample_Value s)]) rawData \<and>
     map (\<lambda>s. map sint (Sample_Value s)) (Profile_Sample prof) =
       map (\<lambda>s. [if uint (RawSample_Value s) < 2 ^ 63 then uint (RawSample_Value s)
                  else uint (RawSample_Value s) - 2 ^ 64]) rawData \<and>
     (\<forall>i < length rawData. 2 ^ 63 \<le> uint (RawSample_Value (rawData ! i)) \<longrightarrow>
        (\<forall>v \<in> set (Sample_Value (Profile_Sample prof ! i)). sint v < 0))"
proof -
  from Convert_NewConverter[of env n d p ms t now per rawData] obtain c' where
    run: "Convert env (NewConverter n d p ms t now per) rawData = Inr ((result c', None), c')"
    and smp: "Profile_Sample (result c') =
        map (convertedSample env (NewConverter n d p ms t now per)
               (resolveKernelSymbols env rawData) c') rawData"
    by blast
  have v: "map Sample_Value (Profile_Sample (result c')) =
       map (\<lambda>s. [int64_of_uint64 (RawSample_Value s)]) rawData"
    by (simp add: smp convertedSample_def)
  have s: "map (\<lambda>s. map sint (Sample_Value s)) (Profile_Sample (result c')) =
       map (\<lambda>s. [if uint (RawSample_Value s) < 2 ^ 63 then uint (RawSample_Value s)
                  else uint (RawSample_Value s) - 2 ^ 64]) rawData"
    by (simp add: smp convertedSample_def int64_of_uint64_def sint_uint64)
  have neg: "\<forall>i < length rawData. 2 ^ 63 \<le> uint (RawSample_Value (rawData ! i)) \<longrightarrow>
        (\<forall>v \<in> set (Sample_Value (Profile_Sample (result c') ! i)). sint v < 0)"
  proof (intro allI impI)
    fix i assume i: "i < length rawData" and big: "2 ^ 63 \<le> uint (RawSample_Value (rawData ! i))"
    have lt: "uint (RawSample_Value (rawData ! i)) < 2 ^ 64"
      using uint_lt2p[of "RawSample_Value (rawData ! i)"] by simp
    show "\<forall>v \<in> set (Sample_Value (Profile_Sample (result c') ! i)). sint v < 0"
      using i big lt by (simp add: smp convertedSample_def int64_of_uint64_def sint_uint64)
  qed
  show ?thesis using run v s neg by blast
qed

theorem Convert_sample_values_witness:
  "\<exists>c'. Convert exampleCollaborators exampleConverter exampleRawData =
          Inr ((exampleProfile, None), c') \<and>
        map (\<lambda>s. map sint (Sample_Value s)) (Profile_Sample exampleProfile) =
          [[1], [- 9223372036854775803]] \<and>
        (2 :: int) ^ 63 \<le> uint (RawSample_Value (exampleRawData ! 1))"
proof -
  from Convert_sample_values[of exampleCollaborators 7 False 42 exampleMappings 1000 1005 10000000
      exampleRawData]
  obtain prof c' where
    run: "Convert exampleCollaborators exampleConverter exampleRawData = Inr ((prof, None), c')"
    and s: "map (\<lambda>s. map sint (Sample_Value s)) (Profile_Sample prof) =
       map (\<lambda>s. [if uint (RawSample_Value s) < 2 ^ 63 then uint (RawSample_Value s)
                  else uint (RawSample_Value s) - 2 ^ 64]) exampleRawData"
    unfolding exampleConverter_def by blast
  from example_run run have p: "prof = exampleProfile" by auto
  have "map (\<lambda>s. map sint (Sample_Value s)) (Profile_Sample exampleProfile) =
          [[1], [- 9223372036854775803]]"
    using s unfolding p by (simp add: exampleRawData_def)
  moreover have "(2 :: int) ^ 63 \<le> uint (RawSample_Value (exampleRawData ! 1))"
    by (simp add: exampleRawData_def)
  ultimately show ?thesis using run unfolding p by (intro exI[of _ c'] conjI)
qed

text \<open>
  Claim C6, as the code has it. \<open>NewConverter\<close> sets \<open>DurationNanos\<close> to the time that
  has passed since the capture time when the converter is constructed, and \<open>Convert\<close>
  returns the profile with that value: it does not write the field.
\<close>

theorem Convert_duration:
  "Profile_DurationNanos (result (NewConverter n d p ms t now per)) = time_Since now t \<and>
   (\<exists>prof c'. Convert env (NewConverter n d p ms t now per) rawData = Inr ((prof, None), c') \<and>
      Profile_DurationNanos prof = time_Since now t)"
proof -
  from Convert_NewConverter[of env n d p ms t now per rawData] obtain c' where
    run: "Convert env (NewConverter n d p ms t now per) rawData = Inr ((result c', None), c')"
    and adv: "advances (NewConverter n d p ms t now per) c'"
    by blast
  have "Profile_DurationNanos (result c') = time_Since now t"
    using advances_profile(2)[OF adv] by (simp add: NewConverter_fields)
  then show ?thesis using run by (auto simp: NewConverter_fields)
qed

theorem Convert_duration_witness:
  "\<exists>c'. Convert exampleCollaborators exampleConverter exampleRawData =
          Inr ((exampleProfile, None), c') \<and>
        Profile_DurationNanos exampleProfile = 1005 - 1000"
proof -
  from Convert_duration[of 7 False 42 exampleMappings 1000 1005 10000000 exampleCollaborators
      exampleRawData]
  obtain prof c' where
    run: "Convert exampleCollaborators exampleConverter exampleRawData = Inr ((prof, None), c')"
    and dur: "Profile_DurationNanos prof = time_Since 1005 1000"
    unfolding exampleConverter_def by blast
  from example_run run have p: "prof = exampleProfile" by auto
  show ?thesis using run dur unfolding p by (auto simp: time_Since_def)
qed

text \<open>
  The field is not left unset by the constructor: for a capture time of 1000 and a clock
  reading of 1005 at construction it is 5 before \<open>Convert\<close> has run.
\<close>

theorem duration_set_at_construction_counterexample:
  "Profile_DurationNanos (result exampleConverter) = 5 \<and>
   Profile_DurationNanos (result exampleConverter) \<noteq> 0"
  by (simp add: exampleConverter_def NewConverter_fields time_Since_def)

text \<open>
  Claim C3. The mapping table of a new converter is the converted process mappings, in
  order and each with the fields of its process mapping, followed by one kernel mapping
  with file \<open>[kernel.kallsyms]\<close> and id \<open>len(mappings) + 1\<close> (a 64-bit addition, which
  does not wrap for a slice). \<open>Convert\<close> returns a profile with the same table for every
  batch, also for one without kernel frames.
\<close>

theorem NewConverter_mapping_table:
  "Profile_Mapping (result (NewConverter n d p ms t now per)) =
     ConvertToPprof ms @
     [\<lparr>Mapping_ID = of_nat (length ms) + 1, Mapping_Start = 0, Mapping_Limit = 0,
       Mapping_Offset = 0, Mapping_File = ''[kernel.kallsyms]'', Mapping_BuildID = []\<rparr>] \<and>
   length (ConvertToPprof ms) = length ms \<and>
   (\<forall>i < length ms. ConvertToPprof ms ! i =
      \<lparr>Mapping_ID = of_nat (i + 1), Mapping_Start = pm_Start (ms ! i),
       Mapping_Limit = pm_Limit (ms ! i), Mapping_Offset = pm_Offset (ms ! i),
       Mapping_File = pm_File (ms ! i), Mapping_BuildID = pm_BuildID (ms ! i)\<rparr>) \<and>
   (length ms + 1 < 2 ^ 64 \<longrightarrow> unat (of_nat (length ms) + 1 :: uint64) = length ms + 1) \<and>
   (\<exists>prof c'. Convert env (NewConverter n d p ms t now per) rawData = Inr ((prof, None), c') \<and>
      Profile_Mapping prof = Profile_Mapping (result (NewConverter n d p ms t now per)))"
proof -
  from Convert_NewConverter[of env n d p ms t now per rawData] obtain c' where
    run: "Convert env (NewConverter n d p ms t now per) rawData = Inr ((result c', None), c')"
    and adv: "advances (NewConverter n d p ms t now per) c'"
    by blast
  have id: "length ms + 1 < 2 ^ 64 \<longrightarrow> unat (of_nat (length ms) + 1 :: uint64) = length ms + 1"
  proof
    assume b: "length ms + 1 < 2 ^ 64"
    have e: "(of_nat (length ms) + 1 :: uint64) = of_nat (length ms + 1)" by simp
    have "unat (of_nat (length ms + 1) :: uint64) = (length ms + 1) mod 2 ^ 64"
      by (simp only: unat_of_nat) simp
    also have "\<dots> = length ms + 1" using b by (rule mod_less)
    finally show "unat (of_nat (length ms) + 1 :: uint64) = length ms + 1"
      by (simp only: e)
  qed
  have ex: "\<exists>prof c'. Convert env (NewConverter n d p ms t now per) rawData = Inr ((prof, None), c') \<and>
      Profile_Mapping prof = Profile_Mapping (result (NewConverter n d p ms t now per))"
    using run advances_profile(1)[OF adv] by blast
  have tbl: "Profile_Mapping (result (NewConverter n d p ms t now per)) =
     ConvertToPprof ms @
     [\<lparr>Mapping_ID = of_nat (length ms) + 1, Mapping_Start = 0, Mapping_Limit = 0,
       Mapping_Offset = 0, Mapping_File = ''[kernel.kallsyms]'', Mapping_BuildID = []\<rparr>]"
    by (simp add: NewConverter_fields)
  have nth: "\<forall>i < length ms. ConvertToPprof ms ! i =
      \<lparr>Mapping_ID = of_nat (i + 1), Mapping_Start = pm_Start (ms ! i),
       Mapping_Limit = pm_Limit (ms ! i), Mapping_Offset = pm_Offset (ms ! i),
       Mapping_File = pm_File (ms ! i), Mapping_BuildID = pm_BuildID (ms ! i)\<rparr>"
    by (simp add: ConvertToPprof_nth convertToPprof_def)
  show ?thesis
    by (intro conjI) (rule tbl, rule length_ConvertToPprof, rule nth, rule id, rule ex)
qed

theorem NewConverter_mapping_table_witness:
  "length exampleMappings + 1 < (2 :: nat) ^ 64 \<and>
   Profile_Mapping (result exampleConverter) =
     [exampleAppMapping, exampleVdsoMapping, exampleKernelMapping] \<and>
   unat (Mapping_ID exampleKernelMapping) = length exampleMappings + 1 \<and>
   (\<exists>prof c'. Convert exampleCollaborators exampleConverter [] = Inr ((prof, None), c') \<and>
      Profile_Mapping prof = [exampleAppMapping, exampleVdsoMapping, exampleKernelMapping])"
proof -
  note t = NewConverter_mapping_table[of 7 False 42 exampleMappings 1000 1005 10000000
      exampleCollaborators "[]"]
  have len: "length exampleMappings + 1 < (2 :: nat) ^ 64" by (simp add: exampleMappings_def)
  have pm: "Profile_Mapping (result exampleConverter) =
     [exampleAppMapping, exampleVdsoMapping, exampleKernelMapping]"
    using t unfolding exampleConverter_def
    by (simp add: exampleMappings_def exampleAppMapping_def exampleVdsoMapping_def
        exampleKernelMapping_def ConvertToPprof_def convertToPprof_def enumerate_eq_zip)
  have id: "unat (Mapping_ID exampleKernelMapping) = length exampleMappings + 1"
    by (simp add: exampleKernelMapping_def exampleMappings_def)
  show ?thesis using t len pm id unfolding exampleConverter_def by simp
qed

lemma Profile_Sample_nth:
  assumes "Profile_Sample prof = map (convertedSample env c ks c') rawData" and "i < length rawData"
  shows "Sample_Location (Profile_Sample prof ! i) = locationsOf c' (sampleKeys env c ks (rawData ! i))"
  using assms by (simp add: convertedSample_def)


lemma index_ok_filed:
  "index_ok c \<Longrightarrow> locationIndex c k = Some l \<Longrightarrow> filed c k l"
  by (simp add: index_ok_def)



text \<open>
  Claim C2. In the profile \<open>Convert\<close> returns, the ids of the mapping, location and
  function tables are 1, 2, 3, ... in table order (so they are unique, consecutive and
  start at 1), every location's mapping is in the mapping table, and every function a
  location's line refers to is in the function table. The two hypotheses say that the
  ids, 64-bit words, have not wrapped around: a Go slice has fewer than \<open>2^63\<close> elements,
  and the frames of a batch are all in memory.
\<close>

theorem Convert_tables:
  assumes ms: "length ms + 1 < 2 ^ 64" and frames: "frameCount rawData < 2 ^ 64"
  shows "\<exists>prof c'. Convert env (NewConverter n d p ms t now per) rawData = Inr ((prof, None), c') \<and>
     map (\<lambda>m. unat (Mapping_ID m)) (Profile_Mapping prof) = [1..<Suc (length (Profile_Mapping prof))] \<and>
     map (\<lambda>l. unat (Location_ID l)) (Profile_Location prof) = [1..<Suc (length (Profile_Location prof))] \<and>
     map (\<lambda>f. unat (Function_ID f)) (Profile_Function prof) = [1..<Suc (length (Profile_Function prof))] \<and>
     (\<forall>l \<in> set (Profile_Location prof).
        Location_Mapping l \<in> set (Profile_Mapping prof) \<and>
        (\<forall>ln \<in> set (Location_Line l). Line_Function ln \<in> set (Profile_Function prof)))"
proof -
  let ?c0 = "NewConverter n d p ms t now per"
  from Convert_NewConverter[of env n d p ms t now per rawData] obtain c' where
    run: "Convert env ?c0 rawData = Inr ((result c', None), c')"
    and ok: "converter_ok env c'" and adv: "advances ?c0 c'"
    and len: "length (Profile_Location (result c')) \<le> frameCount rawData"
    by blast
  from ok have t: "tables_ok c'" by (simp add: converter_ok_def)
  from t have lids: "map Location_ID (Profile_Location (result c')) =
       map of_nat [1..<Suc (length (Profile_Location (result c')))]"
    and fids: "map Function_ID (Profile_Function (result c')) =
       map of_nat [1..<Suc (length (Profile_Function (result c')))]"
    and mem: "\<forall>l \<in> set (Profile_Location (result c')).
        Location_Mapping l \<in> set (Profile_Mapping (result c')) \<and>
        (\<forall>ln \<in> set (Location_Line l). Line_Function ln \<in> set (Profile_Function (result c')))"
    and fl: "length (Profile_Function (result c')) \<le> length (Profile_Location (result c'))"
    by (simp_all add: tables_ok_def)
  have pm: "Profile_Mapping (result c') = Profile_Mapping (result ?c0)"
    by (rule advances_profile(1)[OF adv])
  have mlen: "length (Profile_Mapping (result ?c0)) < 2 ^ 64"
    using ms by (simp add: NewConverter_fields length_ConvertToPprof)
  have llen: "length (Profile_Location (result c')) < 2 ^ 64" using len frames by simp
  have flen: "length (Profile_Function (result c')) < 2 ^ 64" using fl llen by simp
  have M: "map (\<lambda>m. unat (Mapping_ID m)) (Profile_Mapping (result c')) =
           [1..<Suc (length (Profile_Mapping (result c')))]"
    unfolding pm by (rule dense_unat[OF NewConverter_mapping_ids mlen])
  have L: "map (\<lambda>l. unat (Location_ID l)) (Profile_Location (result c')) =
           [1..<Suc (length (Profile_Location (result c')))]"
    by (rule dense_unat[OF lids llen])
  have F: "map (\<lambda>f. unat (Function_ID f)) (Profile_Function (result c')) =
           [1..<Suc (length (Profile_Function (result c')))]"
    by (rule dense_unat[OF fids flen])
  show ?thesis using run M L F mem by blast
qed

theorem Convert_tables_witness:
  "length exampleMappings + 1 < (2 :: nat) ^ 64 \<and> frameCount exampleRawData < 2 ^ 64 \<and>
   (\<exists>c'. Convert exampleCollaborators exampleConverter exampleRawData =
           Inr ((exampleProfile, None), c')) \<and>
   map (\<lambda>m. unat (Mapping_ID m)) (Profile_Mapping exampleProfile) = [1, 2, 3] \<and>
   map (\<lambda>l. unat (Location_ID l)) (Profile_Location exampleProfile) = [1, 2, 3, 4] \<and>
   map (\<lambda>f. unat (Function_ID f)) (Profile_Function exampleProfile) = [1, 2, 3]"
proof -
  have h1: "length exampleMappings + 1 < (2 :: nat) ^ 64" by (simp add: exampleMappings_def)
  have h2: "frameCount exampleRawData < 2 ^ 64" by (simp add: frameCount_def exampleRawData_def)
  from Convert_tables[OF h1 h2, of exampleCollaborators 7 False 42 1000 1005 10000000]
  obtain prof c' where
    run: "Convert exampleCollaborators exampleConverter exampleRawData = Inr ((prof, None), c')"
    and M: "map (\<lambda>m. unat (Mapping_ID m)) (Profile_Mapping prof) = [1..<Suc (length (Profile_Mapping prof))]"
    and L: "map (\<lambda>l. unat (Location_ID l)) (Profile_Location prof) = [1..<Suc (length (Profile_Location prof))]"
    and F: "map (\<lambda>f. unat (Function_ID f)) (Profile_Function prof) = [1..<Suc (length (Profile_Function prof))]"
    unfolding exampleConverter_def by blast
  from example_run run have p: "prof = exampleProfile" by auto
  have lens: "length (Profile_Mapping exampleProfile) = 3" "length (Profile_Location exampleProfile) = 4"
    "length (Profile_Function exampleProfile) = 3"
    by (simp_all add: exampleProfile_def exampleLocations_def exampleFunctions_def)
  have u3: "[1..<Suc 3] = [1, 2, 3]" and u4: "[1..<Suc 4] = [1, 2, 3, 4]"
    by (simp_all add: upt_rec)
  have "\<exists>c'. Convert exampleCollaborators exampleConverter exampleRawData =
           Inr ((exampleProfile, None), c')" using run p by blast
  then show ?thesis
    using h1 h2 M L F unfolding p lens u3 u4 by (intro conjI)
qed

lemma Sample_Location_length:
  assumes smp: "Profile_Sample prof = map (convertedSample env c ks c') rawData"
    and i: "i < length rawData"
  shows "length (Sample_Location (Profile_Sample prof ! i)) +
           length (unmapped (Profile_Mapping (result c)) (RawSample_UserStack (rawData ! i))) =
         length (RawSample_KernelStack (rawData ! i)) + length (RawSample_UserStack (rawData ! i))"
  using userKeys_unmapped_length[of env c "RawSample_UserStack (rawData ! i)"]
  by (simp add: Profile_Sample_nth[OF smp i] locationsOf_def sampleKeys_eq kernelKeys_def)

lemma routedTo_mappingForAddr: "routedTo maps addr i \<longleftrightarrow> mappingForAddr maps addr = int i"
  by (simp add: routedTo_def mappingForAddr_first)

lemma routedTo_unique: "routedTo maps addr i \<Longrightarrow> routedTo maps addr j \<Longrightarrow> i = j"
  by (simp add: routedTo_mappingForAddr)

lemma userKey_frameKey:
  "mappingForAddr (Profile_Mapping (result c)) addr = int i \<Longrightarrow>
   userKey env c addr = Some (frameKey env c i addr)"
  by (simp add: userKey_def frameKey_def Let_def)

lemma frameKey_sameConfig: "sameConfig c c1 \<Longrightarrow> frameKey env c1 i addr = frameKey env c i addr"
  by (simp add: frameKey_def sameConfig_def perfMapKey_def jitDumpKey_def Let_def)

lemma frameKey_not_kernel: "\<not> isKernelKey (frameKey env c i addr)"
  by (simp add: frameKey_def Let_def not_kernel_keys)

lemma routed_ok_same:
  assumes sc: "sameConfig c c1" and li: "locationIndex c1 = locationIndex c"
    and r: "routed_ok env c A" and sub: "A \<subseteq> B"
  shows "routed_ok env c1 B"
proof -
  have pm: "Profile_Mapping (result c1) = Profile_Mapping (result c)"
    using sc by (simp add: sameConfig_def)
  have fk: "\<And>i a. frameKey env c1 i a = frameKey env c i a" by (rule frameKey_sameConfig[OF sc])
  show ?thesis
    unfolding routed_ok_def pm fk li
  proof (intro allI impI)
    fix k l assume "locationIndex c k = Some l" and "\<not> isKernelKey k"
    with r obtain a i where "a \<in> A" and
      "routedTo (Profile_Mapping (result c)) a i \<and> frameKey env c i a = k \<and>
         Location_Mapping l = Profile_Mapping (result c) ! i"
      unfolding routed_ok_def by blast
    with sub show "\<exists>a \<in> B. \<exists>i. routedTo (Profile_Mapping (result c)) a i \<and> frameKey env c i a = k \<and>
         Location_Mapping l = Profile_Mapping (result c) ! i"
      by blast
  qed
qed

lemma routed_ok_resolved:
  assumes r: "routed_ok env c A" and res: "resolved c m k l c1" and sub: "A \<subseteq> B"
    and new: "isKernelKey k \<or>
              (\<exists>a \<in> B. \<exists>i. routedTo (Profile_Mapping (result c)) a i \<and> frameKey env c i a = k \<and>
                            m = Profile_Mapping (result c) ! i)"
  shows "routed_ok env c1 B"
proof (cases "locationIndex c k")
  case (Some l0)
  with res have "locationIndex c1 = locationIndex c" by (simp add: resolved_def)
  then show ?thesis using routed_ok_same[OF resolved_sameConfig[OF res] _ r sub] by simp
next
  case None
  note sc = resolved_sameConfig[OF res]
  have pm: "Profile_Mapping (result c1) = Profile_Mapping (result c)"
    using sc by (simp add: sameConfig_def)
  have fk: "\<And>i a. frameKey env c1 i a = frameKey env c i a" by (rule frameKey_sameConfig[OF sc])
  from res None have li: "locationIndex c1 = (locationIndex c)(k \<mapsto> l)"
    and lm: "Location_Mapping l = m"
    by (simp_all add: resolved_def)
  show ?thesis
    unfolding routed_ok_def pm fk
  proof (intro allI impI)
    fix k' l' assume h: "locationIndex c1 k' = Some l'" and nk: "\<not> isKernelKey k'"
    show "\<exists>a \<in> B. \<exists>i. routedTo (Profile_Mapping (result c)) a i \<and> frameKey env c i a = k' \<and>
         Location_Mapping l' = Profile_Mapping (result c) ! i"
    proof (cases "k' = k")
      case True
      with h li have "l' = l" by simp
      with new nk True lm show ?thesis by blast
    next
      case False
      with h li have "locationIndex c k' = Some l'" by simp
      with r nk obtain a i where "a \<in> A" and
        "routedTo (Profile_Mapping (result c)) a i \<and> frameKey env c i a = k' \<and>
           Location_Mapping l' = Profile_Mapping (result c) ! i"
        unfolding routed_ok_def by blast
      with sub show ?thesis by blast
    qed
  qed
qed

lemma kernelStackLoop_routed:
  assumes "routed_ok env c A" and "kernelStackLoop c ks locs addrs = (locs', c')"
  shows "routed_ok env c' A"
  using assms
proof (induction addrs arbitrary: c locs)
  case Nil
  then show ?case by simp
next
  case (Cons a addrs)
  obtain l c1 where a: "addKernelLocation c (kernelMapping c) ks a = (l, c1)"
    by (meson surj_pair)
  note r = addKernelLocation_resolved[OF a]
  have r1: "routed_ok env c1 A"
    by (rule routed_ok_resolved[OF Cons.prems(1) r subset_refl]) simp
  from Cons.prems(2) a have "kernelStackLoop c1 ks (locs @ [l]) addrs = (locs', c')" by simp
  from Cons.IH[OF r1 this] show ?case .
qed

lemma userFrame_routed:
  assumes ok: "converter_ok env c" and r: "routed_ok env c A"
    and u: "userFrame env c locs addr = Inr (locs1, c1)"
  shows "routed_ok env c1 (insert addr A)"
proof (cases "mappingForAddr (Profile_Mapping (result c)) addr = -1")
  case True
  let ?c1 = "c\<lparr>frameDrop_mapping_nil := frameDrop_mapping_nil c + 1\<rparr>"
  have "userFrame env c locs addr = Inr (locs, ?c1)" using True by (simp add: userFrame_def)
  with u have c1: "c1 = ?c1" by simp
  have li: "locationIndex ?c1 = locationIndex c" by (rule locationIndex_cong) simp_all
  have sc: "sameConfig c ?c1" by (simp add: sameConfig_def)
  show ?thesis unfolding c1 by (rule routed_ok_same[OF sc li r]) blast
next
  case False
  then obtain i where i: "mappingForAddr (Profile_Mapping (result c)) addr = int i"
    using mappingForAddr_range by blast
  from ok have cfg: "config_ok c" and mo: "memo_ok env c" by (simp_all add: converter_ok_def)
  note I = config_ok_index[OF cfg i]
  let ?pm = "mappings c ! i" and ?m = "Profile_Mapping (result c) ! i"
  let ?k = "if Mapping_File ?m = ''[vdso]'' then vdsoKey env ?pm addr
            else if Mapping_File ?m = ''jit'' then perfMapKey env c addr
            else if HasSuffix (Mapping_File ?m) ''.dump''
            then jitDumpKey env c addr (Mapping_File ?m)
            else nativeKey env ?pm addr"
  obtain l c2 where d: "(if Mapping_File ?m = ''[vdso]'' then addVDSOLocation env c ?pm ?m addr
             else if Mapping_File ?m = ''jit'' then addPerfMapLocation env c ?m addr
             else if HasSuffix (Mapping_File ?m) ''.dump''
             then addJITDumpLocation env c ?m addr (Mapping_File ?m)
             else addAddrLocation env c ?pm ?m addr) = (l, c2)"
    by (meson surj_pair)
  from dispatch_resolved[OF mo d] have res: "resolved c ?m ?k l c2" by simp
  have "userFrame env c locs addr = Inr (locs @ [l], c2)"
    using i I d False by (simp add: userFrame_def Let_def)
  with u have c1: "c1 = c2" by simp
  have k: "frameKey env c i addr = ?k" by (simp add: frameKey_def Let_def)
  have rt: "routedTo (Profile_Mapping (result c)) addr i" using i by (simp add: routedTo_mappingForAddr)
  have new: "isKernelKey ?k \<or>
              (\<exists>a \<in> insert addr A. \<exists>j. routedTo (Profile_Mapping (result c)) a j \<and> frameKey env c j a = ?k \<and>
                            ?m = Profile_Mapping (result c) ! j)"
    using rt k by blast
  show ?thesis unfolding c1 by (rule routed_ok_resolved[OF r res _ new]) blast
qed

lemma userStackLoop_routed:
  assumes "converter_ok env c" and "routed_ok env c A"
    and "userStackLoop env c locs addrs = Inr (locs', c')"
  shows "routed_ok env c' (A \<union> set addrs)"
  using assms
proof (induction addrs arbitrary: c locs A)
  case Nil
  then show ?case by simp
next
  case (Cons a addrs)
  from userFrame_ok[OF Cons.prems(1), of locs a] obtain locs1 c1 where
    u: "userFrame env c locs a = Inr (locs1, c1)" and ok1: "converter_ok env c1"
    by blast
  have r1: "routed_ok env c1 (insert a A)" by (rule userFrame_routed[OF Cons.prems(1,2) u])
  from Cons.prems(3) u have "userStackLoop env c1 locs1 addrs = Inr (locs', c')" by simp
  from Cons.IH[OF ok1 r1 this] show ?case by simp
qed

lemma convertSample_routed:
  assumes ok: "converter_ok env c" and r: "routed_ok env c A"
    and cs: "convertSample env c ks sample = Inr c'"
  shows "routed_ok env c' (A \<union> set (RawSample_UserStack sample))"
proof -
  from kernelStackLoop_ok[OF ok, of ks "[]" "RawSample_KernelStack sample"]
  obtain locs1 c1 where
    kl: "kernelStackLoop c ks [] (RawSample_KernelStack sample) = (locs1, c1)"
    and ok1: "converter_ok env c1"
    by blast
  have r1: "routed_ok env c1 A" by (rule kernelStackLoop_routed[OF r kl])
  from userStackLoop_ok[OF ok1, of locs1 "RawSample_UserStack sample"]
  obtain locs2 c2 where
    ul: "userStackLoop env c1 locs1 (RawSample_UserStack sample) = Inr (locs2, c2)"
    by blast
  have r2: "routed_ok env c2 (A \<union> set (RawSample_UserStack sample))"
    by (rule userStackLoop_routed[OF ok1 r1 ul])
  let ?s = "\<lparr>Sample_Value = [int64_of_uint64 (RawSample_Value sample)], Sample_Location = locs2\<rparr>"
  let ?c' = "c2\<lparr>result := (result c2)\<lparr>Profile_Sample := Profile_Sample (result c2) @ [?s]\<rparr>\<rparr>"
  have "convertSample env c ks sample = Inr ?c'"
    using kl ul by (simp add: convertSample_def)
  with cs have c': "c' = ?c'" by simp
  have li: "locationIndex ?c' = locationIndex c2" by (rule locationIndex_cong) simp_all
  have sc: "sameConfig c2 ?c'" by (simp add: sameConfig_def)
  show ?thesis unfolding c' by (rule routed_ok_same[OF sc li r2 subset_refl])
qed

lemma samplesLoop_routed:
  assumes "converter_ok env c" and "routed_ok env c A"
    and "samplesLoop env c ks rawData = Inr c'"
  shows "routed_ok env c' (A \<union> userAddresses rawData)"
  using assms
proof (induction rawData arbitrary: c A)
  case Nil
  then show ?case by (simp add: userAddresses_def)
next
  case (Cons s rawData)
  from convertSample_ok[OF Cons.prems(1), of ks s] obtain c1 where
    cs: "convertSample env c ks s = Inr c1" and ok1: "converter_ok env c1"
    by blast
  have r1: "routed_ok env c1 (A \<union> set (RawSample_UserStack s))"
    by (rule convertSample_routed[OF Cons.prems(1,2) cs])
  from Cons.prems(3) cs have "samplesLoop env c1 ks rawData = Inr c'" by simp
  from Cons.IH[OF ok1 r1 this]
  have "routed_ok env c' (A \<union> set (RawSample_UserStack s) \<union> userAddresses rawData)" .
  moreover have "A \<union> set (RawSample_UserStack s) \<union> userAddresses rawData =
                 A \<union> userAddresses (s # rawData)"
    by (simp add: userAddresses_def Un_assoc)
  ultimately show ?case by simp
qed

lemma Convert_routed:
  assumes run: "Convert env (NewConverter n d p ms t now per) rawData = Inr ((prof, e), c')"
  shows "routed_ok env c' (userAddresses rawData)"
proof -
  let ?c0 = "NewConverter n d p ms t now per"
  have r0: "routed_ok env ?c0 {}" by (simp add: routed_ok_def NewConverter_fields)
  from run obtain c1 where
    loop: "samplesLoop env ?c0 (resolveKernelSymbols env rawData) rawData = Inr c1" and c1: "c' = c1"
    by (auto simp: Convert_def Let_def split: sum.splits)
  from samplesLoop_routed[OF NewConverter_ok r0 loop] show ?thesis by (simp add: c1)
qed

lemma userKeys_mapped:
  "userKeys env c addrs =
     map (\<lambda>a. the (userKey env c a)) (mapped (Profile_Mapping (result c)) addrs)"
proof (induction addrs)
  case Nil
  then show ?case by (simp add: userKeys_def mapped_def)
next
  case (Cons a addrs)
  have m: "mapped (Profile_Mapping (result c)) (a # addrs) =
      (if mappingForAddr (Profile_Mapping (result c)) a = -1
       then mapped (Profile_Mapping (result c)) addrs
       else a # mapped (Profile_Mapping (result c)) addrs)"
    by (simp add: mapped_def mappingForAddr_none)
  show ?case
  proof (cases "userKey env c a")
    case None
    then show ?thesis using Cons.IH m userKey_None[of env c a] by (simp add: userKeys_Cons)
  next
    case (Some k)
    then have "mappingForAddr (Profile_Mapping (result c)) a \<noteq> -1"
      using userKey_None[of env c a] by simp
    then show ?thesis using Cons.IH m Some by (simp add: userKeys_Cons)
  qed
qed

lemma mapped_unmapped_length:
  "length (mapped ms addrs) + length (unmapped ms addrs) = length addrs"
  by (induction addrs) (simp_all add: mapped_def unmapped_def mappingForAddr_none)

lemma user_frame_location:
  assumes smp: "Profile_Sample prof = map (convertedSample env c ks c') rawData"
    and k: "k < length rawData"
    and j: "j < length (mapped (Profile_Mapping (result c)) (RawSample_UserStack (rawData ! k)))"
  shows "Sample_Location (Profile_Sample prof ! k) ! (length (RawSample_KernelStack (rawData ! k)) + j) =
         the (locationIndex c'
                (the (userKey env c (mapped (Profile_Mapping (result c))
                                       (RawSample_UserStack (rawData ! k)) ! j))))"
proof -
  let ?s = "rawData ! k"
  have len: "length (locationsOf c' (kernelKeys ks (RawSample_KernelStack ?s))) =
             length (RawSample_KernelStack ?s)"
    by (simp add: locationsOf_def kernelKeys_def)
  have "Sample_Location (Profile_Sample prof ! k) =
        locationsOf c' (kernelKeys ks (RawSample_KernelStack ?s)) @
        locationsOf c' (userKeys env c (RawSample_UserStack ?s))"
    by (simp add: Profile_Sample_nth[OF smp k] sampleKeys_eq locationsOf_def)
  then have "Sample_Location (Profile_Sample prof ! k) ! (length (RawSample_KernelStack ?s) + j) =
        locationsOf c' (userKeys env c (RawSample_UserStack ?s)) ! j"
    using len by (simp add: nth_append)
  also have "\<dots> = the (locationIndex c'
                (the (userKey env c (mapped (Profile_Mapping (result c)) (RawSample_UserStack ?s) ! j))))"
    using j by (simp add: locationsOf_def userKeys_mapped)
  finally show ?thesis .
qed

lemma mapped_routedTo:
  assumes "a \<in> set (mapped maps addrs)"
  shows "a \<in> set addrs" and "\<exists>i. routedTo maps a i"
proof -
  from assms show "a \<in> set addrs" by (simp add: mapped_def)
  from assms have "\<exists>m \<in> set maps. inRange m a" by (simp add: mapped_def)
  then have "mappingForAddr maps a \<noteq> -1" by (simp add: mappingForAddr_none)
  then obtain i where "mappingForAddr maps a = int i" using mappingForAddr_range by blast
  then show "\<exists>i. routedTo maps a i" by (auto simp: routedTo_mappingForAddr)
qed

text \<open>
  Claim C4. \<open>mappingForAddr\<close> returns the index of the first mapping whose range
  \<open>[start, limit)\<close> holds the address, and -1 exactly when no mapping does; the start of
  a non-empty mapping that no earlier mapping holds resolves to that mapping, and the
  limit of a mapping never resolves to it. \<open>Convert\<close> searches the profile's mapping
  table with it: every emitted sample has as many locations as the raw sample has frames,
  less the user frames that no mapping holds, and the \<open>mapping_nil\<close> counter grows by
  one for each of those. The locations of a sample after those of its kernel stack are, in
  order, those of the user addresses that some mapping holds: each such address is routed
  to the first mapping of the table that holds it, which is one of the process mappings;
  its location is the entry of the location index for the key of the frame under that
  mapping; and that location refers to the mapping that a user address of the batch with
  the same key was routed to (the one for which the location was made).
\<close>

theorem mappingForAddr_routing:
  "(mappingForAddr maps addr = int i \<longleftrightarrow>
      i < length maps \<and> inRange (maps ! i) addr \<and> (\<forall>j < i. \<not> inRange (maps ! j) addr)) \<and>
   (mappingForAddr maps addr = -1 \<longleftrightarrow> (\<forall>m \<in> set maps. \<not> inRange m addr)) \<and>
   (i < length maps \<and> Mapping_Start (maps ! i) < Mapping_Limit (maps ! i) \<and>
    (\<forall>j < i. \<not> inRange (maps ! j) (Mapping_Start (maps ! i))) \<longrightarrow>
      mappingForAddr maps (Mapping_Start (maps ! i)) = int i) \<and>
   (i < length maps \<longrightarrow> mappingForAddr maps (Mapping_Limit (maps ! i)) \<noteq> int i) \<and>
   (\<exists>prof c'. Convert env (NewConverter n d p ms t now per) rawData = Inr ((prof, None), c') \<and>
      length (Profile_Sample prof) = length rawData \<and>
      (\<forall>k < length rawData.
         length (Sample_Location (Profile_Sample prof ! k)) +
           length (unmapped (Profile_Mapping prof) (RawSample_UserStack (rawData ! k))) =
         length (RawSample_KernelStack (rawData ! k)) + length (RawSample_UserStack (rawData ! k))) \<and>
      frameDrop_mapping_nil c' =
        n + sum_list (map (\<lambda>s. length (unmapped (Profile_Mapping prof) (RawSample_UserStack s))) rawData) \<and>
      (\<forall>k < length rawData.
         length (Sample_Location (Profile_Sample prof ! k)) =
           length (RawSample_KernelStack (rawData ! k)) +
           length (mapped (Profile_Mapping prof) (RawSample_UserStack (rawData ! k))) \<and>
         (\<forall>j < length (mapped (Profile_Mapping prof) (RawSample_UserStack (rawData ! k))).
            \<exists>i. routedTo (Profile_Mapping prof)
                   (mapped (Profile_Mapping prof) (RawSample_UserStack (rawData ! k)) ! j) i \<and>
                i < length ms \<and>
                locationIndex c'
                  (frameKey env (NewConverter n d p ms t now per) i
                     (mapped (Profile_Mapping prof) (RawSample_UserStack (rawData ! k)) ! j)) =
                  Some (Sample_Location (Profile_Sample prof ! k) !
                          (length (RawSample_KernelStack (rawData ! k)) + j)) \<and>
                (\<exists>a \<in> userAddresses rawData. \<exists>i'.
                    routedTo (Profile_Mapping prof) a i' \<and>
                    frameKey env (NewConverter n d p ms t now per) i' a =
                      frameKey env (NewConverter n d p ms t now per) i
                        (mapped (Profile_Mapping prof) (RawSample_UserStack (rawData ! k)) ! j) \<and>
                    Location_Mapping (Sample_Location (Profile_Sample prof ! k) !
                          (length (RawSample_KernelStack (rawData ! k)) + j)) =
                      Profile_Mapping prof ! i'))))"
proof -
  let ?c0 = "NewConverter n d p ms t now per" and ?ks = "resolveKernelSymbols env rawData"
  have start: "i < length maps \<and> Mapping_Start (maps ! i) < Mapping_Limit (maps ! i) \<and>
    (\<forall>j < i. \<not> inRange (maps ! j) (Mapping_Start (maps ! i))) \<longrightarrow>
      mappingForAddr maps (Mapping_Start (maps ! i)) = int i"
    by (simp add: mappingForAddr_first inRange_def)
  have limit: "i < length maps \<longrightarrow> mappingForAddr maps (Mapping_Limit (maps ! i)) \<noteq> int i"
    by (simp add: mappingForAddr_first inRange_def)
  from Convert_NewConverter[of env n d p ms t now per rawData] obtain c' where
    run: "Convert env ?c0 rawData = Inr ((result c', None), c')"
    and ok: "converter_ok env c'"
    and adv: "advances ?c0 c'"
    and fd: "frameDrop_mapping_nil c' = n + droppedFrames ?c0 rawData"
    and smp: "Profile_Sample (result c') = map (convertedSample env ?c0 ?ks c') rawData"
    and dom: "\<forall>s \<in> set rawData. \<forall>k \<in> set (sampleKeys env ?c0 ?ks s). locationIndex c' k \<noteq> None"
    by blast
  have pm: "Profile_Mapping (result ?c0) = Profile_Mapping (result c')"
    using advances_profile(1)[OF adv] by simp
  note sc = advances_sameConfig[OF adv]
  have cfg0: "config_ok ?c0" using NewConverter_ok[of env n d p ms t now per] by (simp add: converter_ok_def)
  have rok: "routed_ok env c' (userAddresses rawData)" by (rule Convert_routed[OF run])
  have len: "length (Profile_Sample (result c')) = length rawData" by (simp add: smp)
  have each: "\<forall>k < length rawData.
         length (Sample_Location (Profile_Sample (result c') ! k)) +
           length (unmapped (Profile_Mapping (result c')) (RawSample_UserStack (rawData ! k))) =
         length (RawSample_KernelStack (rawData ! k)) + length (RawSample_UserStack (rawData ! k))"
    using Sample_Location_length[OF smp] unfolding pm by blast
  have cnt: "frameDrop_mapping_nil c' =
        n + sum_list (map (\<lambda>s. length (unmapped (Profile_Mapping (result c')) (RawSample_UserStack s))) rawData)"
    using fd unfolding droppedFrames_def pm by simp
  have route: "\<forall>k < length rawData.
         length (Sample_Location (Profile_Sample (result c') ! k)) =
           length (RawSample_KernelStack (rawData ! k)) +
           length (mapped (Profile_Mapping (result c')) (RawSample_UserStack (rawData ! k))) \<and>
         (\<forall>j < length (mapped (Profile_Mapping (result c')) (RawSample_UserStack (rawData ! k))).
            \<exists>i. routedTo (Profile_Mapping (result c'))
                   (mapped (Profile_Mapping (result c')) (RawSample_UserStack (rawData ! k)) ! j) i \<and>
                i < length ms \<and>
                locationIndex c'
                  (frameKey env ?c0 i
                     (mapped (Profile_Mapping (result c')) (RawSample_UserStack (rawData ! k)) ! j)) =
                  Some (Sample_Location (Profile_Sample (result c') ! k) !
                          (length (RawSample_KernelStack (rawData ! k)) + j)) \<and>
                (\<exists>a \<in> userAddresses rawData. \<exists>i'.
                    routedTo (Profile_Mapping (result c')) a i' \<and>
                    frameKey env ?c0 i' a =
                      frameKey env ?c0 i
                        (mapped (Profile_Mapping (result c')) (RawSample_UserStack (rawData ! k)) ! j) \<and>
                    Location_Mapping (Sample_Location (Profile_Sample (result c') ! k) !
                          (length (RawSample_KernelStack (rawData ! k)) + j)) =
                      Profile_Mapping (result c') ! i'))"
  proof (intro allI impI conjI)
    fix k assume k: "k < length rawData"
    let ?s = "rawData ! k"
    let ?us = "mapped (Profile_Mapping (result c')) (RawSample_UserStack ?s)"
    show "length (Sample_Location (Profile_Sample (result c') ! k)) =
           length (RawSample_KernelStack ?s) + length ?us"
      using each[rule_format, OF k]
        mapped_unmapped_length[of "Profile_Mapping (result c')" "RawSample_UserStack ?s"]
      by simp
    fix j assume j: "j < length ?us"
    let ?a = "?us ! j"
    let ?l = "Sample_Location (Profile_Sample (result c') ! k) ! (length (RawSample_KernelStack ?s) + j)"
    have ain: "?a \<in> set ?us" using j by simp
    from mapped_routedTo[OF ain] obtain i where au: "?a \<in> set (RawSample_UserStack ?s)"
      and rt: "routedTo (Profile_Mapping (result c')) ?a i" by blast
    from rt have mi: "mappingForAddr (Profile_Mapping (result ?c0)) ?a = int i"
      unfolding pm by (simp add: routedTo_mappingForAddr)
    have il: "i < length ms" using config_ok_index(1)[OF cfg0 mi] by (simp add: NewConverter_fields)
    have uk: "userKey env ?c0 ?a = Some (frameKey env ?c0 i ?a)" by (rule userKey_frameKey[OF mi])
    have sin: "?s \<in> set rawData" using k by simp
    have "frameKey env ?c0 i ?a \<in> set (userKeys env ?c0 (RawSample_UserStack ?s))"
      unfolding userKeys_mapped pm using ain uk by (metis (no_types, lifting) image_eqI option.sel set_map)
    then have kin: "frameKey env ?c0 i ?a \<in> set (sampleKeys env ?c0 ?ks ?s)"
      by (simp add: sampleKeys_eq)
    from dom sin kin obtain l where l: "locationIndex c' (frameKey env ?c0 i ?a) = Some l" by blast
    have j0: "j < length (mapped (Profile_Mapping (result ?c0)) (RawSample_UserStack ?s))"
      using j unfolding pm .
    have "?l = the (locationIndex c' (the (userKey env ?c0 ?a)))"
      using user_frame_location[OF smp k j0] unfolding pm .
    with uk l have ll: "?l = l" by simp
    have nk: "\<not> isKernelKey (frameKey env ?c0 i ?a)" by (rule frameKey_not_kernel)
    from rok l nk obtain a' i' where a': "a' \<in> userAddresses rawData"
      and rt': "routedTo (Profile_Mapping (result c')) a' i'"
      and fk': "frameKey env c' i' a' = frameKey env ?c0 i ?a"
      and lm: "Location_Mapping l = Profile_Mapping (result c') ! i'"
      unfolding routed_ok_def by blast
    have fk0: "frameKey env ?c0 i' a' = frameKey env ?c0 i ?a"
      using fk' frameKey_sameConfig[OF sc, of env i' a'] by simp
    have ex: "\<exists>a \<in> userAddresses rawData. \<exists>i'.
                    routedTo (Profile_Mapping (result c')) a i' \<and>
                    frameKey env ?c0 i' a = frameKey env ?c0 i ?a \<and>
                    Location_Mapping ?l = Profile_Mapping (result c') ! i'"
      unfolding ll using a' rt' fk0 lm by blast
    show "\<exists>i. routedTo (Profile_Mapping (result c')) ?a i \<and> i < length ms \<and>
                locationIndex c' (frameKey env ?c0 i ?a) = Some ?l \<and>
                (\<exists>a \<in> userAddresses rawData. \<exists>i'.
                    routedTo (Profile_Mapping (result c')) a i' \<and>
                    frameKey env ?c0 i' a = frameKey env ?c0 i ?a \<and>
                    Location_Mapping ?l = Profile_Mapping (result c') ! i')"
      by (rule exI[of _ i], intro conjI) (rule rt, rule il, simp add: l ll, rule ex)
  qed
  have conv: "\<exists>prof c'. Convert env ?c0 rawData = Inr ((prof, None), c') \<and>
      length (Profile_Sample prof) = length rawData \<and>
      (\<forall>k < length rawData.
         length (Sample_Location (Profile_Sample prof ! k)) +
           length (unmapped (Profile_Mapping prof) (RawSample_UserStack (rawData ! k))) =
         length (RawSample_KernelStack (rawData ! k)) + length (RawSample_UserStack (rawData ! k))) \<and>
      frameDrop_mapping_nil c' =
        n + sum_list (map (\<lambda>s. length (unmapped (Profile_Mapping prof) (RawSample_UserStack s))) rawData) \<and>
      (\<forall>k < length rawData.
         length (Sample_Location (Profile_Sample prof ! k)) =
           length (RawSample_KernelStack (rawData ! k)) +
           length (mapped (Profile_Mapping prof) (RawSample_UserStack (rawData ! k))) \<and>
         (\<forall>j < length (mapped (Profile_Mapping prof) (RawSample_UserStack (rawData ! k))).
            \<exists>i. routedTo (Profile_Mapping prof)
                   (mapped (Profile_Mapping prof) (RawSample_UserStack (rawData ! k)) ! j) i \<and>
                i < length ms \<and>
                locationIndex c'
                  (frameKey env ?c0 i
                     (mapped (Profile_Mapping prof) (RawSample_UserStack (rawData ! k)) ! j)) =
                  Some (Sample_Location (Profile_Sample prof ! k) !
                          (length (RawSample_KernelStack (rawData ! k)) + j)) \<and>
                (\<exists>a \<in> userAddresses rawData. \<exists>i'.
                    routedTo (Profile_Mapping prof) a i' \<and>
                    frameKey env ?c0 i' a =
                      frameKey env ?c0 i
                        (mapped (Profile_Mapping prof) (RawSample_UserStack (rawData ! k)) ! j) \<and>
                    Location_Mapping (Sample_Location (Profile_Sample prof ! k) !
                          (length (RawSample_KernelStack (rawData ! k)) + j)) =
                      Profile_Mapping prof ! i')))"
    by (rule exI[of _ "result c'"], rule exI[of _ c'], intro conjI)
       (rule run, rule len, rule each, rule cnt, rule route)
  show ?thesis
    by (intro conjI) (rule mappingForAddr_first, rule mappingForAddr_none, rule start, rule limit, rule conv)
qed

lemma overlap_run:
  "\<exists>prof c'. Convert exampleCollaborators (NewConverter 0 False 42 overlapMappings 1000 1005 10000000)
                overlapRawData = Inr ((prof, None), c') \<and>
             Profile_Mapping prof = overlapTable"
  by (simp add: convert_defs exampleCollaborators_def overlapRawData_def overlapMappings_def
      overlapTable_def)

lemma overlapTable_routes:
  "routedTo overlapTable 0x2800 0" "inRange (overlapTable ! 1) 0x2800"
  "\<And>i. \<not> routedTo overlapTable 0x5000 i"
  "mapped overlapTable [0x2800, 0x5000] = [0x2800]"
proof -
  show "routedTo overlapTable 0x2800 0" by (simp add: routedTo_def overlapTable_def inRange_def)
  show "inRange (overlapTable ! 1) 0x2800" by (simp add: overlapTable_def inRange_def)
  show "mapped overlapTable [0x2800, 0x5000] = [0x2800]"
    by (simp add: mapped_def overlapTable_def inRange_def)
  have "mappingForAddr overlapTable 0x5000 = -1"
    by (simp add: mappingForAddr_def overlapTable_def)
  then show "\<And>i. \<not> routedTo overlapTable 0x5000 i" by (simp add: routedTo_mappingForAddr)
qed

theorem mappingForAddr_routing_witness:
  "mappingForAddr (Profile_Mapping exampleProfile) 0x400000 = 0 \<and>
   mappingForAddr (Profile_Mapping exampleProfile) 0x500000 \<noteq> 0 \<and>
   unmapped (Profile_Mapping exampleProfile) [0x401000, 0xdeadbeef] = [0xdeadbeef] \<and>
   (\<exists>c'. Convert exampleCollaborators exampleConverter exampleRawData =
           Inr ((exampleProfile, None), c') \<and>
         frameDrop_mapping_nil c' = 7 + 1) \<and>
   length (Sample_Location (Profile_Sample exampleProfile ! 0)) + 1 = 1 + 2 \<and>
   (\<exists>prof c'. Convert exampleCollaborators (NewConverter 0 False 42 overlapMappings 1000 1005 10000000)
                overlapRawData = Inr ((prof, None), c') \<and>
      Profile_Mapping prof = overlapTable \<and>
      inRange (overlapTable ! 0) 0x2800 \<and> inRange (overlapTable ! 1) 0x2800 \<and>
      mapped overlapTable (RawSample_UserStack (overlapRawData ! 0)) = [0x2800] \<and>
      length (Sample_Location (Profile_Sample prof ! 0)) = 1 \<and>
      Location_Mapping (Sample_Location (Profile_Sample prof ! 0) ! 0) = overlapTable ! 0)"
proof -
  note t = mappingForAddr_routing[where maps="Profile_Mapping exampleProfile" and i=0
      and addr="0x400000" and env=exampleCollaborators and n=7 and d=False and p=42
      and ms=exampleMappings and t=1000 and now=1005 and per=10000000 and rawData=exampleRawData]
  have pm: "Profile_Mapping exampleProfile = [exampleAppMapping, exampleVdsoMapping, exampleKernelMapping]"
    by (simp add: exampleProfile_def)
  have st: "Mapping_Start exampleAppMapping = 0x400000" "Mapping_Limit exampleAppMapping = 0x500000"
    by (simp_all add: exampleAppMapping_def)
  note t14 = conjunct1[OF t] conjunct1[OF conjunct2[OF t]]
    conjunct1[OF conjunct2[OF conjunct2[OF t]]]
    conjunct1[OF conjunct2[OF conjunct2[OF conjunct2[OF t]]]]
  note t5 = conjunct2[OF conjunct2[OF conjunct2[OF conjunct2[OF t]]]]
  have a: "mappingForAddr (Profile_Mapping exampleProfile) 0x400000 = 0"
    using t14 unfolding pm by (simp add: st)
  have b: "mappingForAddr (Profile_Mapping exampleProfile) 0x500000 \<noteq> 0"
    using t14 unfolding pm by (simp add: st)
  have u1: "unmapped (Profile_Mapping exampleProfile) [0x401000, 0xdeadbeef] = [0xdeadbeef]"
    unfolding pm
    by (simp add: unmapped_def mappingForAddr_def exampleAppMapping_def exampleVdsoMapping_def
        exampleKernelMapping_def)
  have u2: "unmapped (Profile_Mapping exampleProfile) [0x7f0000000010, 0x401000] = []"
    unfolding pm
    by (simp add: unmapped_def mappingForAddr_def exampleAppMapping_def exampleVdsoMapping_def
        exampleKernelMapping_def)
  from t5 obtain prof c' where
    run: "Convert exampleCollaborators exampleConverter exampleRawData = Inr ((prof, None), c')"
    and each: "\<forall>k < length exampleRawData.
         length (Sample_Location (Profile_Sample prof ! k)) +
           length (unmapped (Profile_Mapping prof) (RawSample_UserStack (exampleRawData ! k))) =
         length (RawSample_KernelStack (exampleRawData ! k)) + length (RawSample_UserStack (exampleRawData ! k))"
    and cnt: "frameDrop_mapping_nil c' =
        7 + sum_list (map (\<lambda>s. length (unmapped (Profile_Mapping prof) (RawSample_UserStack s))) exampleRawData)"
    unfolding exampleConverter_def by blast
  from example_run run have p: "prof = exampleProfile" by auto
  have c: "frameDrop_mapping_nil c' = 7 + 1"
    using cnt unfolding p by (simp add: exampleRawData_def u1 u2)
  have e: "length (Sample_Location (Profile_Sample exampleProfile ! 0)) + 1 = 1 + 2"
    using each[rule_format, of 0] unfolding p by (simp add: exampleRawData_def u1)
  have first: "\<exists>c'. Convert exampleCollaborators exampleConverter exampleRawData =
           Inr ((exampleProfile, None), c') \<and> frameDrop_mapping_nil c' = 7 + 1"
    using run c unfolding p by blast
  note o = mappingForAddr_routing[where maps="[]" and i=0
      and addr=0 and env=exampleCollaborators and n=0 and d=False and p=42
      and ms=overlapMappings and t=1000 and now=1005 and per=10000000 and rawData=overlapRawData]
  note o5 = conjunct2[OF conjunct2[OF conjunct2[OF conjunct2[OF o]]]]
  let ?c0 = "NewConverter 0 False 42 overlapMappings 1000 1005 10000000"
  from o5 obtain prof2 c2 where
    run2: "Convert exampleCollaborators ?c0 overlapRawData = Inr ((prof2, None), c2)"
    and route: "\<forall>k < length overlapRawData.
         length (Sample_Location (Profile_Sample prof2 ! k)) =
           length (RawSample_KernelStack (overlapRawData ! k)) +
           length (mapped (Profile_Mapping prof2) (RawSample_UserStack (overlapRawData ! k))) \<and>
         (\<forall>j < length (mapped (Profile_Mapping prof2) (RawSample_UserStack (overlapRawData ! k))).
            \<exists>i. routedTo (Profile_Mapping prof2)
                   (mapped (Profile_Mapping prof2) (RawSample_UserStack (overlapRawData ! k)) ! j) i \<and>
                i < length overlapMappings \<and>
                locationIndex c2
                  (frameKey exampleCollaborators ?c0 i
                     (mapped (Profile_Mapping prof2) (RawSample_UserStack (overlapRawData ! k)) ! j)) =
                  Some (Sample_Location (Profile_Sample prof2 ! k) !
                          (length (RawSample_KernelStack (overlapRawData ! k)) + j)) \<and>
                (\<exists>a \<in> userAddresses overlapRawData. \<exists>i'.
                    routedTo (Profile_Mapping prof2) a i' \<and>
                    frameKey exampleCollaborators ?c0 i' a =
                      frameKey exampleCollaborators ?c0 i
                        (mapped (Profile_Mapping prof2) (RawSample_UserStack (overlapRawData ! k)) ! j) \<and>
                    Location_Mapping (Sample_Location (Profile_Sample prof2 ! k) !
                          (length (RawSample_KernelStack (overlapRawData ! k)) + j)) =
                      Profile_Mapping prof2 ! i'))"
    by blast
  from overlap_run run2 have pm2: "Profile_Mapping prof2 = overlapTable" by auto
  have us: "RawSample_UserStack (overlapRawData ! 0) = [0x2800, 0x5000]"
    and ks: "RawSample_KernelStack (overlapRawData ! 0) = []"
    and ua: "userAddresses overlapRawData = {0x2800, 0x5000}"
    and k0: "0 < length overlapRawData"
    by (simp_all add: overlapRawData_def userAddresses_def)
  note r0 = route[rule_format, OF k0, unfolded pm2 us ks overlapTable_routes(4)]
  have len2: "length (Sample_Location (Profile_Sample prof2 ! 0)) = 1"
    using r0[THEN conjunct1] by simp
  from r0[THEN conjunct2, rule_format, of 0] obtain a i' where
    ain: "a \<in> userAddresses overlapRawData" and rt: "routedTo overlapTable a i'"
    and lm: "Location_Mapping (Sample_Location (Profile_Sample prof2 ! 0) ! 0) = overlapTable ! i'"
    by auto
  from ain rt overlapTable_routes(3) have "a = 0x2800" unfolding ua by blast
  with rt have "i' = 0" using routedTo_unique[OF _ overlapTable_routes(1)] by blast
  with lm have lm0: "Location_Mapping (Sample_Location (Profile_Sample prof2 ! 0) ! 0) = overlapTable ! 0"
    by simp
  have in0: "inRange (overlapTable ! 0) 0x2800"
    using overlapTable_routes(1) by (simp add: routedTo_def)
  have mp: "mapped overlapTable (RawSample_UserStack (overlapRawData ! 0)) = [0x2800]"
    unfolding us by (rule overlapTable_routes(4))
  have second: "\<exists>prof c'. Convert exampleCollaborators ?c0 overlapRawData = Inr ((prof, None), c') \<and>
      Profile_Mapping prof = overlapTable \<and>
      inRange (overlapTable ! 0) 0x2800 \<and> inRange (overlapTable ! 1) 0x2800 \<and>
      mapped overlapTable (RawSample_UserStack (overlapRawData ! 0)) = [0x2800] \<and>
      length (Sample_Location (Profile_Sample prof ! 0)) = 1 \<and>
      Location_Mapping (Sample_Location (Profile_Sample prof ! 0) ! 0) = overlapTable ! 0"
    by (rule exI[of _ prof2], rule exI[of _ c2], intro conjI)
       (rule run2, rule pm2, rule in0, rule overlapTable_routes(2), rule mp, rule len2, rule lm0)
  show ?thesis using a b u1 first e second by (intro conjI)
qed

lemma tables_ok_distinct:
  assumes t: "tables_ok c" and n: "length (Profile_Location (result c)) < 2 ^ 64"
  shows "distinct (Profile_Location (result c))"
proof -
  from t have ids: "map Location_ID (Profile_Location (result c)) =
       map of_nat [1..<Suc (length (Profile_Location (result c)))]"
    by (simp add: tables_ok_def)
  have "distinct (map (\<lambda>l. unat (Location_ID l)) (Profile_Location (result c)))"
    unfolding dense_unat[OF ids n] by simp
  then show ?thesis by (simp add: distinct_map)
qed

lemma index_ok_unique_key:
  assumes i: "index_ok c" and n: "length (Profile_Location (result c)) < 2 ^ 64"
    and l: "l \<in> set (Profile_Location (result c))"
  shows "\<exists>!k. locationIndex c k = Some l"
proof -
  from i l obtain k where k: "locationIndex c k = Some l" unfolding index_ok_def by blast
  from i n have u: "\<forall>k k' l. locationIndex c k = Some l \<longrightarrow> locationIndex c k' = Some l \<longrightarrow> k = k'"
    unfolding index_ok_def by blast
  show ?thesis
  proof (rule ex1I[of _ k])
    show "locationIndex c k = Some l" by (rule k)
  next
    fix k' assume "locationIndex c k' = Some l"
    with u k show "k' = k" by blast
  qed
qed

text \<open>The kernel locations of the table are the entries of the kernel index.\<close>

lemma kernel_location_key:
  assumes i: "index_ok c" and cfg: "config_ok c"
    and l: "l \<in> set (Profile_Location (result c))"
    and km: "Location_Mapping l = kernelMapping c" and ln: "lineNames l = [s]"
  shows "locationIndex c (KernelKey s) = Some l"
proof -
  from i l obtain k where k: "locationIndex c k = Some l" unfolding index_ok_def by blast
  from index_ok_filed[OF i k] have f: "filed c k l" .
  from cfg have empty: "\<not> Mapping_Start (kernelMapping c) < Mapping_Limit (kernelMapping c)"
    by (simp add: config_ok_def)
  have "isKernelKey k"
  proof (rule ccontr)
    assume "\<not> isKernelKey k"
    with f have "Mapping_Start (Location_Mapping l) < Mapping_Limit (Location_Mapping l)"
      by (simp add: filed_def)
    with km empty show False by simp
  qed
  then obtain s' where ks: "k = KernelKey s'" by (cases k) simp_all
  with f have "lineNames l = [s']" by (simp add: filed_def)
  with ln have "s' = s" by simp
  with k ks show ?thesis by simp
qed

lemma kernel_location_unique:
  assumes i: "index_ok c" and cfg: "config_ok c"
    and k: "locationIndex c (KernelKey s) = Some l"
  shows "(l' \<in> set (Profile_Location (result c)) \<and>
          Location_Mapping l' = kernelMapping c \<and> lineNames l' = [s]) \<longleftrightarrow> l' = l"
proof
  assume "l' \<in> set (Profile_Location (result c)) \<and>
          Location_Mapping l' = kernelMapping c \<and> lineNames l' = [s]"
  then have "locationIndex c (KernelKey s) = Some l'"
    using kernel_location_key[OF i cfg, of l' s] by simp
  with k show "l' = l" by simp
next
  assume e: "l' = l"
  from index_ok_filed[OF i k] have f: "filed c (KernelKey s) l" .
  from i k have m: "l \<in> set (Profile_Location (result c))" unfolding index_ok_def by blast
  from f have "Location_Mapping l = kernelMapping c \<and> lineNames l = [s]"
    by (simp add: filed_def)
  with m e show "l' \<in> set (Profile_Location (result c)) \<and>
          Location_Mapping l' = kernelMapping c \<and> lineNames l' = [s]" by simp
qed

lemma index_ok_bij:
  assumes i: "index_ok c" and n: "length (Profile_Location (result c)) < 2 ^ 64"
  shows "bij_betw (\<lambda>k. the (locationIndex c k)) (dom (locationIndex c))
           (set (Profile_Location (result c)))"
  unfolding bij_betw_def
proof
  from i n have u: "\<And>k k' l. locationIndex c k = Some l \<Longrightarrow> locationIndex c k' = Some l \<Longrightarrow> k = k'"
    unfolding index_ok_def by blast
  show "inj_on (\<lambda>k. the (locationIndex c k)) (dom (locationIndex c))"
  proof (rule inj_onI)
    fix k k' assume "k \<in> dom (locationIndex c)" and "k' \<in> dom (locationIndex c)"
      and e: "the (locationIndex c k) = the (locationIndex c k')"
    then obtain l l' where "locationIndex c k = Some l" and "locationIndex c k' = Some l'"
      by (auto simp: dom_def)
    with e u show "k = k'" by simp
  qed
  show "(\<lambda>k. the (locationIndex c k)) ` dom (locationIndex c) = set (Profile_Location (result c))"
  proof (rule set_eqI, rule iffI)
    fix l assume "l \<in> (\<lambda>k. the (locationIndex c k)) ` dom (locationIndex c)"
    then obtain k where "locationIndex c k = Some l" by (auto simp: dom_def)
    with i show "l \<in> set (Profile_Location (result c))" unfolding index_ok_def by blast
  next
    fix l assume "l \<in> set (Profile_Location (result c))"
    with i obtain k where k: "locationIndex c k = Some l" unfolding index_ok_def by blast
    then have "k \<in> dom (locationIndex c)" and "the (locationIndex c k) = l" by (simp_all add: dom_def)
    then show "l \<in> (\<lambda>k. the (locationIndex c k)) ` dom (locationIndex c)" by (metis imageI)
  qed
qed

text \<open>
  Claim C1, as the code has it. For a batch of fewer than \<open>2^64\<close> frames (so that
  location ids do not wrap around): every frame of every sample refers to the location its
  key has in the indexes when \<open>Convert\<close> returns, so two frames with the same key share
  one location; the locations of the table are pairwise different, and the keys of the
  indexes and the locations of the table correspond one to one, every location looking
  as its key says. A key is the entry of one of the five indexes the converter keeps:
  kernel symbol, VDSO function name, perf-map symbol, jitdump symbol, or native address.
  In particular, for two raw samples whose kernel stacks share an address, the table has
  exactly one location that refers to the kernel mapping and names the symbol of the
  address, and both samples refer to it.
\<close>

theorem Convert_dedup:
  assumes frames: "frameCount rawData < 2 ^ 64"
  shows "\<exists>prof c'.
     Convert env (NewConverter n d p ms t now per) rawData = Inr ((prof, None), c') \<and>
     map Sample_Location (Profile_Sample prof) =
       map (\<lambda>s. locationsOf c'
                  (sampleKeys env (NewConverter n d p ms t now per)
                     (resolveKernelSymbols env rawData) s)) rawData \<and>
     (\<forall>s \<in> set rawData.
        set (sampleKeys env (NewConverter n d p ms t now per)
               (resolveKernelSymbols env rawData) s) \<subseteq> dom (locationIndex c')) \<and>
     distinct (Profile_Location prof) \<and>
     bij_betw (\<lambda>k. the (locationIndex c' k)) (dom (locationIndex c')) (set (Profile_Location prof)) \<and>
     (\<forall>k l. locationIndex c' k = Some l \<longrightarrow> filed c' k l) \<and>
     (\<forall>i < length rawData. \<forall>j < length rawData.
        \<forall>a \<in> set (RawSample_KernelStack (rawData ! i)) \<inter> set (RawSample_KernelStack (rawData ! j)).
          \<exists>l. (\<forall>l'. l' \<in> set (Profile_Location prof) \<and>
                     isKernelLocationFor (NewConverter n d p ms t now per)
                       (resolveKernelSymbols env rawData) a l' \<longleftrightarrow> l' = l) \<and>
              l \<in> set (Sample_Location (Profile_Sample prof ! i)) \<and>
              l \<in> set (Sample_Location (Profile_Sample prof ! j)))"
proof -
  let ?c0 = "NewConverter n d p ms t now per" and ?ks = "resolveKernelSymbols env rawData"
  from Convert_NewConverter[of env n d p ms t now per rawData] obtain c' where
    run: "Convert env ?c0 rawData = Inr ((result c', None), c')"
    and ok: "converter_ok env c'"
    and adv: "advances ?c0 c'"
    and len: "length (Profile_Location (result c')) \<le> frameCount rawData"
    and smp: "Profile_Sample (result c') = map (convertedSample env ?c0 ?ks c') rawData"
    and dom: "\<forall>s \<in> set rawData. \<forall>k \<in> set (sampleKeys env ?c0 ?ks s). locationIndex c' k \<noteq> None"
    by blast
  from ok have io: "index_ok c'" and t: "tables_ok c'" and cfg: "config_ok c'"
    by (simp_all add: converter_ok_def)
  have km: "kernelMapping c' = kernelMapping ?c0" by (rule advances_profile(4)[OF adv])
  have n: "length (Profile_Location (result c')) < 2 ^ 64" using len frames by simp
  have A: "map Sample_Location (Profile_Sample (result c')) =
       map (\<lambda>s. locationsOf c' (sampleKeys env ?c0 ?ks s)) rawData"
    by (simp add: smp convertedSample_def)
  have A2: "\<forall>s \<in> set rawData. set (sampleKeys env ?c0 ?ks s) \<subseteq> dom (locationIndex c')"
  proof (intro ballI subsetI)
    fix s k assume "s \<in> set rawData" and "k \<in> set (sampleKeys env ?c0 ?ks s)"
    with dom have "locationIndex c' k \<noteq> None" by blast
    then show "k \<in> dom (locationIndex c')" by (simp add: dom_def)
  qed
  have B: "distinct (Profile_Location (result c'))" by (rule tables_ok_distinct[OF t n])
  have C: "bij_betw (\<lambda>k. the (locationIndex c' k)) (dom (locationIndex c'))
             (set (Profile_Location (result c')))"
    by (rule index_ok_bij[OF io n])
  have D: "\<forall>k l. locationIndex c' k = Some l \<longrightarrow> filed c' k l"
    using index_ok_filed[OF io] by blast
  have E: "\<forall>i < length rawData. \<forall>j < length rawData.
        \<forall>a \<in> set (RawSample_KernelStack (rawData ! i)) \<inter> set (RawSample_KernelStack (rawData ! j)).
          \<exists>l. (\<forall>l'. l' \<in> set (Profile_Location (result c')) \<and>
                     isKernelLocationFor ?c0 ?ks a l' \<longleftrightarrow> l' = l) \<and>
              l \<in> set (Sample_Location (Profile_Sample (result c') ! i)) \<and>
              l \<in> set (Sample_Location (Profile_Sample (result c') ! j))"
  proof (intro allI impI ballI)
    fix i j a
    assume i: "i < length rawData" and j: "j < length rawData"
      and a: "a \<in> set (RawSample_KernelStack (rawData ! i)) \<inter> set (RawSample_KernelStack (rawData ! j))"
    let ?k = "KernelKey (kernelSymbolOf ?ks a)"
    from a have ai: "a \<in> set (RawSample_KernelStack (rawData ! i))"
      and aj: "a \<in> set (RawSample_KernelStack (rawData ! j))" by simp_all
    have ki: "?k \<in> set (sampleKeys env ?c0 ?ks (rawData ! i))"
      using ai by (simp add: sampleKeys_eq kernelKeys_def)
    have kj: "?k \<in> set (sampleKeys env ?c0 ?ks (rawData ! j))"
      using aj by (simp add: sampleKeys_eq kernelKeys_def)
    have "rawData ! i \<in> set rawData" using i by simp
    with dom ki obtain l where l: "locationIndex c' ?k = Some l" by blast
    have u: "\<forall>l'. l' \<in> set (Profile_Location (result c')) \<and>
                     isKernelLocationFor ?c0 ?ks a l' \<longleftrightarrow> l' = l"
      unfolding isKernelLocationFor_def km[symmetric]
      by (rule allI) (rule kernel_location_unique[OF io cfg l])
    have tl: "the (locationIndex c' ?k) = l" using l by simp
    have "l \<in> (\<lambda>k. the (locationIndex c' k)) ` set (sampleKeys env ?c0 ?ks (rawData ! i))"
      using ki tl by (rule rev_image_eqI[OF _ sym])
    then have li: "l \<in> set (Sample_Location (Profile_Sample (result c') ! i))"
      by (simp add: Profile_Sample_nth[OF smp i] locationsOf_def)
    have "l \<in> (\<lambda>k. the (locationIndex c' k)) ` set (sampleKeys env ?c0 ?ks (rawData ! j))"
      using kj tl by (rule rev_image_eqI[OF _ sym])
    then have lj: "l \<in> set (Sample_Location (Profile_Sample (result c') ! j))"
      by (simp add: Profile_Sample_nth[OF smp j] locationsOf_def)
    show "\<exists>l. (\<forall>l'. l' \<in> set (Profile_Location (result c')) \<and>
                     isKernelLocationFor ?c0 ?ks a l' \<longleftrightarrow> l' = l) \<and>
              l \<in> set (Sample_Location (Profile_Sample (result c') ! i)) \<and>
              l \<in> set (Sample_Location (Profile_Sample (result c') ! j))"
      by (rule exI[of _ l], intro conjI) (rule u, rule li, rule lj)
  qed
  show ?thesis
    by (rule exI[of _ "result c'"], rule exI[of _ c'], intro conjI)
      (rule run, rule A, rule A2, rule B, rule C, rule D, rule E)
qed

theorem Convert_dedup_witness:
  "frameCount exampleRawData < 2 ^ 64 \<and>
   0xffffffff81000000 \<in> set (RawSample_KernelStack (exampleRawData ! 0)) \<inter>
                         set (RawSample_KernelStack (exampleRawData ! 1)) \<and>
   (\<exists>c'. Convert exampleCollaborators exampleConverter exampleRawData =
           Inr ((exampleProfile, None), c')) \<and>
   distinct (Profile_Location exampleProfile) \<and>
   (\<exists>l. l \<in> set (Profile_Location exampleProfile) \<and>
        Location_Mapping l = exampleKernelMapping \<and> lineNames l = [''do_syscall_64''] \<and>
        l \<in> set (Sample_Location (Profile_Sample exampleProfile ! 0)) \<and>
        l \<in> set (Sample_Location (Profile_Sample exampleProfile ! 1)))"
proof -
  have fc: "frameCount exampleRawData < 2 ^ 64"
    by (simp add: frameCount_def exampleRawData_def)
  have a: "0xffffffff81000000 \<in> set (RawSample_KernelStack (exampleRawData ! 0)) \<inter>
                         set (RawSample_KernelStack (exampleRawData ! 1))"
    by (simp add: exampleRawData_def)
  have l0: "0 < length exampleRawData" and l1: "1 < length exampleRawData"
    by (simp_all add: exampleRawData_def)
  note t = Convert_dedup[where env=exampleCollaborators and n=7 and d=False and p=42
      and ms=exampleMappings and t=1000 and now=1005 and per=10000000, OF fc]
  let ?c0 = "NewConverter 7 False 42 exampleMappings 1000 1005 10000000"
  let ?ks = "resolveKernelSymbols exampleCollaborators exampleRawData"
  from t obtain prof c' where
    run: "Convert exampleCollaborators ?c0 exampleRawData = Inr ((prof, None), c')"
    and dist: "distinct (Profile_Location prof)"
    and kern: "\<forall>i < length exampleRawData. \<forall>j < length exampleRawData.
        \<forall>a \<in> set (RawSample_KernelStack (exampleRawData ! i)) \<inter>
              set (RawSample_KernelStack (exampleRawData ! j)).
          \<exists>l. (\<forall>l'. l' \<in> set (Profile_Location prof) \<and>
                     isKernelLocationFor ?c0 ?ks a l' \<longleftrightarrow> l' = l) \<and>
              l \<in> set (Sample_Location (Profile_Sample prof ! i)) \<and>
              l \<in> set (Sample_Location (Profile_Sample prof ! j))"
    by blast
  from example_run run have p: "prof = exampleProfile" by (auto simp: exampleConverter_def)
  from kern[rule_format, OF l0 l1 a] obtain l where
    u: "\<forall>l'. l' \<in> set (Profile_Location prof) \<and>
              isKernelLocationFor ?c0 ?ks 0xffffffff81000000 l' \<longleftrightarrow> l' = l"
    and li: "l \<in> set (Sample_Location (Profile_Sample prof ! 0))"
    and lj: "l \<in> set (Sample_Location (Profile_Sample prof ! 1))"
    by blast
  from u[rule_format, of l] have lt: "l \<in> set (Profile_Location prof)"
    and lk: "isKernelLocationFor ?c0 ?ks 0xffffffff81000000 l" by blast+
  have km: "kernelMapping ?c0 = exampleKernelMapping"
    by (simp add: NewConverter_fields exampleKernelMapping_def exampleMappings_def)
  have sy: "kernelSymbolOf ?ks 0xffffffff81000000 = ''do_syscall_64''"
    by (simp add: kernelSymbolOf_def resolveKernelSymbols_def exampleCollaborators_def)
  from lk have lm: "Location_Mapping l = exampleKernelMapping"
    and ln: "lineNames l = [''do_syscall_64'']"
    by (simp_all add: isKernelLocationFor_def km sy)
  have r: "\<exists>c'. Convert exampleCollaborators exampleConverter exampleRawData =
           Inr ((exampleProfile, None), c')"
    using run unfolding p exampleConverter_def by blast
  have e: "\<exists>l. l \<in> set (Profile_Location exampleProfile) \<and>
        Location_Mapping l = exampleKernelMapping \<and> lineNames l = [''do_syscall_64''] \<and>
        l \<in> set (Sample_Location (Profile_Sample exampleProfile ! 0)) \<and>
        l \<in> set (Sample_Location (Profile_Sample exampleProfile ! 1))"
    using lt lm ln li lj unfolding p by blast
  show ?thesis using fc a r dist[unfolded p] e by (intro conjI)
qed

text \<open>
  With one index for all JIT symbols the claim would hold as stated; the code keeps one
  for the perf map and one for the jitdump files. A symbol name that both give has two
  locations: here the two user frames of one sample, resolved to \<open>foo\<close> by the perf map
  and by a jitdump, get the locations 1 and 2.
\<close>

theorem jit_symbol_two_locations_counterexample:
  "\<exists>prof c'. Convert jitCollaborators jitConverter jitRawData = Inr ((prof, None), c') \<and>
      map lineNames (Profile_Location prof) = [[''foo''], [''foo'']] \<and>
      map (\<lambda>l. Mapping_File (Location_Mapping l)) (Profile_Location prof) =
        [''jit'', ''/tmp/jit-42.dump''] \<and>
      map (\<lambda>l. unat (Location_ID l)) (Profile_Location prof) = [1, 2] \<and>
      map (\<lambda>s. map (\<lambda>l. unat (Location_ID l)) (Sample_Location s)) (Profile_Sample prof) = [[1, 2]] \<and>
      map (\<lambda>l. unat (Location_ID l))
        [the (perfmapLocationIndex c' ''foo''), the (jitdumpLocationIndex c' ''foo'')] = [1, 2]"
  by (simp add: convert_defs jitCollaborators_def exampleCollaborators_def jitConverter_def
      jitRawData_def jitMappings_def lineNames_def)

section \<open>pkg/debuginfo: an upload the backend already has\<close>

lemma hashOf_sent:
  "hashOf w (di\<lparr>sent := x\<rparr>) dbg =
     (case hashOf w di dbg of Inl err \<Rightarrow> Inl err | Inr (h, d) \<Rightarrow> Inr (h, d\<lparr>sent := x\<rparr>))"
  by (simp add: hashOf_def Let_def split: option.splits sum.splits)

lemma hashOf_frame:
  "hashOf w di dbg = Inr (h, d) \<Longrightarrow>
     sent d = sent di \<and> shouldInitiateCache d = shouldInitiateCache di"
  by (auto simp: hashOf_def Let_def split: option.splits sum.splits)

lemma shouldInitiate_true:
  assumes "GetIfPresent (shouldInitiateCache di) b = None" and "ShouldInitiateUpload w b \<noteq> Inr False"
  shows "shouldInitiate w di b fp = (True, di\<lparr>sent := sent di @ [Call_ShouldInitiateUpload b]\<rparr>)"
  using assms by (auto simp: shouldInitiate_def Let_def split: sum.splits)

lemma upload_AlreadyExists_eq:
  assumes miss: "GetIfPresent (shouldInitiateCache di) (BuildID dbg) = None"
    and should: "ShouldInitiateUpload w (BuildID dbg) \<noteq> Inr False"
    and hash: "hashOf w di dbg = Inr (h, dh)"
    and ae: "InitiateUpload w (BuildID dbg) h (Size dbg) = Inl (StatusError codes_AlreadyExists)"
  shows "upload w di dbg =
     (None, dh\<lparr>sent := sent di @ [Call_ShouldInitiateUpload (BuildID dbg),
                                     Call_InitiateUpload (BuildID dbg) h (Size dbg)],
               shouldInitiateCache := Put (shouldInitiateCache di) (BuildID dbg) ()\<rparr>)"
proof -
  let ?di1 = "di\<lparr>sent := sent di @ [Call_ShouldInitiateUpload (BuildID dbg)]\<rparr>"
  have s: "shouldInitiate w di (BuildID dbg) (Path dbg) = (True, ?di1)"
    by (rule shouldInitiate_true[OF miss should])
  have h1: "hashOf w ?di1 dbg = Inr (h, dh\<lparr>sent := sent di @ [Call_ShouldInitiateUpload (BuildID dbg)]\<rparr>)"
    by (simp add: hashOf_sent hash)
  note fr = hashOf_frame[OF hash]
  show ?thesis
    unfolding upload_def Let_def s
    by (simp add: h1 ae fr)
qed

lemma EnsureUploaded_cached:
  assumes "GetIfPresent (shouldInitiateCache di) (BuildID src) \<noteq> None"
  shows "EnsureUploaded w di root src = ((None, src), di)"
  using assms by (auto simp: EnsureUploaded_def shouldInitiate_def)

lemma GetIfPresent_Put:
  "c \<noteq> NoopCache \<Longrightarrow> GetIfPresent (Put c k v) k = Some v"
  by (cases c) simp_all

text \<open>
  Claim C8. Let \<open>upload\<close> reach \<open>InitiateUpload\<close> (the build id is not cached, the
  backend did not answer that no upload is wanted, and the hash is at hand), and let that
  call fail with the gRPC status \<open>AlreadyExists\<close>. Then \<open>upload\<close> returns nil, has put the
  build id into the should-initiate cache, and has sent the two calls and no body. With
  caching enabled, any later \<open>EnsureUploaded\<close> for an object file of that build id, within
  the TTL, returns nil and sends nothing, whatever the backend would answer.
\<close>

theorem upload_AlreadyExists:
  assumes miss: "GetIfPresent (shouldInitiateCache di) (BuildID dbg) = None"
    and should: "ShouldInitiateUpload w (BuildID dbg) \<noteq> Inr False"
    and hash: "hashOf w di dbg = Inr (h, dh)"
    and ae: "InitiateUpload w (BuildID dbg) h (Size dbg) = Inl (StatusError codes_AlreadyExists)"
  shows "fst (upload w di dbg) = None \<and>
     shouldInitiateCache (snd (upload w di dbg)) = Put (shouldInitiateCache di) (BuildID dbg) () \<and>
     sent (snd (upload w di dbg)) =
       sent di @ [Call_ShouldInitiateUpload (BuildID dbg),
                  Call_InitiateUpload (BuildID dbg) h (Size dbg)] \<and>
     filter isTransfer (sent (snd (upload w di dbg))) = filter isTransfer (sent di) \<and>
     (shouldInitiateCache di \<noteq> NoopCache \<longrightarrow>
        (\<forall>w' root src. BuildID src = BuildID dbg \<longrightarrow>
           EnsureUploaded w' (snd (upload w di dbg)) root src =
             ((None, src), snd (upload w di dbg))))"
proof -
  note u = upload_AlreadyExists_eq[OF miss should hash ae]
  have a: "fst (upload w di dbg) = None" by (simp add: u)
  have b: "shouldInitiateCache (snd (upload w di dbg)) = Put (shouldInitiateCache di) (BuildID dbg) ()"
    by (simp add: u)
  have c: "sent (snd (upload w di dbg)) =
       sent di @ [Call_ShouldInitiateUpload (BuildID dbg),
                  Call_InitiateUpload (BuildID dbg) h (Size dbg)]"
    by (simp add: u)
  have d: "filter isTransfer (sent (snd (upload w di dbg))) = filter isTransfer (sent di)"
    by (simp add: c isTransfer_def)
  have e: "shouldInitiateCache di \<noteq> NoopCache \<longrightarrow>
        (\<forall>w' root src. BuildID src = BuildID dbg \<longrightarrow>
           EnsureUploaded w' (snd (upload w di dbg)) root src =
             ((None, src), snd (upload w di dbg)))"
  proof (intro impI allI)
    fix w' root src
    assume en: "shouldInitiateCache di \<noteq> NoopCache" and bid: "BuildID src = BuildID dbg"
    have "GetIfPresent (shouldInitiateCache (snd (upload w di dbg))) (BuildID src) \<noteq> None"
      using GetIfPresent_Put[OF en, of "BuildID dbg" "()"] by (simp add: b bid)
    then show "EnsureUploaded w' (snd (upload w di dbg)) root src =
             ((None, src), snd (upload w di dbg))"
      by (rule EnsureUploaded_cached)
  qed
  show ?thesis using a b c d e by (intro conjI)
qed

theorem upload_AlreadyExists_witness:
  "GetIfPresent (shouldInitiateCache exampleManager) (BuildID exampleDebugFile) = None \<and>
   ShouldInitiateUpload exampleWorld (BuildID exampleDebugFile) = Inr True \<and>
   InitiateUpload exampleWorld (BuildID exampleDebugFile) ''h'' (Size exampleDebugFile) =
     Inl (StatusError codes_AlreadyExists) \<and>
   fst (upload exampleWorld exampleManager exampleDebugFile) = None \<and>
   sent (snd (upload exampleWorld exampleManager exampleDebugFile)) =
     [Call_ShouldInitiateUpload ''new'', Call_InitiateUpload ''new'' ''h'' 4096] \<and>
   shouldInitiateCache (snd (upload exampleWorld exampleManager exampleDebugFile)) =
     BurrowCache [''new'' \<mapsto> ()] \<and>
   fst (EnsureUploaded exampleWorld (snd (upload exampleWorld exampleManager exampleDebugFile))
          ''/'' exampleDebugFile) = (None, exampleDebugFile) \<and>
   sent (snd (EnsureUploaded exampleWorld (snd (upload exampleWorld exampleManager exampleDebugFile))
          ''/'' exampleDebugFile)) =
     [Call_ShouldInitiateUpload ''new'', Call_InitiateUpload ''new'' ''h'' 4096]"
proof -
  have miss: "GetIfPresent (shouldInitiateCache exampleManager) (BuildID exampleDebugFile) = None"
    by (simp add: exampleManager_def)
  have sh: "ShouldInitiateUpload exampleWorld (BuildID exampleDebugFile) = Inr True"
    by (simp add: exampleWorld_def exampleDebugFile_def)
  then have should: "ShouldInitiateUpload exampleWorld (BuildID exampleDebugFile) \<noteq> Inr False"
    by simp
  have hash: "hashOf exampleWorld exampleManager exampleDebugFile =
      Inr (''h'', exampleManager\<lparr>hashCache := BurrowCache [(''new'', 0) \<mapsto> ''h'']\<rparr>)"
    by (simp add: hashOf_def exampleWorld_def exampleManager_def exampleDebugFile_def)
  have ae: "InitiateUpload exampleWorld (BuildID exampleDebugFile) ''h'' (Size exampleDebugFile) =
     Inl (StatusError codes_AlreadyExists)"
    by (simp add: exampleWorld_def codes_AlreadyExists_def)
  have en: "shouldInitiateCache exampleManager \<noteq> NoopCache" by (simp add: exampleManager_def)
  have put: "Put (shouldInitiateCache exampleManager) ''new'' () = BurrowCache [''new'' \<mapsto> ()]"
    by (simp add: exampleManager_def)
  have s0: "sent exampleManager = []" by (simp add: exampleManager_def)
  have bs: "BuildID exampleDebugFile = ''new''" "Size exampleDebugFile = 4096"
    by (simp_all add: exampleDebugFile_def)
  note t = upload_AlreadyExists[OF miss should hash ae]
  from t en have eu: "EnsureUploaded exampleWorld (snd (upload exampleWorld exampleManager exampleDebugFile))
          ''/'' exampleDebugFile =
        ((None, exampleDebugFile), snd (upload exampleWorld exampleManager exampleDebugFile))"
    by blast
  show ?thesis
    using t miss sh ae unfolding eu s0 bs by (simp add: put)
qed

end
